(* ===== verification/Prelude.thy ===== *)
theory Prelude
  imports Main "HOL-Library.List_Lexorder" "HOL-Library.Char_ord" "HOL-Library.Multiset"
begin
text \<open>
  Shared vocabulary of the pulp-docs model: Python exceptions as values of
  \<open>py_error\<close>, the result type \<open>'a result\<close> with its bind \<open>sbind\<close>, the
  string operations of Python's \<open>str\<close> that the sources call
  (\<open>startswith\<close>, \<open>endswith\<close>, \<open>lower\<close>, \<open>split\<close>, \<open>join\<close>, \<open>in\<close>), and
  Python's insertion-ordered \<open>dict\<close> as an association list with \<open>dict_set\<close>
  (assignment \<open>d[k] = v\<close>). Strings are \<open>char list\<close>s whose characters are
  the Latin-1 code points; Python compares strings by code point, which is
  the lexicographic order of \<open>HOL-Library.List_Lexorder\<close> over
  \<open>HOL-Library.Char_ord\<close>.
\<close>

named_theorems py_simps "evaluation rules of the Python string and dict helpers"

subsection \<open>Exceptions as values\<close>

datatype py_error =
    KeyError string
  | IndexError string
  | ValueError string
  | AttributeError string
  | TypeError string
  | FileNotFoundError string
  | IsADirectoryError string
  | FileExistsError string
  | CalledProcessError string
  | NotADirectoryError string
  | ShutilError "(string \<times> string \<times> py_error) list"
  | ShutilMoveError string
  | HTTPError string
  | TarError string
  | Unmodelled string

type_synonym 'a result = "py_error + 'a"

text \<open>An exception of the model that stands for behaviour it does not describe.\<close>

definition is_unmodelled :: "py_error \<Rightarrow> bool" where
  "is_unmodelled e = (case e of Unmodelled _ \<Rightarrow> True | _ \<Rightarrow> False)"

definition sbind :: "'a result \<Rightarrow> ('a \<Rightarrow> 'b result) \<Rightarrow> 'b result" where
  "sbind r f = (case r of Inl e \<Rightarrow> Inl e | Inr v \<Rightarrow> f v)"

text \<open>A list comprehension or a \<open>for\<close> loop whose body may raise: the
  elements are computed left to right and the first exception propagates.\<close>

fun map_res :: "('a \<Rightarrow> 'b result) \<Rightarrow> 'a list \<Rightarrow> 'b list result" where
  "map_res f [] = Inr []"
| "map_res f (x # xs) = sbind (f x) (\<lambda>y. sbind (map_res f xs) (\<lambda>ys. Inr (y # ys)))"

subsection \<open>Python string operations\<close>

text \<open>\<open>s.startswith(p)\<close>\<close>

fun startswith :: "string \<Rightarrow> string \<Rightarrow> bool" where
  "startswith [] s = True"
| "startswith (c # p) [] = False"
| "startswith (c # p) (d # s) = (c = d \<and> startswith p s)"

text \<open>\<open>s.endswith(p)\<close>\<close>

definition endswith :: "string \<Rightarrow> string \<Rightarrow> bool" where
  "endswith p s = startswith (rev p) (rev s)"

text \<open>\<open>sub in s\<close> for strings: \<open>sub\<close> occurs contiguously in \<open>s\<close>.\<close>

fun str_contains :: "string \<Rightarrow> string \<Rightarrow> bool" where
  "str_contains sub [] = (sub = [])"
| "str_contains sub (c # s) = (startswith sub (c # s) \<or> str_contains sub s)"

text \<open>\<open>str.lower\<close> on Latin-1 code points: A-Z and the Latin-1 capitals
  (0xC0 to 0xDE except the multiplication sign 0xD7) move down by 32.\<close>

definition py_lower_char :: "char \<Rightarrow> char" where
  "py_lower_char c =
     (let n = of_char c :: nat in
      if (65 \<le> n \<and> n \<le> 90) \<or> (192 \<le> n \<and> n \<le> 222 \<and> n \<noteq> 215)
      then char_of (n + 32) else c)"

definition str_lower :: "string \<Rightarrow> string" where
  "str_lower s = map py_lower_char s"

text \<open>\<open>s.split(c)\<close> for a one-character separator: never empty, \<open>''''\<close>
  splits to \<open>['']\<close>.\<close>

fun split_char :: "char \<Rightarrow> string \<Rightarrow> string list" where
  "split_char c [] = [[]]"
| "split_char c (x # xs) =
     (if x = c then [] # split_char c xs
      else (case split_char c xs of [] \<Rightarrow> [[x]] | w # ws \<Rightarrow> (x # w) # ws))"

text \<open>\<open>str.split()\<close> without a separator: the words between runs of
  whitespace (\<open>str.isspace\<close> on the Latin-1 range), empty words dropped.\<close>

definition is_py_space :: "char \<Rightarrow> bool" where
  "is_py_space c \<longleftrightarrow>
     c \<in> set [CHR 0x20, CHR 0x09, CHR 0x0A, CHR 0x0B, CHR 0x0C, CHR 0x0D, CHR 0x1C, CHR 0x1D, CHR 0x1E,
              CHR 0x1F, CHR 0x85, CHR 0xA0]"

fun split_ws_go :: "string \<Rightarrow> string \<Rightarrow> string list" where
  "split_ws_go w [] = (if w = [] then [] else [rev w])"
| "split_ws_go w (c # s) =
     (if is_py_space c then (if w = [] then split_ws_go [] s else rev w # split_ws_go [] s)
      else split_ws_go (c # w) s)"

definition py_split_ws :: "string \<Rightarrow> string list" where
  "py_split_ws s = split_ws_go [] s"

text \<open>\<open>sep.join(xs)\<close>\<close>

fun join_with :: "string \<Rightarrow> string list \<Rightarrow> string" where
  "join_with sep [] = []"
| "join_with sep [x] = x"
| "join_with sep (x # y # xs) = x @ sep @ join_with sep (y # xs)"

text \<open>\<open>s.splitlines()\<close>: the line boundaries of \<open>str\<close> among the Latin-1
  code points (\<open>\n\<close>, \<open>\r\<close>, \<open>\r\n\<close>, \<open>\v\<close>, \<open>\f\<close>, \<open>\x1c\<close>,
  \<open>\x1d\<close>, \<open>\x1e\<close>, \<open>\x85\<close>); a final boundary does not start an empty
  line.\<close>

definition is_line_break :: "char \<Rightarrow> bool" where
  "is_line_break c \<longleftrightarrow> c \<in> set [CHR 0x0A, CHR 0x0D, CHR 0x0B, CHR 0x0C, CHR 0x1C, CHR 0x1D, CHR 0x1E, CHR 0x85]"

fun splitlines :: "string \<Rightarrow> string list" where
  "splitlines [] = []"
| "splitlines [c] = (if is_line_break c then [[]] else [[c]])"
| "splitlines (c # d # s) =
     (if c = CHR 0x0D \<and> d = CHR 0x0A then [] # splitlines s
      else if is_line_break c then [] # splitlines (d # s)
      else (case splitlines (d # s) of [] \<Rightarrow> [[c]] | l # ls \<Rightarrow> (c # l) # ls))"

subsection \<open>Python dicts as association lists\<close>

text \<open>\<open>d[k] = v\<close>: an existing key keeps its position and takes the new value;
  a new key is appended at the end (insertion order).\<close>

fun dict_set :: "'k \<Rightarrow> 'v \<Rightarrow> ('k \<times> 'v) list \<Rightarrow> ('k \<times> 'v) list" where
  "dict_set k v [] = [(k, v)]"
| "dict_set k v ((k', v') # d) =
     (if k = k' then (k, v) # d else (k', v') # dict_set k v d)"

text \<open>A sequence of assignments \<open>d[k1] = v1; d[k2] = v2; ...\<close>\<close>

fun dict_extend :: "('k \<times> 'v) list \<Rightarrow> ('k \<times> 'v) list \<Rightarrow> ('k \<times> 'v) list" where
  "dict_extend d [] = d"
| "dict_extend d ((k, v) # kvs) = dict_extend (dict_set k v d) kvs"

text \<open>\<open>d[k]\<close> for reading: KeyError when the key is missing.\<close>

definition dict_get :: "(string \<times> 'v) list \<Rightarrow> string \<Rightarrow> 'v result" where
  "dict_get d k = (case map_of d k of None \<Rightarrow> Inl (KeyError k) | Some v \<Rightarrow> Inr v)"

subsection \<open>Lemmas on results, strings and dicts\<close>

lemma sbind_Inl [simp]: "sbind (Inl e) f = Inl e"
  and sbind_Inr [simp]: "sbind (Inr v) f = f v"
  by (simp_all add: sbind_def)

lemma sbind_eq_Inr [simp]:
  "(sbind r f = Inr w) \<longleftrightarrow> (\<exists>v. r = Inr v \<and> f v = Inr w)"
  by (cases r) simp_all

lemma sbind_eq_Inl:
  "(sbind r f = Inl e) \<longleftrightarrow> (r = Inl e \<or> (\<exists>v. r = Inr v \<and> f v = Inl e))"
  by (cases r) simp_all

lemma map_res_map [simp]: "map_res (\<lambda>x. Inr (g x)) xs = Inr (map g xs)"
  by (induction xs) simp_all

lemma map_res_Inr_conv:
  "(\<forall>x\<in>set xs. f x = Inr (g x)) \<Longrightarrow> map_res f xs = Inr (map g xs)"
  by (induction xs) simp_all

lemma map_res_map_arg: "map_res f (map g xs) = map_res (\<lambda>x. f (g x)) xs"
  by (induction xs) simp_all

lemma sbind_map_sum: "sbind (map_sum id f r) k = sbind r (\<lambda>v. k (f v))"
  by (cases r) simp_all

lemma map_sum_sbind: "map_sum id f (sbind r k) = sbind r (\<lambda>v. map_sum id f (k v))"
  by (cases r) simp_all

lemma map_res_natural: "map_res (\<lambda>x. map_sum id f (g x)) xs = map_sum id (map f) (map_res g xs)"
proof (induction xs)
  case (Cons x xs)
  then show ?case by (cases "g x"; cases "map_res g xs") simp_all
qed simp

lemma map_res_Inr_iff: "map_res f xs = Inr ys \<longleftrightarrow> list_all2 (\<lambda>x y. f x = Inr y) xs ys"
  by (induction xs arbitrary: ys) (auto simp: list_all2_Cons1)

lemma startswith_iff: "startswith p s \<longleftrightarrow> (\<exists>t. s = p @ t)"
  by (induction p s rule: startswith.induct) auto

lemma startswith_append [simp]: "startswith p (p @ t)"
  by (simp add: startswith_iff)

lemma endswith_iff: "endswith p s \<longleftrightarrow> (\<exists>t. s = t @ p)"
proof -
  have "endswith p s \<longleftrightarrow> (\<exists>t. rev s = rev p @ t)"
    by (simp add: endswith_def startswith_iff)
  also have "\<dots> \<longleftrightarrow> (\<exists>t. s = t @ p)"
    by (metis rev_append rev_rev_ident)
  finally show ?thesis .
qed

lemma str_contains_iff: "str_contains sub s \<longleftrightarrow> (\<exists>a b. s = a @ sub @ b)"
proof (induction s)
  case Nil
  then show ?case by simp
next
  case (Cons c s)
  have "(\<exists>a b. c # s = a @ sub @ b) \<longleftrightarrow> (\<exists>t. c # s = sub @ t) \<or> (\<exists>a b. s = a @ sub @ b)"
    by (auto simp: Cons_eq_append_conv)
  with Cons.IH show ?case by (simp add: startswith_iff)
qed

lemma split_char_not_Nil [simp]: "split_char c s \<noteq> []"
  by (induction s) (auto split: list.splits)

lemma length_split_char: "length (split_char c s) = Suc (count_list s c)"
  by (induction s) (auto split: list.splits)

lemma split_char_notin: "c \<notin> set s \<Longrightarrow> split_char c s = [s]"
  by (induction s) auto

lemma last_split_char:
  "last (split_char c s) = rev (takeWhile (\<lambda>x. x \<noteq> c) (rev s))"
proof (induction s)
  case Nil
  then show ?case by simp
next
  case (Cons x xs)
  show ?case
  proof (cases "c \<in> set xs")
    case True
    then have "takeWhile (\<lambda>y. y \<noteq> c) (rev xs @ [x]) = takeWhile (\<lambda>y. y \<noteq> c) (rev xs)"
      by (simp add: takeWhile_append1)
    moreover from True have "2 \<le> length (split_char c xs)"
      using count_list_0_iff [of xs c] by (simp add: length_split_char)
    ultimately show ?thesis using Cons.IH
      by (auto split: list.splits)
  next
    case False
    then have "split_char c xs = [xs]" by (rule split_char_notin)
    moreover from False have "takeWhile (\<lambda>y. y \<noteq> c) (rev xs @ [x]) = rev xs @ takeWhile (\<lambda>y. y \<noteq> c) [x]"
      by (intro takeWhile_append2) auto
    ultimately show ?thesis by simp
  qed
qed

lemma map_of_dict_set [simp]: "map_of (dict_set k v d) = (map_of d)(k \<mapsto> v)"
  by (induction d) (auto simp: fun_eq_iff)

lemma keys_dict_set:
  "map fst (dict_set k v d) = (if k \<in> set (map fst d) then map fst d else map fst d @ [k])"
  by (induction d) force+

lemma set_keys_dict_set [simp]: "set (map fst (dict_set k v d)) = insert k (set (map fst d))"
  by (auto simp: keys_dict_set)

lemma distinct_keys_dict_set [simp]:
  "distinct (map fst d) \<Longrightarrow> distinct (map fst (dict_set k v d))"
  by (simp add: keys_dict_set)

lemma length_dict_set_le: "length (dict_set k v d) \<le> Suc (length d)"
  by (induction d) auto

lemma dict_set_fresh: "k \<notin> set (map fst d) \<Longrightarrow> dict_set k v d = d @ [(k, v)]"
  by (induction d) auto

lemma dict_set_existing_keys:
  "k \<in> set (map fst d) \<Longrightarrow> map fst (dict_set k v d) = map fst d"
  by (simp add: keys_dict_set)

lemma dict_set_twice [simp]: "dict_set k v' (dict_set k v d) = dict_set k v' d"
  by (induction d) auto

lemma dict_extend_append [simp]: "dict_extend d (xs @ ys) = dict_extend (dict_extend d xs) ys"
  by (induction d xs rule: dict_extend.induct) auto

lemma dict_extend_fresh:
  "distinct (map fst kvs) \<Longrightarrow> set (map fst kvs) \<inter> set (map fst d) = {} \<Longrightarrow>
   dict_extend d kvs = d @ kvs"
  by (induction d kvs rule: dict_extend.induct) (auto simp: dict_set_fresh)

subsection \<open>\<open>str.splitlines\<close>\<close>

lemma splitlines_cons:
  "\<not> is_line_break c \<Longrightarrow> splitlines (c # s) = (case splitlines s of [] \<Rightarrow> [[c]] | l # ls \<Rightarrow> (c # l) # ls)"
  by (cases s) (auto simp: is_line_break_def)

lemma splitlines_line:
  "\<not> list_ex is_line_break l \<Longrightarrow> splitlines (l @ CHR 0x0A # rest) = l # splitlines rest"
proof (induction l)
  case Nil
  then show ?case by (cases rest) (simp_all add: is_line_break_def)
next
  case (Cons c l)
  then show ?case by (simp add: splitlines_cons)
qed

text \<open>Lines without a line break, each written with a trailing newline,
  are read back by \<open>splitlines\<close> unchanged.\<close>

lemma splitlines_roundtrip:
  "list_all (\<lambda>l. \<not> list_ex is_line_break l) ls \<Longrightarrow> splitlines (concat (map (\<lambda>l. l @ [CHR 0x0A]) ls)) = ls"
  by (induction ls) (simp_all add: splitlines_line)

lemmas py_string_defs [py_simps] = endswith_def str_lower_def

end
