(* ===== verification/Paths.thy ===== *)
theory Paths
  imports Prelude
begin

text \<open>
  The part of Python's \<open>pathlib\<close> that the navigation code relies on, and the
  file system it reads. A path is its tuple of \<open>parts\<close>
  (\<open>PurePosixPath('/tmp/x/a.md').parts = ('/', 'tmp', 'x', 'a.md')\<close>): an
  absolute path starts with its root part \<open>'/'\<close> (or \<open>'//'\<close>, which POSIX
  keeps), empty and \<open>'.'\<close> segments are dropped. \<open>p / s\<close> is \<open>path_div\<close>, the
  string of a path \<open>path_str\<close>, \<open>Path.relative_to\<close> is \<open>relative_to\<close> (a
  \<open>ValueError\<close> when the base is not a lexical ancestor). The file system is a
  finite table of directories with their entry names in directory order
  (the order of \<open>os.scandir\<close>, which \<open>Path.glob\<close> follows) and of regular
  files with their contents.
\<close>

type_synonym path = "string list"

record fsys =
  fs_dirs :: "(path \<times> string list) list"
  fs_files :: "(path \<times> string) list"

definition is_root_part :: "string \<Rightarrow> bool" where
  "is_root_part s \<longleftrightarrow> s = ''/'' \<or> s = ''//''"

definition path_root :: "string \<Rightarrow> path" where
  "path_root s =
     (if startswith ''//'' s \<and> \<not> startswith ''///'' s then [''//'']
      else if startswith ''/'' s then [''/''] else [])"

definition path_parts :: "string \<Rightarrow> path" where
  "path_parts s = path_root s @ filter (\<lambda>c. c \<noteq> [] \<and> c \<noteq> ''.'') (split_char CHR ''/'' s)"

definition path_div :: "path \<Rightarrow> string \<Rightarrow> path" where
  "path_div p s = (if path_root s \<noteq> [] then path_parts s else p @ path_parts s)"

definition path_str :: "path \<Rightarrow> string" where
  "path_str p =
     (case p of
        [] \<Rightarrow> ''.''
      | r # rest \<Rightarrow> (if is_root_part r then r @ join_with ''/'' rest else join_with ''/'' p))"

definition is_absolute :: "path \<Rightarrow> bool" where
  "is_absolute p \<longleftrightarrow> (p \<noteq> [] \<and> is_root_part (hd p))"

text \<open>\<open>p.absolute()\<close> for the current directory \<open>cwd\<close>\<close>

definition path_absolute :: "path \<Rightarrow> path \<Rightarrow> path" where
  "path_absolute cwd p = (if is_absolute p then p else cwd @ p)"

definition relative_to :: "path \<Rightarrow> path \<Rightarrow> path result" where
  "relative_to p base =
     (if take (length base) p = base \<and> (is_absolute p \<longleftrightarrow> is_absolute base)
      then Inr (drop (length base) p)
      else Inl (ValueError (path_str p @ '' is not in the subpath of '' @ path_str base)))"

definition fs_listdir :: "fsys \<Rightarrow> path \<Rightarrow> string list option" where
  "fs_listdir fs p = map_of (fs_dirs fs) p"

definition fs_exists :: "fsys \<Rightarrow> path \<Rightarrow> bool" where
  "fs_exists fs p \<longleftrightarrow> map_of (fs_dirs fs) p \<noteq> None \<or> map_of (fs_files fs) p \<noteq> None"

text \<open>A name as \<open>os.scandir\<close> reports it: non-empty, no separator, not a
  dot entry; a directory lists each name once.\<close>

definition entry_name_ok :: "string \<Rightarrow> bool" where
  "entry_name_ok n \<longleftrightarrow> n \<noteq> [] \<and> CHR ''/'' \<notin> set n \<and> n \<noteq> ''.'' \<and> n \<noteq> ''..''"

definition fs_wf :: "fsys \<Rightarrow> bool" where
  "fs_wf fs \<longleftrightarrow> (\<forall>(p, ns) \<in> set (fs_dirs fs). distinct ns \<and> (\<forall>n \<in> set ns. entry_name_ok n))"

lemma path_root_relative [simp]: "\<not> startswith ''/'' s \<Longrightarrow> path_root s = []"
  by (auto simp: path_root_def startswith_iff)

lemma path_parts_no_root:
  "\<not> startswith ''/'' s \<Longrightarrow> path_parts s = filter (\<lambda>c. c \<noteq> [] \<and> c \<noteq> ''.'') (split_char CHR ''/'' s)"
  by (simp add: path_parts_def)

lemma path_div_relative: "\<not> startswith ''/'' s \<Longrightarrow> path_div p s = p @ path_parts s"
  by (simp add: path_div_def)

lemma relative_to_append [simp]:
  "(\<forall>c\<in>set q. \<not> is_root_part c) \<Longrightarrow> relative_to (base @ q) base = Inr q"
  by (cases base; cases q) (auto simp: relative_to_def is_absolute_def)

end
