(* ===== verification/Discovery.thy ===== *)
theory Discovery
  imports Paths
begin

text \<open>
  FileDiscovery: \<open>AgregationUtils.get_children\<close> of
  \<open>src/pulp_docs/navigation.py\<close> (markdown files directly inside a directory,
  without the private ones whose name starts with \<open>_\<close>, as paths relative to
  the work directory, sorted), and the two helpers built on it,
  \<open>section_file\<close> and \<open>section_children\<close>. The method reads only
  \<open>self.tmpdir\<close> of its object, which is its \<open>tmpdir\<close> argument here.
  \<open>Path.glob("*.md")\<close> is \<open>md_glob\<close>: the entries of the directory, in
  directory order, whose name matches \<open>*.md\<close> case-sensitively (POSIX
  \<open>fnmatch\<close>); a directory that does not exist yields nothing.
\<close>

datatype path_arg = PStr string | PPath path

definition md_glob :: "fsys \<Rightarrow> path \<Rightarrow> string list" where
  "md_glob fs p = (case fs_listdir fs p of None \<Rightarrow> [] | Some ns \<Rightarrow> filter (endswith ''.md'') ns)"

definition arg_path :: "path \<Rightarrow> path_arg \<Rightarrow> path" where
  "arg_path tmpdir a = (case a of PStr s \<Rightarrow> path_div tmpdir s | PPath q \<Rightarrow> q)"

definition get_children :: "fsys \<Rightarrow> path \<Rightarrow> path_arg \<Rightarrow> string list result" where
  "get_children fs tmpdir path =
     (let p = arg_path tmpdir path in
      sbind (map_res (\<lambda>n. map_sum id path_str (relative_to (p @ [n]) tmpdir))
                     (filter (\<lambda>n. \<not> startswith ''_'' n) (md_glob fs p)))
            (\<lambda>result. Inr (sort result)))"

definition sections_basepath :: string where
  "sections_basepath = ''pulpcore/docs/sections''"

definition section_file :: "string \<Rightarrow> string" where
  "section_file section_and_filename = sections_basepath @ ''/'' @ section_and_filename"

definition section_children :: "fsys \<Rightarrow> path \<Rightarrow> string \<Rightarrow> string list result" where
  "section_children fs tmpdir section_name =
     get_children fs tmpdir (PStr (sections_basepath @ ''/'' @ section_name))"

text \<open>The names \<open>get_children\<close> keeps, in directory order.\<close>

definition visible_md :: "fsys \<Rightarrow> path \<Rightarrow> string list" where
  "visible_md fs p = filter (\<lambda>n. \<not> startswith ''_'' n) (md_glob fs p)"

text \<open>A small work directory \<open>/tmp\<close> used by the examples below: one
  directory in the order \<open>os.scandir\<close> might return it.\<close>

definition discovery_fixture :: fsys where
  "discovery_fixture =
     \<lparr>fs_dirs = [([''/'', ''tmp'', ''core'', ''docs''],
        [''b.md'', ''_draft.md'', ''a.md'', ''notes.txt'', ''c.md'', ''QuickStart.MD''])],
      fs_files = []\<rparr>"

subsection \<open>The markdown files a directory contributes\<close>

lemma visible_md_iff:
  "n \<in> set (visible_md fs p) \<longleftrightarrow>
     (\<exists>ns. fs_listdir fs p = Some ns \<and> n \<in> set ns \<and> endswith ''.md'' n \<and> \<not> startswith ''_'' n)"
  by (cases "fs_listdir fs p") (auto simp: visible_md_def md_glob_def)

lemma visible_md_missing [simp]: "fs_listdir fs p = None \<Longrightarrow> visible_md fs p = []"
  by (simp add: visible_md_def md_glob_def)

lemma fs_wf_listdir:
  "fs_wf fs \<Longrightarrow> fs_listdir fs p = Some ns \<Longrightarrow> distinct ns \<and> (\<forall>n\<in>set ns. entry_name_ok n)"
  unfolding fs_wf_def fs_listdir_def by (auto dest!: map_of_SomeD)

lemma visible_md_names:
  "fs_wf fs \<Longrightarrow> n \<in> set (visible_md fs p) \<Longrightarrow> entry_name_ok n"
  by (auto simp: visible_md_iff dest: fs_wf_listdir)

lemma distinct_visible_md: "fs_wf fs \<Longrightarrow> distinct (visible_md fs p)"
  by (auto simp: visible_md_def md_glob_def dest: fs_wf_listdir split: option.splits)

text \<open>The segments of a relative string path have no separator, so none of
  them is a root part.\<close>

lemma split_char_no_sep: "w \<in> set (split_char c s) \<Longrightarrow> c \<notin> set w"
  by (induction s arbitrary: w) (auto split: if_splits list.splits)

lemma path_parts_relative_no_root:
  "\<not> startswith ''/'' s \<Longrightarrow> c \<in> set (path_parts s) \<Longrightarrow> \<not> is_root_part c"
  by (auto simp: path_parts_no_root is_root_part_def dest: split_char_no_sep)

lemma entry_name_not_root: "entry_name_ok n \<Longrightarrow> \<not> is_root_part n"
  by (auto simp: entry_name_ok_def is_root_part_def)

text \<open>The string of a relative path with a last name appended.\<close>

lemma join_with_snoc:
  "join_with sep (xs @ [n]) = (if xs = [] then n else join_with sep xs @ sep @ n)"
  by (induction sep xs rule: join_with.induct) auto

lemma path_str_snoc:
  "(\<forall>c\<in>set q. \<not> is_root_part c) \<Longrightarrow> \<not> is_root_part n \<Longrightarrow>
   path_str (q @ [n]) = (if q = [] then n else join_with ''/'' q @ ''/'' @ n)"
  using join_with_snoc [of "''/''" q n] by (cases q) (auto simp: path_str_def)

lemma path_str_snoc_inj:
  "(\<forall>c\<in>set q. \<not> is_root_part c) \<Longrightarrow> \<not> is_root_part n \<Longrightarrow> \<not> is_root_part m \<Longrightarrow>
   path_str (q @ [n]) = path_str (q @ [m]) \<longleftrightarrow> n = m"
  by (simp add: path_str_snoc)

lemma get_children_relative:
  assumes wf: "fs_wf fs" and rel: "\<not> startswith ''/'' s"
  shows "get_children fs tmpdir (PStr s) =
           Inr (sort (map (\<lambda>n. path_str (path_parts s @ [n])) (visible_md fs (path_div tmpdir s))))"
proof -
  have p: "path_div tmpdir s = tmpdir @ path_parts s"
    using rel by (rule path_div_relative)
  have "\<forall>n\<in>set (visible_md fs (path_div tmpdir s)).
          map_sum id path_str (relative_to (path_div tmpdir s @ [n]) tmpdir) = Inr (path_str (path_parts s @ [n]))"
  proof
    fix n assume "n \<in> set (visible_md fs (path_div tmpdir s))"
    then have "\<not> is_root_part n" using wf by (blast dest: visible_md_names entry_name_not_root)
    then have "\<forall>c\<in>set (path_parts s @ [n]). \<not> is_root_part c"
      using rel by (auto dest: path_parts_relative_no_root)
    then show "map_sum id path_str (relative_to (path_div tmpdir s @ [n]) tmpdir) = Inr (path_str (path_parts s @ [n]))"
      by (simp add: p)
  qed
  then have "map_res (\<lambda>n. map_sum id path_str (relative_to (path_div tmpdir s @ [n]) tmpdir))
               (visible_md fs (path_div tmpdir s)) =
             Inr (map (\<lambda>n. path_str (path_parts s @ [n])) (visible_md fs (path_div tmpdir s)))"
    by (rule map_res_Inr_conv)
  then show ?thesis
    by (simp add: get_children_def arg_path_def Let_def visible_md_def)
qed

lemma sort_mset_cong: "mset xs = mset ys \<Longrightarrow> sort xs = sort ys"
  by (metis mset_sort properties_for_sort sorted_sort)

lemma get_children_PPath_div: "get_children fs tmp (PPath (path_div tmp s)) = get_children fs tmp (PStr s)"
  by (simp add: get_children_def arg_path_def)

text \<open>C6: For a directory given as a relative string, get_children returns without raising a sorted list without repetitions of exactly the paths of the entries ending in .md and not starting with an underscore.\<close>

theorem get_children_result:
  assumes "fs_wf fs" and "\<not> startswith ''/'' s"
  shows "\<exists>r. get_children fs tmpdir (PStr s) = Inr r \<and> sorted r \<and> distinct r \<and>
           set r = {path_str (path_parts s @ [n]) | n. n \<in> set (visible_md fs (path_div tmpdir s))}"
proof -
  let ?vs = "visible_md fs (path_div tmpdir s)"
  let ?f = "\<lambda>n. path_str (path_parts s @ [n])"
  have noroot: "\<forall>c\<in>set (path_parts s). \<not> is_root_part c"
    using assms(2) by (auto dest: path_parts_relative_no_root)
  have nr: "\<forall>n\<in>set ?vs. \<not> is_root_part n"
    using assms(1) by (blast dest: visible_md_names entry_name_not_root)
  have "inj_on ?f (set ?vs)"
    unfolding inj_on_def using nr noroot by (meson path_str_snoc_inj)
  then have "distinct (map ?f ?vs)"
    using distinct_visible_md [OF assms(1)] by (simp add: distinct_map)
  then show ?thesis
    using get_children_relative [OF assms] by auto
qed

text \<open>C7: The result of get_children depends only on the set of entries of the directory, not on the order in which the operating system lists them.\<close>

theorem get_children_order_independent:
  assumes "fs_wf fs1" "fs_wf fs2" "\<not> startswith ''/'' s"
    and "map_option mset (fs_listdir fs1 (path_div tmpdir s)) = map_option mset (fs_listdir fs2 (path_div tmpdir s))"
  shows "get_children fs1 tmpdir (PStr s) = get_children fs2 tmpdir (PStr s)"
proof -
  have "mset (visible_md fs1 (path_div tmpdir s)) = mset (visible_md fs2 (path_div tmpdir s))"
    using assms(4) by (auto simp: visible_md_def md_glob_def split: option.splits)
  then show ?thesis
    by (simp add: get_children_relative assms sort_mset_cong)
qed

text \<open>C8: A directory that does not exist contributes an empty list and is not an error.\<close>

theorem get_children_missing_dir:
  assumes "fs_listdir fs (arg_path tmpdir a) = None"
  shows "get_children fs tmpdir a = Inr []"
  using assms by (simp add: get_children_def Let_def md_glob_def)

text \<open>The examples of the discovery specification, on the fixture: the files
  come back sorted, \<open>_draft.md\<close> is hidden, \<open>notes.txt\<close> is not markdown,
  and \<open>QuickStart.MD\<close> is not found at all, since the glob \<open>*.md\<close> is
  case-sensitive.\<close>

lemma discovery_fixture_wf: "fs_wf discovery_fixture"
  by (simp add: fs_wf_def discovery_fixture_def entry_name_ok_def)

text \<open>Example: on a listing with a private file, a text file and an upper-case extension, \<open>get_children\<close> keeps only the lower-case \<open>.md\<close> files, sorted.\<close>

lemma discovery_fixture_children:
  "get_children discovery_fixture [''/'', ''tmp''] (PStr ''core/docs'') =
     Inr [''core/docs/a.md'', ''core/docs/b.md'', ''core/docs/c.md'']"
  by (simp add: discovery_fixture_def get_children_def arg_path_def path_div_def path_parts_def
      path_root_def md_glob_def fs_listdir_def relative_to_def is_absolute_def is_root_part_def
      path_str_def endswith_def)

lemma get_children_result_witness:
  "fs_wf discovery_fixture \<and> \<not> startswith ''/'' ''core/docs'' \<and>
   (\<exists>r. get_children discovery_fixture [''/'', ''tmp''] (PStr ''core/docs'') = Inr r \<and> sorted r)"
  using get_children_result [OF discovery_fixture_wf, of "''core/docs''" "[''/'', ''tmp'']"]
    discovery_fixture_wf by auto

lemma get_children_order_independent_witness:
  "get_children discovery_fixture [''/'', ''tmp''] (PStr ''core/docs'') =
   get_children (discovery_fixture\<lparr>fs_dirs := [([''/'', ''tmp'', ''core'', ''docs''],
        [''a.md'', ''c.md'', ''QuickStart.MD'', ''b.md'', ''_draft.md'', ''notes.txt''])]\<rparr>)
     [''/'', ''tmp''] (PStr ''core/docs'')"
  by (rule get_children_order_independent)
    (simp_all add: discovery_fixture_def fs_wf_def entry_name_ok_def fs_listdir_def path_div_def
      path_parts_def path_root_def)

lemma get_children_missing_dir_witness:
  "get_children discovery_fixture [''/'', ''tmp''] (PStr ''core/docs/guides'') = Inr []"
  by (rule get_children_missing_dir)
    (simp add: discovery_fixture_def fs_listdir_def arg_path_def path_div_def path_parts_def path_root_def)

end
