(* ===== verification/Format.thy ===== *)
theory Format
  imports Prelude
begin

text \<open>
  PathTemplateExpander: the navigation code expands its path templates with
  Python's \<open>str.format\<close> (\<open>template_str.format(repo=..., admin=..., user=...,
  content=...)\<close> in \<open>AgregationUtils.repo_grouping\<close> and
  \<open>repo_reference_grouping\<close>, and \<open>RESTAPI_TEMPLATE.format(self.name)\<close> in
  \<open>Repo.rest_api_link\<close>). \<open>py_format\<close> follows CPython's \<open>MarkupIterator\<close>
  character by character: literal text, the escapes \<open>{{\<close> and \<open>}}\<close>,
  a single \<open>}\<close> or a trailing \<open>{\<close> (ValueError), a replacement field up to
  its matching \<open>}\<close> (ValueError when there is none); the field is split as
  \<open>parse_field\<close> does into name, conversion and format spec, and its value is
  fetched as \<open>get_field_object\<close> does: an empty name takes the next automatic
  index, a name of digits is a manual index, mixing the two is a ValueError,
  a missing positional argument an IndexError and a missing keyword a KeyError.
  The values are strings, so the conversion \<open>!s\<close> and an empty spec leave
  them unchanged; attribute or index access, \<open>!r\<close>, \<open>!a\<close> and non-empty
  specs (padding, nested fields) compute Python text this model does not
  describe and yield \<open>Unmodelled\<close>. The templates of the sources use plain
  keyword fields only.
\<close>

datatype autonum = AutoInit | AutoAuto nat | AutoManual

datatype fmode = Lit | Field nat string

definition is_digit :: "char \<Rightarrow> bool" where
  "is_digit c \<longleftrightarrow> CHR ''0'' \<le> c \<and> c \<le> CHR ''9''"

definition digits_value :: "string \<Rightarrow> nat" where
  "digits_value s = foldl (\<lambda>n c. 10 * n + (of_char c - 48)) 0 s"

text \<open>\<open>parse_field\<close>: the field name ends at the first \<open>:\<close> or \<open>!\<close> outside
  square brackets; a \<open>{\<close> in it is a ValueError. The flag is true inside
  brackets.\<close>

fun scan_name :: "bool \<Rightarrow> string \<Rightarrow> string \<Rightarrow> (string \<times> (char \<times> string) option) result" where
  "scan_name b acc [] = Inr (rev acc, None)"
| "scan_name b acc (c # cs) =
     (if b then scan_name (c \<noteq> CHR '']'') (c # acc) cs
      else if c = CHR ''{'' then Inl (ValueError ''unexpected '{' in field name'')
      else if c = CHR ''['' then scan_name True (c # acc) cs
      else if c = CHR '':'' \<or> c = CHR ''!'' then Inr (rev acc, Some (c, cs))
      else scan_name False (c # acc) cs)"

definition parse_field :: "string \<Rightarrow> (string \<times> char option \<times> string) result" where
  "parse_field s =
     sbind (scan_name False [] s) (\<lambda>(fname, term).
       (case term of
          None \<Rightarrow> Inr (fname, None, [])
        | Some (t, rest) \<Rightarrow>
            (if t = CHR '':'' then Inr (fname, None, rest)
             else (case rest of
                     [] \<Rightarrow> Inl (ValueError ''end of string while looking for conversion specifier'')
                   | cv # more \<Rightarrow>
                       (case more of
                          [] \<Rightarrow> Inr (fname, Some cv, [])
                        | d # spec \<Rightarrow>
                            (if d = CHR '':'' then Inr (fname, Some cv, spec)
                             else Inl (ValueError ''expected ':' after conversion specifier'')))))))"

text \<open>\<open>get_field_object\<close>: the first part of the name selects the argument,
  the auto-numbering state is threaded from field to field.\<close>

definition get_field_object ::
  "autonum \<Rightarrow> string list \<Rightarrow> (string \<times> string) list \<Rightarrow> string \<Rightarrow> (string \<times> autonum) result" where
  "get_field_object an args kwargs fname =
     (let first = takeWhile (\<lambda>c. c \<noteq> CHR ''.'' \<and> c \<noteq> CHR ''['') fname;
          rest = dropWhile (\<lambda>c. c \<noteq> CHR ''.'' \<and> c \<noteq> CHR ''['') fname;
          picked =
            (if first = [] then
               (case an of
                  AutoManual \<Rightarrow> Inl (ValueError
                    ''cannot switch from manual field specification to automatic field numbering'')
                | AutoInit \<Rightarrow> Inr (Some 0, AutoAuto 1)
                | AutoAuto k \<Rightarrow> Inr (Some k, AutoAuto (Suc k)))
             else if list_all is_digit first then
               (case an of
                  AutoAuto k \<Rightarrow> Inl (ValueError
                    ''cannot switch from automatic field numbering to manual field specification'')
                | _ \<Rightarrow> Inr (Some (digits_value first), AutoManual))
             else Inr (None, an))
      in sbind picked (\<lambda>(idx, an').
           sbind (case idx of
                    Some i \<Rightarrow> (if i < length args then Inr (args ! i)
                               else Inl (IndexError ''Replacement index out of range for positional args tuple''))
                  | None \<Rightarrow> (case map_of kwargs first of
                               None \<Rightarrow> Inl (KeyError first)
                             | Some v \<Rightarrow> Inr v))
             (\<lambda>v. if rest = [] then Inr (v, an')
                  else Inl (Unmodelled ''attribute or index access in a replacement field''))))"

definition apply_conversion :: "char option \<Rightarrow> string \<Rightarrow> string result" where
  "apply_conversion conv v =
     (case conv of
        None \<Rightarrow> Inr v
      | Some c \<Rightarrow>
          (if c = CHR ''s'' then Inr v
           else if c = CHR ''r'' \<or> c = CHR ''a'' then Inl (Unmodelled ''repr conversion'')
           else Inl (ValueError ''Unknown conversion specifier'')))"

definition format_value :: "string \<Rightarrow> string \<Rightarrow> string result" where
  "format_value spec v = (if spec = [] then Inr v else Inl (Unmodelled ''format specification''))"

definition render_field ::
  "autonum \<Rightarrow> string list \<Rightarrow> (string \<times> string) list \<Rightarrow> string \<Rightarrow> (string \<times> autonum) result" where
  "render_field an args kwargs text =
     sbind (parse_field text) (\<lambda>(fname, conv, spec).
       sbind (get_field_object an args kwargs fname) (\<lambda>(v, an').
         sbind (apply_conversion conv v) (\<lambda>v'.
           sbind (format_value spec v') (\<lambda>r. Inr (r, an')))))"

definition prepend :: "string \<Rightarrow> string result \<Rightarrow> string result" where
  "prepend v r = sbind r (\<lambda>s. Inr (v @ s))"

text \<open>The scan: in literal mode, or inside a field at brace depth \<open>n\<close>
  with the field text read so far (reversed).\<close>

fun fmt_go :: "fmode \<Rightarrow> autonum \<Rightarrow> string list \<Rightarrow> (string \<times> string) list \<Rightarrow> string \<Rightarrow> string result" where
  "fmt_go Lit an args kwargs [] = Inr []"
| "fmt_go (Field n acc) an args kwargs [] = Inl (ValueError ''expected '}' before end of string'')"
| "fmt_go Lit an args kwargs (c # cs) =
     (if c = CHR ''{'' then
        (case cs of
           [] \<Rightarrow> Inl (ValueError ''Single '{' encountered in format string'')
         | d # ds \<Rightarrow> (if d = CHR ''{'' then prepend [c] (fmt_go Lit an args kwargs ds)
                     else fmt_go (Field 1 []) an args kwargs cs))
      else if c = CHR ''}'' then
        (case cs of
           [] \<Rightarrow> Inl (ValueError ''Single '}' encountered in format string'')
         | d # ds \<Rightarrow> (if d = CHR ''}'' then prepend [c] (fmt_go Lit an args kwargs ds)
                     else Inl (ValueError ''Single '}' encountered in format string'')))
      else prepend [c] (fmt_go Lit an args kwargs cs))"
| "fmt_go (Field n acc) an args kwargs (c # cs) =
     (if c = CHR ''{'' then fmt_go (Field (Suc n) (c # acc)) an args kwargs cs
      else if c = CHR ''}'' then
        (if n \<le> 1 then
           sbind (render_field an args kwargs (rev acc)) (\<lambda>(v, an').
             prepend v (fmt_go Lit an' args kwargs cs))
         else fmt_go (Field (n - 1) (c # acc)) an args kwargs cs)
      else fmt_go (Field n (c # acc)) an args kwargs cs)"

definition py_format :: "string \<Rightarrow> string list \<Rightarrow> (string \<times> string) list \<Rightarrow> string result" where
  "py_format template args kwargs = fmt_go Lit AutoInit args kwargs template"

subsection \<open>Templates as literal text and named fields\<close>

text \<open>The abstract view of a path template: literal characters and named
  placeholders. \<open>render_tpl\<close> writes it in \<open>str.format\<close> syntax (braces in
  literal text doubled), \<open>subst_tpl\<close> is what expanding it should give.\<close>

datatype tpart = TLit char | TVar string

fun render_tpl :: "tpart list \<Rightarrow> string" where
  "render_tpl [] = []"
| "render_tpl (TLit c # ps) =
     (if c = CHR ''{'' \<or> c = CHR ''}'' then [c, c] else [c]) @ render_tpl ps"
| "render_tpl (TVar n # ps) = CHR ''{'' # n @ CHR ''}'' # render_tpl ps"

fun subst_tpl :: "(string \<Rightarrow> string) \<Rightarrow> tpart list \<Rightarrow> string" where
  "subst_tpl \<sigma> [] = []"
| "subst_tpl \<sigma> (TLit c # ps) = c # subst_tpl \<sigma> ps"
| "subst_tpl \<sigma> (TVar n # ps) = \<sigma> n @ subst_tpl \<sigma> ps"

fun tpl_vars :: "tpart list \<Rightarrow> string list" where
  "tpl_vars [] = []"
| "tpl_vars (TLit c # ps) = tpl_vars ps"
| "tpl_vars (TVar n # ps) = n # tpl_vars ps"

definition ident_name :: "string \<Rightarrow> bool" where
  "ident_name n \<longleftrightarrow> n \<noteq> [] \<and> \<not> list_all is_digit n \<and> list_all (\<lambda>c. c \<notin> set ''{}[].:!'') n"

subsection \<open>Expansion lemmas\<close>

lemma fmt_go_field_plain:
  "list_all (\<lambda>c. c \<noteq> CHR ''{'' \<and> c \<noteq> CHR ''}'') n \<Longrightarrow>
   fmt_go (Field k acc) an args kwargs (n @ rest) = fmt_go (Field k (rev n @ acc)) an args kwargs rest"
  by (induction n arbitrary: acc) auto

lemma scan_name_plain:
  "list_all (\<lambda>c. c \<notin> set ''{[:!'') n \<Longrightarrow> scan_name False acc n = Inr (rev acc @ n, None)"
  by (induction n arbitrary: acc) auto

lemma parse_field_ident: "ident_name n \<Longrightarrow> parse_field n = Inr (n, None, [])"
  using scan_name_plain [of n "[]"]
  by (simp add: parse_field_def ident_name_def list_all_iff)

lemma get_field_object_ident:
  assumes "ident_name n"
  shows "get_field_object an args kwargs n =
           (case map_of kwargs n of None \<Rightarrow> Inl (KeyError n) | Some v \<Rightarrow> Inr (v, an))"
proof -
  have tw: "takeWhile (\<lambda>c. c \<noteq> CHR ''.'' \<and> c \<noteq> CHR ''['') n = n"
    and dw: "dropWhile (\<lambda>c. c \<noteq> CHR ''.'' \<and> c \<noteq> CHR ''['') n = []"
    using assms by (auto simp: ident_name_def list_all_iff takeWhile_eq_all_conv dropWhile_eq_Nil_conv)
  show ?thesis
    using assms unfolding get_field_object_def Let_def tw dw
    by (simp add: ident_name_def split: option.splits)
qed

lemma render_field_ident:
  "ident_name n \<Longrightarrow> render_field an args kwargs n =
     (case map_of kwargs n of None \<Rightarrow> Inl (KeyError n) | Some v \<Rightarrow> Inr (v, an))"
  by (simp add: render_field_def parse_field_ident get_field_object_ident apply_conversion_def
      format_value_def split: option.splits)

lemma fmt_go_var:
  assumes "ident_name n"
  shows "fmt_go Lit an args kwargs (CHR ''{'' # n @ CHR ''}'' # rest) =
           sbind (render_field an args kwargs n) (\<lambda>(v, an'). prepend v (fmt_go Lit an' args kwargs rest))"
proof -
  obtain d ds where nd: "n = d # ds" and "d \<noteq> CHR ''{''"
    using assms by (cases n) (auto simp: ident_name_def)
  moreover have "list_all (\<lambda>c. c \<noteq> CHR ''{'' \<and> c \<noteq> CHR ''}'') n"
    using assms by (auto simp: ident_name_def list_all_iff)
  ultimately show ?thesis
    using fmt_go_field_plain [of n 1 "[]" an args kwargs "CHR ''}'' # rest"] by simp
qed

text \<open>Formatting the rendered template with keyword arguments that bind every
  placeholder (named by an identifier) gives the substitution of the abstract
  template.\<close>

lemma py_format_render_tpl:
  assumes "\<forall>n\<in>set (tpl_vars ps). ident_name n \<and> map_of kwargs n = Some (\<sigma> n)"
  shows "py_format (render_tpl ps) args kwargs = Inr (subst_tpl \<sigma> ps)"
proof -
  have "fmt_go Lit an args kwargs (render_tpl ps) = Inr (subst_tpl \<sigma> ps)" for an
    using assms
  proof (induction ps arbitrary: an rule: render_tpl.induct)
    case 1
    then show ?case by simp
  next
    case (2 c ps)
    then show ?case by (auto simp: prepend_def)
  next
    case (3 n ps)
    then have n: "ident_name n" "map_of kwargs n = Some (\<sigma> n)" by auto
    have "fmt_go Lit an args kwargs (render_tpl (TVar n # ps)) =
        sbind (render_field an args kwargs n) (\<lambda>(v, an'). prepend v (fmt_go Lit an' args kwargs (render_tpl ps)))"
      unfolding render_tpl.simps by (rule fmt_go_var [OF n(1)])
    with 3 n show ?case by (simp add: render_field_ident prepend_def)
  qed
  then show ?thesis by (simp add: py_format_def)
qed

text \<open>A placeholder without a keyword argument raises KeyError naming it.\<close>

lemma py_format_unbound:
  assumes "ident_name n" and "map_of kwargs n = None"
  shows "py_format (render_tpl (TVar n # ps)) args kwargs = Inl (KeyError n)"
  using assms unfolding py_format_def render_tpl.simps fmt_go_var [OF assms(1)]
  by (simp add: render_field_ident)

lemma py_format_example_user_guides:
  "py_format ''{repo}/docs/{user}/guides'' [] [(''repo'', ''core''), (''admin'', ''admin''), (''user'', ''user'')] =
   Inr ''core/docs/user/guides''"
proof -
  let ?ps = "[TVar ''repo'', TLit CHR ''/'', TLit CHR ''d'', TLit CHR ''o'', TLit CHR ''c'', TLit CHR ''s'',
     TLit CHR ''/'', TVar ''user'', TLit CHR ''/'', TLit CHR ''g'', TLit CHR ''u'', TLit CHR ''i'',
     TLit CHR ''d'', TLit CHR ''e'', TLit CHR ''s'']"
  let ?kw = "[(''repo'', ''core''), (''admin'', ''admin''), (''user'', ''user'')]"
  have "\<forall>n\<in>set (tpl_vars ?ps). ident_name n \<and> map_of ?kw n = Some (the (map_of ?kw n))"
    by (simp add: ident_name_def is_digit_def)
  from py_format_render_tpl [OF this, of "[]"] show ?thesis by simp
qed

lemma py_format_example_missing_content:
  "py_format ''{content}'' [] [(''repo'', ''core'')] = Inl (KeyError ''content'')"
proof -
  have "ident_name ''content''" "map_of [(''repo'', ''core'')] ''content'' = None"
    by (simp_all add: ident_name_def is_digit_def)
  from py_format_unbound [OF this, of "[]" "[]"] show ?thesis by simp
qed

lemma render_tpl_lits:
  "list_all (\<lambda>c. c \<noteq> CHR ''{'' \<and> c \<noteq> CHR ''}'') s \<Longrightarrow> render_tpl (map TLit s @ ps) = s @ render_tpl ps"
  by (induction s) auto

lemma subst_tpl_lits: "subst_tpl \<sigma> (map TLit s @ ps) = s @ subst_tpl \<sigma> ps"
  by (induction s) auto

lemma tpl_vars_lits: "tpl_vars (map TLit s @ ps) = tpl_vars ps"
  by (induction s) auto

end
