(* ===== verification/Repository.thy ===== *)
theory Repository
  imports Paths Format
begin

text \<open>
  RepositorySet: the data classes of \<open>src/pulp_docs/repository.py\<close>.
  \<open>RepoStatus\<close>, \<open>Repo\<close> and \<open>Repos\<close> are records with the source's fields
  (\<open>Repo.type\<close> is \<open>repo_type\<close>, since \<open>type\<close> is reserved); a repository
  built with only a title and a name takes the dataclass defaults
  (\<open>mk_repo\<close>), each with a fresh status (\<open>default_factory\<close>). \<open>Repos.all\<close> is
  \<open>repos_all\<close>, \<open>Repo.rest_api_link\<close> is \<open>rest_api_link\<close>, the fixture
  factory \<open>Repos.test_fixtures\<close> is \<open>test_fixtures\<close> (its
  \<open>FIXTURE_WORKDIR\<close> is the absolute \<open>tests/fixtures\<close> under the current
  directory \<open>cwd\<close>). \<open>Repos.update_local_checkouts\<close> mutates the repositories
  it visits in place; the model returns the updated \<open>Repos\<close> together with the
  exception that stopped the loop, if any, so that the changes made before
  the exception are kept, as they are in the Python objects.
\<close>

record repo_status =
  download_source :: "string option"
  use_local_checkout :: bool
  has_readme :: bool
  has_changelog :: bool
  has_staging_docs :: bool
  using_cache :: bool
  original_refs :: "string option"

record repo =
  title :: string
  name :: string
  owner :: string
  branch :: string
  local_basepath :: "path option"
  status :: repo_status
  repo_type :: "string option"

record repos =
  core_repo :: repo
  content_repos :: "repo list"
  other_repos :: "repo list"

definition default_status :: repo_status where
  "default_status =
     \<lparr>download_source = None, use_local_checkout = False, has_readme = True,
      has_changelog = True, has_staging_docs = True, using_cache = False, original_refs = None\<rparr>"

definition mk_repo :: "string \<Rightarrow> string \<Rightarrow> path option \<Rightarrow> string option \<Rightarrow> repo" where
  "mk_repo t n basepath ty =
     \<lparr>title = t, name = n, owner = ''pulp'', branch = ''main'', local_basepath = basepath,
      status = default_status, repo_type = ty\<rparr>"

definition RESTAPI_TEMPLATE :: string where
  "RESTAPI_TEMPLATE = ''https://docs.pulpproject.org/{}/restapi.html''"

definition rest_api_link :: "repo \<Rightarrow> string result" where
  "rest_api_link r = py_format RESTAPI_TEMPLATE [name r] []"

definition repos_all :: "repos \<Rightarrow> repo list" where
  "repos_all rs = [core_repo rs] @ content_repos rs @ other_repos rs"

definition fixture_workdir :: "path \<Rightarrow> path" where
  "fixture_workdir cwd = path_div cwd ''tests/fixtures''"

definition test_fixtures :: "path \<Rightarrow> repos" where
  "test_fixtures cwd =
     \<lparr>core_repo = mk_repo ''Pulp Core'' ''core'' None (Some ''core''),
      content_repos =
        [mk_repo ''Rpm Packages'' ''new_repo1'' (Some (fixture_workdir cwd)) (Some ''content''),
         mk_repo ''Debian Packages'' ''new_repo2'' (Some (fixture_workdir cwd)) (Some ''content''),
         mk_repo ''Maven'' ''new_repo3'' (Some (fixture_workdir cwd)) (Some ''content'')],
      other_repos = []\<rparr>"

text \<open>A repository name that keeps the expanded templates relative to the work
  directory: \<open>tmpdir / "<name>/docs/..."\<close> stays below \<open>tmpdir\<close> unless the
  name is empty or starts with a slash, which makes the path absolute.\<close>

definition repo_name_ok :: "string \<Rightarrow> bool" where
  "repo_name_ok n \<longleftrightarrow> n \<noteq> [] \<and> hd n \<noteq> CHR ''/''"

subsection \<open>Local checkouts\<close>

text \<open>\<open>Path.read_text()\<close>\<close>

definition read_text :: "fsys \<Rightarrow> path \<Rightarrow> string result" where
  "read_text fs p =
     (case map_of (fs_files fs) p of
        Some txt \<Rightarrow> Inr txt
      | None \<Rightarrow> (if map_of (fs_dirs fs) p \<noteq> None then Inl (IsADirectoryError (path_str p))
                 else Inl (FileNotFoundError (path_str p))))"

text \<open>One iteration of the loop of \<open>update_local_checkouts\<close>, for a repository
  and the parent \<open>parent\<close> of the current directory: the status flag and the
  base path are set before \<open>.git/HEAD\<close> is read, so a failed read leaves
  them set.\<close>

definition checkout_update :: "fsys \<Rightarrow> path \<Rightarrow> repo \<Rightarrow> repo \<times> py_error option" where
  "checkout_update fs parent r =
     (let checkout_dir = path_div parent (name r) in
      if local_basepath r = None \<and> fs_exists fs checkout_dir then
        (let r1 = r\<lparr>status := (status r)\<lparr>use_local_checkout := True\<rparr>, local_basepath := Some parent\<rparr>
         in case read_text fs (path_div (path_div checkout_dir ''.git'') ''HEAD'') of
              Inl e \<Rightarrow> (r1, Some e)
            | Inr txt \<Rightarrow>
                (let checkout_refs = filter (\<lambda>c. c \<noteq> CHR 0x0A) (drop (length ''ref: '') txt)
                 in (r1\<lparr>status := (status r1)\<lparr>original_refs := Some (branch r1)\<rparr>,
                        branch := checkout_refs\<rparr>, None)))
      else (r, None))"

fun checkout_loop :: "fsys \<Rightarrow> path \<Rightarrow> repo list \<Rightarrow> repo list \<times> py_error option" where
  "checkout_loop fs parent [] = ([], None)"
| "checkout_loop fs parent (r # rs) =
     (case checkout_update fs parent r of
        (r', Some e) \<Rightarrow> (r' # rs, Some e)
      | (r', None) \<Rightarrow> (let (rs', e) = checkout_loop fs parent rs in (r' # rs', e)))"

text \<open>The loop runs over \<open>self.all\<close>, a fresh list holding the same objects as
  the three fields; the updated objects are put back in their fields.\<close>

definition update_local_checkouts :: "fsys \<Rightarrow> path \<Rightarrow> repos \<Rightarrow> repos \<times> py_error option" where
  "update_local_checkouts fs parent rs =
     (let (xs, e) = checkout_loop fs parent (repos_all rs);
          n = length (content_repos rs)
      in (rs\<lparr>core_repo := hd xs, content_repos := take n (tl xs), other_repos := drop n (tl xs)\<rparr>, e))"

text \<open>A repository the checkout loop has nothing left to do for.\<close>

definition checked_out :: "fsys \<Rightarrow> path \<Rightarrow> repo \<Rightarrow> bool" where
  "checked_out fs parent r \<longleftrightarrow> local_basepath r \<noteq> None \<or> \<not> fs_exists fs (path_div parent (name r))"

text \<open>The fields of a repository that \<open>update_local_checkouts\<close> may not
  touch: everything but the status, the base path and the branch.\<close>

abbreviation repo_identity :: "repo \<Rightarrow> repo" where
  "repo_identity x \<equiv> x\<lparr>status := default_status, local_basepath := None, branch := []\<rparr>"

text \<open>Work directories for the examples: a checkout of \<open>core\<close> next to the
  current directory with a given \<open>.git/HEAD\<close>, and one without it.\<close>

definition checkout_fixture :: "string \<Rightarrow> fsys" where
  "checkout_fixture head =
     \<lparr>fs_dirs = [([''/'', ''src'', ''core''], [''.git'']), ([''/'', ''src'', ''core'', ''.git''], [''HEAD''])],
      fs_files = [([''/'', ''src'', ''core'', ''.git'', ''HEAD''], head)]\<rparr>"

definition broken_checkout_fixture :: fsys where
  "broken_checkout_fixture = \<lparr>fs_dirs = [([''/'', ''src'', ''core''], [])], fs_files = []\<rparr>"

subsection \<open>Lemmas\<close>

lemma startswith_slash_append:
  "repo_name_ok n \<Longrightarrow> \<not> startswith ''/'' (n @ s)"
  by (cases n) (auto simp: repo_name_ok_def)

text \<open>\<open>Repo.rest_api_link\<close> never raises: the template has one positional field.\<close>

theorem rest_api_link_value:
  "rest_api_link r = Inr (''https://docs.pulpproject.org/'' @ name r @ ''/restapi.html'')"
  by (simp add: rest_api_link_def RESTAPI_TEMPLATE_def py_format_def render_field_def parse_field_def
      get_field_object_def apply_conversion_def format_value_def prepend_def)

lemma checkout_update_frame:
  "checkout_update fs parent r = (r', e) \<Longrightarrow>
     title r' = title r \<and> name r' = name r \<and> owner r' = owner r \<and> repo_type r' = repo_type r"
  by (auto simp: checkout_update_def Let_def split: if_splits sum.splits)

lemma checkout_loop_length: "length (fst (checkout_loop fs parent rs)) = length rs"
  by (induction rs) (auto split: prod.splits option.splits)

lemma checkout_update_identity:
  "checkout_update fs parent r = (r', e) \<Longrightarrow> repo_identity r' = repo_identity r"
  by (auto simp: checkout_update_def Let_def split: if_splits sum.splits)

lemma checkout_loop_frame:
  "checkout_loop fs parent rs = (rs', e) \<Longrightarrow> map repo_identity rs' = map repo_identity rs"
proof (induction rs arbitrary: rs' e)
  case Nil
  then show ?case by simp
next
  case (Cons r rs)
  obtain r1 e1 where u: "checkout_update fs parent r = (r1, e1)" by fastforce
  show ?case
  proof (cases e1)
    case (Some x)
    with Cons.prems u checkout_update_identity [OF u] show ?thesis by auto
  next
    case None
    obtain rs1 e2 where l: "checkout_loop fs parent rs = (rs1, e2)" by fastforce
    with Cons.prems u None Cons.IH [OF l] checkout_update_identity [OF u] show ?thesis by auto
  qed
qed

lemma repos_all_update:
  "repos_all (fst (update_local_checkouts fs parent rs)) = fst (checkout_loop fs parent (repos_all rs))"
proof -
  obtain xs e where l: "checkout_loop fs parent (repos_all rs) = (xs, e)" by fastforce
  have "length xs = Suc (length (content_repos rs) + length (other_repos rs))"
    using checkout_loop_length [of fs parent "repos_all rs"] l by (simp add: repos_all_def)
  then obtain y ys where xs: "xs = y # ys" by (cases xs) auto
  have "fst (update_local_checkouts fs parent rs) =
          rs\<lparr>core_repo := y, content_repos := take (length (content_repos rs)) ys,
             other_repos := drop (length (content_repos rs)) ys\<rparr>"
    by (simp add: update_local_checkouts_def Let_def l xs)
  then show ?thesis using xs l by (simp add: repos_all_def del: checkout_loop.simps)
qed

text \<open>C18: update_local_checkouts keeps the repositories and their order and the sizes of the content and other lists, and changes no field of a repository but its status, base path and branch: title, name, owner and type are kept.\<close>

theorem update_local_checkouts_frame:
  assumes "update_local_checkouts fs parent rs = (rs', e)"
  shows "map repo_identity (repos_all rs') = map repo_identity (repos_all rs) \<and>
         length (content_repos rs') = length (content_repos rs) \<and>
         length (other_repos rs') = length (other_repos rs)"
proof -
  obtain xs e' where l: "checkout_loop fs parent (repos_all rs) = (xs, e')" by fastforce
  have all: "repos_all rs' = xs"
    using repos_all_update [of fs parent rs] assms l by simp
  have len: "length xs = Suc (length (content_repos rs) + length (other_repos rs))"
    using checkout_loop_length [of fs parent "repos_all rs"] l by (simp add: repos_all_def)
  have "rs' = rs\<lparr>core_repo := hd xs, content_repos := take (length (content_repos rs)) (tl xs),
                  other_repos := drop (length (content_repos rs)) (tl xs)\<rparr>"
    using assms l by (simp add: update_local_checkouts_def Let_def)
  then have "length (content_repos rs') = length (content_repos rs) \<and>
             length (other_repos rs') = length (other_repos rs)"
    using len by simp
  with all checkout_loop_frame [OF l] show ?thesis by simp
qed

lemma checkout_update_settles:
  "checkout_update fs parent r = (r', None) \<Longrightarrow> checked_out fs parent r'"
  by (auto simp: checkout_update_def checked_out_def Let_def split: if_splits sum.splits)

lemma checkout_update_settled:
  "checked_out fs parent r \<Longrightarrow> checkout_update fs parent r = (r, None)"
  by (auto simp: checkout_update_def checked_out_def)

lemma checkout_loop_settles:
  "checkout_loop fs parent rs = (rs', None) \<Longrightarrow> \<forall>r\<in>set rs'. checked_out fs parent r"
proof (induction rs arbitrary: rs')
  case Nil
  then show ?case by simp
next
  case (Cons r rs)
  obtain r1 e1 where u: "checkout_update fs parent r = (r1, e1)" by fastforce
  obtain rs1 e2 where l: "checkout_loop fs parent rs = (rs1, e2)" by fastforce
  from Cons.prems u l have "e1 = None" "e2 = None" "rs' = r1 # rs1"
    by (auto split: option.splits)
  with u l Cons.IH show ?case by (auto dest: checkout_update_settles)
qed

lemma checkout_loop_settled:
  "\<forall>r\<in>set rs. checked_out fs parent r \<Longrightarrow> checkout_loop fs parent rs = (rs, None)"
  by (induction rs) (auto simp: checkout_update_settled)

text \<open>C17: Once update_local_checkouts has run over a file system without raising, running it again on the result changes nothing: every repository either has a local base path or has no checkout next to the work directory.\<close>

theorem update_local_checkouts_idempotent:
  assumes "update_local_checkouts fs parent rs = (rs', None)"
  shows "update_local_checkouts fs parent rs' = (rs', None)"
proof -
  obtain xs where l: "checkout_loop fs parent (repos_all rs) = (xs, None)"
    using assms by (auto simp: update_local_checkouts_def Let_def split: prod.splits)
  have "repos_all rs' = xs"
    using repos_all_update [of fs parent rs] assms l by simp
  then have "checkout_loop fs parent (repos_all rs') = (repos_all rs', None)"
    using checkout_loop_settles [OF l] by (simp add: checkout_loop_settled)
  then show ?thesis
    by (simp add: update_local_checkouts_def Let_def repos_all_def)
qed

text \<open>C20: For a repository without a base path whose checkout exists next to the work directory, the loop body records the old branch as original_refs and sets the branch to the HEAD file content without its first five characters and without newlines, whatever that content is.\<close>

theorem checkout_update_reads_head:
  assumes "local_basepath r = None" and "fs_exists fs (path_div parent (name r))"
    and "read_text fs (path_div (path_div (path_div parent (name r)) ''.git'') ''HEAD'') = Inr txt"
  shows "checkout_update fs parent r =
           (r\<lparr>status := (status r)\<lparr>use_local_checkout := True, original_refs := Some (branch r)\<rparr>,
              local_basepath := Some parent,
              branch := filter (\<lambda>c. c \<noteq> CHR 0x0A) (drop (length ''ref: '') txt)\<rparr>, None)"
  using assms by (simp add: checkout_update_def Let_def)

text \<open>C19: When reading .git/HEAD of the primary repository raises, the error propagates, but the primary repository has already been switched to the local checkout with the parent directory as its base path and its branch unchanged.\<close>

theorem update_local_checkouts_error_keeps_partial:
  assumes "local_basepath (core_repo rs) = None"
    and "fs_exists fs (path_div parent (name (core_repo rs)))"
    and "read_text fs (path_div (path_div (path_div parent (name (core_repo rs))) ''.git'') ''HEAD'') = Inl err"
  shows "update_local_checkouts fs parent rs =
           (rs\<lparr>core_repo := (core_repo rs)\<lparr>status := (status (core_repo rs))\<lparr>use_local_checkout := True\<rparr>,
                                            local_basepath := Some parent\<rparr>\<rparr>, Some err)"
  using assms by (simp add: update_local_checkouts_def repos_all_def checkout_update_def Let_def)

theorem checkout_update_reads_head_witness:
  "checkout_update (checkout_fixture ''0123456789abcdef\<newline>'') [''/'', ''src''] (core_repo (test_fixtures [''/'', ''w''])) =
     (core_repo (test_fixtures [''/'', ''w''])\<lparr>status := default_status\<lparr>use_local_checkout := True, original_refs := Some ''main''\<rparr>,
        local_basepath := Some [''/'', ''src''], branch := ''56789abcdef''\<rparr>, None)"
proof -
  let ?fs = "checkout_fixture ''0123456789abcdef\<newline>''"
  let ?r = "core_repo (test_fixtures [''/'', ''w''])"
  have "local_basepath ?r = None" "fs_exists ?fs (path_div [''/'', ''src''] (name ?r))"
    "read_text ?fs (path_div (path_div (path_div [''/'', ''src''] (name ?r)) ''.git'') ''HEAD'') = Inr ''0123456789abcdef\<newline>''"
    by code_simp+
  from checkout_update_reads_head [OF this] show ?thesis
    by (simp add: test_fixtures_def mk_repo_def)
qed

theorem update_local_checkouts_frame_witness:
  "map repo_identity (repos_all (fst (update_local_checkouts (checkout_fixture ''ref: refs/heads/main\<newline>'')
       [''/'', ''src''] (test_fixtures [''/'', ''w''])))) =
   map repo_identity (repos_all (test_fixtures [''/'', ''w'']))"
  using update_local_checkouts_frame [of "checkout_fixture ''ref: refs/heads/main\<newline>''" "[''/'', ''src'']"
      "test_fixtures [''/'', ''w'']"
      "fst (update_local_checkouts (checkout_fixture ''ref: refs/heads/main\<newline>'') [''/'', ''src''] (test_fixtures [''/'', ''w'']))"
      "snd (update_local_checkouts (checkout_fixture ''ref: refs/heads/main\<newline>'') [''/'', ''src''] (test_fixtures [''/'', ''w'']))"]
  by simp

theorem update_local_checkouts_idempotent_witness:
  "update_local_checkouts (checkout_fixture ''ref: refs/heads/main\<newline>'') [''/'', ''src'']
     (fst (update_local_checkouts (checkout_fixture ''ref: refs/heads/main\<newline>'') [''/'', ''src''] (test_fixtures [''/'', ''w'']))) =
   (fst (update_local_checkouts (checkout_fixture ''ref: refs/heads/main\<newline>'') [''/'', ''src''] (test_fixtures [''/'', ''w''])), None)"
proof -
  have "update_local_checkouts (checkout_fixture ''ref: refs/heads/main\<newline>'') [''/'', ''src''] (test_fixtures [''/'', ''w'']) =
        (fst (update_local_checkouts (checkout_fixture ''ref: refs/heads/main\<newline>'') [''/'', ''src''] (test_fixtures [''/'', ''w''])), None)"
    by code_simp
  then show ?thesis by (rule update_local_checkouts_idempotent)
qed

theorem update_local_checkouts_error_keeps_partial_witness:
  "snd (update_local_checkouts broken_checkout_fixture [''/'', ''src''] (test_fixtures [''/'', ''w''])) =
     Some (FileNotFoundError ''/src/core/.git/HEAD'') \<and>
   local_basepath (core_repo (fst (update_local_checkouts broken_checkout_fixture [''/'', ''src''] (test_fixtures [''/'', ''w''])))) =
     Some [''/'', ''src'']"
proof -
  let ?rs = "test_fixtures [''/'', ''w'']"
  have "local_basepath (core_repo ?rs) = None" "fs_exists broken_checkout_fixture (path_div [''/'', ''src''] (name (core_repo ?rs)))"
    "read_text broken_checkout_fixture (path_div (path_div (path_div [''/'', ''src''] (name (core_repo ?rs))) ''.git'') ''HEAD'') =
       Inl (FileNotFoundError ''/src/core/.git/HEAD'')"
    by code_simp+
  from update_local_checkouts_error_keeps_partial [OF this] show ?thesis by simp
qed

end
