(* ===== verification/Aggregation.thy ===== *)
theory Aggregation
  imports Discovery Repository
begin

text \<open>
  NavigationAggregator: the grouping methods of \<open>AgregationUtils\<close> in
  \<open>src/pulp_docs/navigation.py\<close>. The navigation value handed to mkdocs is a
  nested structure of strings, lists and dicts (\<open>nav\<close>); a Python dict is an
  association list in insertion order, assigned with \<open>dict_set\<close>.
  \<open>repo_grouping\<close> selects repositories (\<open>select_repos\<close>, with
  \<open>getattr(self.repos, f"{repo_name}_repos")\<close> as \<open>getattr_repos\<close>) and then
  runs one of its two loops: \<open>group_flat\<close> when the template has no
  \<open>{content}\<close> (a repository is kept only when it has files), \<open>group_expand\<close>
  with the inner loop \<open>group_content\<close> over the content types otherwise (every
  repository gets an entry; the quickstart tutorial is moved out of the list
  by \<open>pop_quickstart\<close>, a \<open>_pop_quickstart_from\<close> that runs for every content
  type). \<open>repo_reference_grouping\<close> builds four sections per repository with
  \<open>ref_loop\<close>. Every template is expanded with \<open>py_format\<close> and every
  directory read with \<open>get_children\<close>, so their exceptions propagate.
\<close>

datatype nav = NStr string | NList "nav list" | NDict "(string \<times> nav) list"

record agg_utils =
  tmpdir :: path
  repos :: repos

definition ADMIN_NAME :: string where
  "ADMIN_NAME = ''admin''"

definition USER_NAME :: string where
  "USER_NAME = ''user''"

definition DISPLAY_NAMES :: "(string \<times> string) list" where
  "DISPLAY_NAMES =
     [(''guides'', ''How-to''), (''learn'', ''Learn''), (''tutorials'', ''Tutorials''),
      (''reference'', ''Reference'')]"

definition nav_files :: "string list \<Rightarrow> nav" where
  "nav_files xs = NList (map NStr xs)"

definition default_content_types :: "string list" where
  "default_content_types = [''tutorials'', ''guides'', ''learn'']"

definition getattr_repos :: "repos \<Rightarrow> string \<Rightarrow> repo list result" where
  "getattr_repos rs repo_name =
     (let attr = repo_name @ ''_repos'' in
      if attr = ''content_repos'' then Inr (content_repos rs)
      else if attr = ''other_repos'' then Inr (other_repos rs)
      else Inl (AttributeError attr))"

definition select_repos :: "repos \<Rightarrow> string list option \<Rightarrow> repo list result" where
  "select_repos rs repo_types =
     (case repo_types of
        None \<Rightarrow> Inr (repos_all rs)
      | Some [] \<Rightarrow> Inr (repos_all rs)
      | Some ts \<Rightarrow> sbind (map_res (getattr_repos rs) ts) (\<lambda>xss. Inr (concat xss)))"

definition select_content :: "string list option \<Rightarrow> string list" where
  "select_content content_types =
     (case content_types of None \<Rightarrow> default_content_types | Some [] \<Rightarrow> default_content_types
      | Some cts \<Rightarrow> cts)"

definition flat_kwargs :: "repo \<Rightarrow> (string \<times> string) list" where
  "flat_kwargs r = [(''repo'', name r), (''admin'', ADMIN_NAME), (''user'', USER_NAME)]"

definition content_kwargs :: "repo \<Rightarrow> string \<Rightarrow> (string \<times> string) list" where
  "content_kwargs r ct = flat_kwargs r @ [(''content'', ct)]"

text \<open>\<open>self.get_children(self.tmpdir / template_str.format(**kwargs))\<close>\<close>

definition lookup_children ::
  "fsys \<Rightarrow> path \<Rightarrow> string \<Rightarrow> (string \<times> string) list \<Rightarrow> string list result" where
  "lookup_children fs tmp template_str kwargs =
     sbind (py_format template_str [] kwargs) (\<lambda>s. get_children fs tmp (PPath (path_div tmp s)))"

definition is_quickstart_path :: "string \<Rightarrow> bool" where
  "is_quickstart_path path \<longleftrightarrow>
     (let filename = last (split_char CHR ''/'' path)
      in str_lower filename = ''quickstart.md'' \<or> str_lower filename = ''quick-start.md'')"

definition pop_quickstart :: "string list \<Rightarrow> string option \<times> string list" where
  "pop_quickstart pathlist =
     (case find is_quickstart_path pathlist of
        None \<Rightarrow> (None, pathlist)
      | Some path \<Rightarrow> (Some path, remove1 path pathlist))"

fun group_flat ::
  "fsys \<Rightarrow> path \<Rightarrow> string \<Rightarrow> repo list \<Rightarrow> (string \<times> nav) list \<Rightarrow> (string \<times> nav) list result" where
  "group_flat fs tmp template_str [] nav = Inr nav"
| "group_flat fs tmp template_str (r # rs) nav =
     sbind (lookup_children fs tmp template_str (flat_kwargs r)) (\<lambda>repo_content.
       group_flat fs tmp template_str rs
         (if repo_content = [] then nav else dict_set (title r) (nav_files repo_content) nav))"

fun group_content ::
  "fsys \<Rightarrow> path \<Rightarrow> string \<Rightarrow> repo \<Rightarrow> string list \<Rightarrow> (string \<times> nav) list \<Rightarrow> (string \<times> nav) list result" where
  "group_content fs tmp template_str r [] d = Inr d"
| "group_content fs tmp template_str r (ct # cts) d =
     sbind (lookup_children fs tmp template_str (content_kwargs r ct)) (\<lambda>found.
       (let (quickstart_file, repo_content) = pop_quickstart found;
            d1 = (case quickstart_file of
                    Some q \<Rightarrow> (if str_lower ct = ''tutorials'' \<and> q \<noteq> []
                               then dict_set ''Quickstart'' (NStr q) d else d)
                  | None \<Rightarrow> d)
        in if repo_content = [] then group_content fs tmp template_str r cts d1
           else sbind (dict_get DISPLAY_NAMES ct) (\<lambda>content_type_name.
                  group_content fs tmp template_str r cts
                    (dict_set content_type_name (nav_files repo_content) d1))))"

fun group_expand ::
  "fsys \<Rightarrow> path \<Rightarrow> string \<Rightarrow> string list \<Rightarrow> repo list \<Rightarrow> (string \<times> nav) list \<Rightarrow> (string \<times> nav) list result" where
  "group_expand fs tmp template_str cts [] nav = Inr nav"
| "group_expand fs tmp template_str cts (r # rs) nav =
     (let nav1 = dict_set (title r) (NDict []) nav in
      sbind (group_content fs tmp template_str r cts []) (\<lambda>d.
        group_expand fs tmp template_str cts rs (dict_set (title r) (NDict d) nav1)))"

definition repo_grouping ::
  "fsys \<Rightarrow> agg_utils \<Rightarrow> string \<Rightarrow> string list option \<Rightarrow> string list option \<Rightarrow> nav result" where
  "repo_grouping fs f template_str repo_types content_types =
     (let expand_content_types = str_contains ''{content}'' template_str;
          selected_content = select_content content_types
      in sbind (select_repos (repos f) repo_types) (\<lambda>selected_repos.
           if \<not> expand_content_types
           then sbind (group_flat fs (tmpdir f) template_str selected_repos []) (\<lambda>d. Inr (NDict d))
           else sbind (group_expand fs (tmpdir f) template_str selected_content selected_repos [])
                  (\<lambda>d. Inr (NDict d))))"

definition reference_section :: "repo \<Rightarrow> string list \<Rightarrow> nav" where
  "reference_section r repo_content =
     NList [NDict [(''REST API'', NStr (name r @ ''/docs/rest_api.md''))],
            NDict [(''Readme'', NStr (name r @ ''/README.md''))],
            NDict [(''Code API'', nav_files repo_content)],
            NDict [(''Changelog'', NStr (name r @ ''/CHANGELOG.md''))]]"

fun ref_loop :: "fsys \<Rightarrow> path \<Rightarrow> repo list \<Rightarrow> (string \<times> nav) list \<Rightarrow> (string \<times> nav) list result" where
  "ref_loop fs tmp [] nav = Inr nav"
| "ref_loop fs tmp (r # rs) nav =
     sbind (lookup_children fs tmp ''{repo}/docs/reference'' [(''repo'', name r)]) (\<lambda>repo_content.
       ref_loop fs tmp rs (dict_set (title r) (reference_section r repo_content) nav))"

definition repo_reference_grouping :: "fsys \<Rightarrow> agg_utils \<Rightarrow> nav result" where
  "repo_reference_grouping fs f =
     sbind (ref_loop fs (tmpdir f) (repos_all (repos f)) []) (\<lambda>d. Inr (NDict d))"

subsection \<open>What the loops build\<close>

text \<open>The entries one content type adds to a repository's dict, given the
  files found for it: the quickstart entry (tutorials only) and the list
  under the display name, each only when there is something to show.\<close>

definition content_entries :: "string \<Rightarrow> string list \<Rightarrow> (string \<times> nav) list" where
  "content_entries ct found =
     (case pop_quickstart found of
        (quickstart_file, repo_content) \<Rightarrow>
          (case quickstart_file of
             Some q \<Rightarrow> (if str_lower ct = ''tutorials'' \<and> q \<noteq> [] then [(''Quickstart'', NStr q)] else [])
           | None \<Rightarrow> []) @
          (if repo_content = [] then []
           else [(the (map_of DISPLAY_NAMES ct), nav_files repo_content)]))"

text \<open>A work directory for the examples: the repositories of
  \<open>Repos.test_fixtures\<close> with a few documentation directories.\<close>

definition aggregation_fixture :: fsys where
  "aggregation_fixture =
     \<lparr>fs_dirs =
        [([''/'', ''tmp'', ''new_repo1'', ''docs'', ''user'', ''guides''], [''x.md'', ''quickstart.md'']),
         ([''/'', ''tmp'', ''new_repo1'', ''docs'', ''user'', ''tutorials''], [''b.md'', ''QuickStart.md'', ''a.md'']),
         ([''/'', ''tmp'', ''core'', ''docs'', ''user'', ''tutorials''], [''quickstart.md''])],
      fs_files = []\<rparr>"

definition fixture_utils :: agg_utils where
  "fixture_utils = \<lparr>tmpdir = [''/'', ''tmp''], repos = test_fixtures [''/'', ''w'']\<rparr>"

definition fixture_user_docs :: "repo \<Rightarrow> string \<Rightarrow> string list" where
  "fixture_user_docs r ct =
     (if name r = ''new_repo1'' \<and> ct = ''guides'' then
        [''new_repo1/docs/user/guides/quickstart.md'', ''new_repo1/docs/user/guides/x.md'']
      else if name r = ''new_repo1'' \<and> ct = ''tutorials'' then
        [''new_repo1/docs/user/tutorials/QuickStart.md'', ''new_repo1/docs/user/tutorials/a.md'',
         ''new_repo1/docs/user/tutorials/b.md'']
      else [])"

subsection \<open>Evaluation rules\<close>

lemmas nav_eval_defs =
  lookup_children_def flat_kwargs_def content_kwargs_def ADMIN_NAME_def USER_NAME_def
  py_format_def render_field_def parse_field_def get_field_object_def apply_conversion_def
  format_value_def prepend_def is_digit_def
  get_children_def arg_path_def md_glob_def fs_listdir_def relative_to_def is_absolute_def
  is_root_part_def path_str_def endswith_def path_div_def path_parts_def path_root_def
  pop_quickstart_def is_quickstart_path_def str_lower_def py_lower_char_def
  dict_get_def DISPLAY_NAMES_def nav_files_def mk_repo_def char_of_eq_iff

lemmas fixture_defs = aggregation_fixture_def fixture_utils_def test_fixtures_def fixture_workdir_def



subsection \<open>Quickstart extraction and the grouping loops\<close>

lemma find_Some_split:
  "find P xs = Some x \<Longrightarrow> \<exists>pre post. xs = pre @ x # post \<and> P x \<and> (\<forall>p\<in>set pre. \<not> P p)"
proof (induction xs)
  case Nil
  then show ?case by simp
next
  case (Cons y ys)
  show ?case
  proof (cases "P y")
    case True
    with Cons.prems have "y = x" by simp
    with True show ?thesis by (intro exI [of _ "[]"] exI [of _ ys]) simp
  next
    case False
    with Cons obtain pre post where "ys = pre @ x # post" "P x" "\<forall>p\<in>set pre. \<not> P p" by auto
    with False show ?thesis by (intro exI [of _ "y # pre"] exI [of _ post]) simp
  qed
qed

text \<open>C4: _pop_quickstart_from removes exactly the first path whose file name is quickstart.md or quick-start.md in any letter case and keeps the order of the others; when there is none the list is unchanged.\<close>

theorem pop_quickstart_correct:
  "case pop_quickstart pathlist of
     (None, rest) \<Rightarrow> rest = pathlist \<and> (\<forall>p\<in>set pathlist. \<not> is_quickstart_path p)
   | (Some q, rest) \<Rightarrow> \<exists>pre post. pathlist = pre @ q # post \<and> rest = pre @ post \<and>
        is_quickstart_path q \<and> (\<forall>p\<in>set pre. \<not> is_quickstart_path p)"
proof (cases "find is_quickstart_path pathlist")
  case None
  then have "pop_quickstart pathlist = (None, pathlist)" by (simp add: pop_quickstart_def)
  with None show ?thesis by (simp add: find_None_iff)
next
  case (Some q)
  then obtain pre post where split: "pathlist = pre @ q # post" "is_quickstart_path q"
      "\<forall>p\<in>set pre. \<not> is_quickstart_path p"
    by (blast dest: find_Some_split)
  then have "q \<notin> set pre" by blast
  then have "remove1 q pathlist = pre @ post" by (simp add: split(1) remove1_append)
  with Some split show ?thesis by (auto simp: pop_quickstart_def)
qed

lemma group_flat_extend:
  assumes "\<forall>r\<in>set rs. lookup_children fs tmp tpl (flat_kwargs r) = Inr (ch r)"
  shows "group_flat fs tmp tpl rs nav =
           Inr (dict_extend nav (map (\<lambda>r. (title r, nav_files (ch r))) (filter (\<lambda>r. ch r \<noteq> []) rs)))"
  using assms by (induction rs arbitrary: nav) auto

lemma group_flat_result:
  assumes "\<forall>r\<in>set rs. lookup_children fs tmp tpl (flat_kwargs r) = Inr (ch r)"
    and "distinct (map title rs)"
  shows "group_flat fs tmp tpl rs [] =
           Inr (map (\<lambda>r. (title r, nav_files (ch r))) (filter (\<lambda>r. ch r \<noteq> []) rs))"
proof -
  have "distinct (map fst (map (\<lambda>r. (title r, nav_files (ch r))) (filter (\<lambda>r. ch r \<noteq> []) rs)))"
    using assms(2) by (simp add: o_def distinct_map_filter)
  then show ?thesis
    using group_flat_extend [OF assms(1), of "[]"] by (simp add: dict_extend_fresh)
qed

lemma group_content_extend:
  assumes "\<forall>ct\<in>set cts. lookup_children fs tmp tpl (content_kwargs r ct) = Inr (ch ct) \<and>
             ct \<in> set (map fst DISPLAY_NAMES)"
  shows "group_content fs tmp tpl r cts d =
           Inr (dict_extend d (concat (map (\<lambda>ct. content_entries ct (ch ct)) cts)))"
  using assms
proof (induction cts arbitrary: d)
  case Nil
  then show ?case by simp
next
  case (Cons ct cts)
  then have l: "lookup_children fs tmp tpl (content_kwargs r ct) = Inr (ch ct)"
    and k: "map_of DISPLAY_NAMES ct \<noteq> None"
    by (auto simp: map_of_eq_None_iff)
  then obtain lbl where lbl: "map_of DISPLAY_NAMES ct = Some lbl" by blast
  show ?case
    using Cons l lbl
    by (auto simp: content_entries_def dict_get_def split: prod.splits option.splits)
qed

lemma group_expand_extend:
  assumes "\<forall>r\<in>set rs. group_content fs tmp tpl r cts [] = Inr (cd r)"
  shows "group_expand fs tmp tpl cts rs nav =
           Inr (dict_extend nav (map (\<lambda>r. (title r, NDict (cd r))) rs))"
  using assms by (induction rs arbitrary: nav) (auto simp: Let_def)

lemma group_expand_result:
  assumes "\<forall>r\<in>set rs. group_content fs tmp tpl r cts [] = Inr (cd r)"
    and "distinct (map title rs)"
  shows "group_expand fs tmp tpl cts rs [] = Inr (map (\<lambda>r. (title r, NDict (cd r))) rs)"
  using group_expand_extend [OF assms(1), of "[]"] assms(2)
  by (simp add: dict_extend_fresh o_def)

lemma is_quickstart_path_not_Nil: "is_quickstart_path q \<Longrightarrow> q \<noteq> []"
  by (auto simp: is_quickstart_path_def str_lower_def)

lemma pop_quickstart_Some_nonempty:
  assumes "pop_quickstart found = (Some q, rest)"
  shows "q \<noteq> []"
proof -
  from assms have "find is_quickstart_path found = Some q"
    by (auto simp: pop_quickstart_def split: option.splits)
  then have "is_quickstart_path q" by (auto dest: find_Some_split)
  then show ?thesis by (rule is_quickstart_path_not_Nil)
qed

text \<open>C5: For the tutorials content type a quickstart file found in the directory is recorded under Quickstart before the Tutorials list, which holds the remaining files in order.\<close>

theorem group_content_tutorials:
  assumes "lookup_children fs tmp tpl (content_kwargs r ''tutorials'') = Inr found"
    and "pop_quickstart found = (Some q, rest)" and "rest \<noteq> []"
  shows "group_content fs tmp tpl r [''tutorials''] [] =
           Inr [(''Quickstart'', NStr q), (''Tutorials'', nav_files rest)]"
  using assms pop_quickstart_Some_nonempty [OF assms(2)]
  by (simp add: dict_get_def DISPLAY_NAMES_def str_lower_def py_lower_char_def)

text \<open>C13: For a content type other than tutorials, a quickstart file found in its directory is removed from the list and recorded nowhere, so it disappears from the navigation.\<close>

theorem group_content_drops_quickstart:
  assumes "lookup_children fs tmp tpl (content_kwargs r ct) = Inr found"
    and "pop_quickstart found = (Some q, rest)" and "str_lower ct \<noteq> ''tutorials''"
    and "map_of DISPLAY_NAMES ct = Some lbl"
  shows "group_content fs tmp tpl r [ct] [] = Inr (if rest = [] then [] else [(lbl, nav_files rest)])"
  using assms by (simp add: dict_get_def)

lemma getattr_repos_eq:
  "getattr_repos rs t =
     (if t = ''content'' then Inr (content_repos rs) else if t = ''other'' then Inr (other_repos rs)
      else Inl (AttributeError (t @ ''_repos'')))"
  by (simp add: getattr_repos_def)

lemma map_res_getattr:
  "map_res (getattr_repos rs) ts =
     (case filter (\<lambda>t. t \<notin> {''content'', ''other''}) ts of
        [] \<Rightarrow> Inr (map (\<lambda>t. if t = ''content'' then content_repos rs else other_repos rs) ts)
      | t # _ \<Rightarrow> Inl (AttributeError (t @ ''_repos'')))"
  by (induction ts) (auto simp: getattr_repos_eq split: list.splits)

text \<open>C12: repo_types selects content_repos for "content" and other_repos for "other", concatenated in the given order, all repositories when absent or empty, and raises AttributeError naming the first other type (including "core").\<close>

theorem select_repos_result:
  "select_repos rs (Some ts) =
     (if ts = [] then Inr (repos_all rs)
      else case filter (\<lambda>t. t \<notin> {''content'', ''other''}) ts of
        [] \<Rightarrow> Inr (concat (map (\<lambda>t. if t = ''content'' then content_repos rs else other_repos rs) ts))
      | t # _ \<Rightarrow> Inl (AttributeError (t @ ''_repos'')))"
  by (cases ts) (auto simp: select_repos_def map_res_getattr simp del: map_res.simps split: list.splits)

lemma format_reference_template:
  "py_format ''{repo}/docs/reference'' [] [(''repo'', n)] = Inr (n @ ''/docs/reference'')"
proof -
  let ?ps = "TVar ''repo'' # map TLit ''/docs/reference''"
  have "\<forall>v\<in>set (tpl_vars ?ps). ident_name v \<and> map_of [(''repo'', n)] v = Some ((\<lambda>_. n) v)"
    by (simp add: tpl_vars_lits ident_name_def is_digit_def)
  from py_format_render_tpl [OF this, of "[]"] show ?thesis
    by (simp add: render_tpl_lits subst_tpl_lits)
qed

lemma content_kwargs_lookup:
  "v \<in> {''repo'', ''admin'', ''user'', ''content''} \<Longrightarrow>
     map_of (content_kwargs r ct) v = Some (if v = ''repo'' then name r else if v = ''content'' then ct else v)"
  by (auto simp: content_kwargs_def flat_kwargs_def ADMIN_NAME_def USER_NAME_def)

lemma flat_kwargs_lookup:
  "v \<in> {''repo'', ''admin'', ''user''} \<Longrightarrow> map_of (flat_kwargs r) v = Some (if v = ''repo'' then name r else v)"
  by (auto simp: flat_kwargs_def ADMIN_NAME_def USER_NAME_def)

lemma ident_name_kwargs: "v \<in> {''repo'', ''admin'', ''user'', ''content''} \<Longrightarrow> ident_name v"
  by (auto simp: ident_name_def is_digit_def)

lemma ref_loop_extend:
  assumes "\<forall>r\<in>set rs. lookup_children fs tmp ''{repo}/docs/reference'' [(''repo'', name r)] = Inr (ch r)"
  shows "ref_loop fs tmp rs nav = Inr (dict_extend nav (map (\<lambda>r. (title r, reference_section r (ch r))) rs))"
  using assms by (induction rs arbitrary: nav) auto

text \<open>C9: repo_reference_grouping gives every repository of Repos.all, in order and keyed by title, the four sections REST API (<name>/docs/rest_api.md), Readme (<name>/README.md), Code API (the markdown files get_children finds in <name>/docs/reference) and Changelog (<name>/CHANGELOG.md).\<close>

theorem repo_reference_grouping_result:
  assumes ch: "\<forall>r\<in>set (repos_all (repos f)). get_children fs (tmpdir f) (PStr (name r @ ''/docs/reference'')) = Inr (ch r)"
    and d: "distinct (map title (repos_all (repos f)))"
  shows "repo_reference_grouping fs f =
           Inr (NDict (map (\<lambda>r. (title r,
             NList [NDict [(''REST API'', NStr (name r @ ''/docs/rest_api.md''))],
                    NDict [(''Readme'', NStr (name r @ ''/README.md''))],
                    NDict [(''Code API'', NList (map NStr (ch r)))],
                    NDict [(''Changelog'', NStr (name r @ ''/CHANGELOG.md''))]])) (repos_all (repos f))))"
proof -
  have "\<forall>r\<in>set (repos_all (repos f)).
          lookup_children fs (tmpdir f) ''{repo}/docs/reference'' [(''repo'', name r)] = Inr (ch r)"
    using ch by (simp add: lookup_children_def format_reference_template get_children_PPath_div)
  from ref_loop_extend [OF this, of "[]"] d show ?thesis
    by (simp add: repo_reference_grouping_def dict_extend_fresh o_def reference_section_def nav_files_def)
qed

text \<open>C2: Without a {content} placeholder, repo_grouping maps each selected repository title, in order, to its sorted markdown files, and omits every repository whose directory contributes no file.\<close>

theorem repo_grouping_flat:
  assumes "\<not> str_contains ''{content}'' tpl" and "select_repos (repos f) repo_types = Inr sel"
    and "\<forall>r\<in>set sel. lookup_children fs (tmpdir f) tpl (flat_kwargs r) = Inr (ch r)"
    and "distinct (map title sel)"
  shows "repo_grouping fs f tpl repo_types content_types =
           Inr (NDict (map (\<lambda>r. (title r, nav_files (ch r))) (filter (\<lambda>r. ch r \<noteq> []) sel)))"
  using assms group_flat_result [OF assms(3,4)] by (simp add: repo_grouping_def)

text \<open>C3: With a {content} placeholder, repo_grouping gives every selected repository, in order, a dict built from its content types: a Quickstart entry for a tutorials quickstart file, then the display-named list of the remaining files when it is non-empty.\<close>

theorem repo_grouping_expand:
  assumes "str_contains ''{content}'' tpl" and "select_repos (repos f) repo_types = Inr sel"
    and "\<forall>r\<in>set sel. \<forall>ct\<in>set (select_content content_types).
           lookup_children fs (tmpdir f) tpl (content_kwargs r ct) = Inr (ch r ct) \<and>
           ct \<in> set (map fst DISPLAY_NAMES)"
    and "distinct (map title sel)"
  shows "repo_grouping fs f tpl repo_types content_types =
           Inr (NDict (map (\<lambda>r. (title r, NDict (dict_extend []
              (concat (map (\<lambda>ct. content_entries ct (ch r ct)) (select_content content_types)))))) sel))"
proof -
  have "\<forall>r\<in>set sel. group_content fs (tmpdir f) tpl r (select_content content_types) [] =
          Inr (dict_extend [] (concat (map (\<lambda>ct. content_entries ct (ch r ct)) (select_content content_types))))"
    using assms(3) by (simp add: group_content_extend)
  from group_expand_result [OF this assms(4)] assms(1,2) show ?thesis
    by (simp add: repo_grouping_def)
qed

lemma lookup_fixture_guides:
  "lookup_children aggregation_fixture [''/'', ''tmp''] ''{repo}/docs/user/{content}''
     (content_kwargs (mk_repo ''Rpm Packages'' ''new_repo1'' None None) ''guides'') =
   Inr [''new_repo1/docs/user/guides/quickstart.md'', ''new_repo1/docs/user/guides/x.md'']"
  by (simp add: nav_eval_defs aggregation_fixture_def)

lemma fixture_user_lookups:
  "\<forall>r\<in>set (content_repos (repos fixture_utils)). \<forall>ct\<in>set (select_content None).
     lookup_children aggregation_fixture (tmpdir fixture_utils) ''{repo}/docs/user/{content}''
       (content_kwargs r ct) = Inr (fixture_user_docs r ct) \<and> ct \<in> set (map fst DISPLAY_NAMES)"
  by code_simp

lemma map_of_map_key:
  "distinct (map title sel) \<Longrightarrow> r \<in> set sel \<Longrightarrow> map_of (map (\<lambda>r. (title r, X r)) sel) (title r) = Some (X r)"
  by (induction sel) (auto simp: image_iff)

text \<open>C14: With content-type expansion, a selected repository without any file for the requested content types still appears in the result, mapped to an empty dict.\<close>

theorem repo_grouping_expand_keeps_empty_repo:
  assumes "str_contains ''{content}'' tpl" and "select_repos (repos f) repo_types = Inr sel"
    and "\<forall>r\<in>set sel. \<forall>ct\<in>set (select_content content_types).
           lookup_children fs (tmpdir f) tpl (content_kwargs r ct) = Inr (ch r ct) \<and>
           ct \<in> set (map fst DISPLAY_NAMES)"
    and "distinct (map title sel)" and "r \<in> set sel"
    and "\<forall>ct\<in>set (select_content content_types). ch r ct = []"
  shows "\<exists>d. repo_grouping fs f tpl repo_types content_types = Inr (NDict d) \<and>
             map_of d (title r) = Some (NDict [])"
proof -
  let ?cd = "\<lambda>r. dict_extend [] (concat (map (\<lambda>ct. content_entries ct (ch r ct)) (select_content content_types)))"
  have "\<forall>r\<in>set sel. group_content fs (tmpdir f) tpl r (select_content content_types) [] = Inr (?cd r)"
    using assms(3) by (simp add: group_content_extend)
  from group_expand_result [OF this assms(4)] assms(1,2)
  have "repo_grouping fs f tpl repo_types content_types = Inr (NDict (map (\<lambda>r. (title r, NDict (?cd r))) sel))"
    by (simp add: repo_grouping_def)
  moreover have "\<forall>ct\<in>set (select_content content_types). content_entries ct (ch r ct) = []"
    using assms(6) by (simp add: content_entries_def pop_quickstart_def)
  then have "concat (map (\<lambda>ct. content_entries ct (ch r ct)) (select_content content_types)) = []"
    by (simp add: concat_eq_Nil_conv)
  then have "?cd r = []" by (metis dict_extend.simps(1))
  ultimately show ?thesis
    using map_of_map_key [OF assms(4,5), of "\<lambda>r. NDict (?cd r)"] by auto
qed

subsection \<open>Template expansion in the lookups\<close>

text \<open>C10: With the keyword arguments repo_grouping passes (repo bound to the repository name, admin and user to themselves, and content to the content type), a path template whose placeholders are among repo, admin, user and content looks up exactly the directory named by substituting those values into it.\<close>

theorem lookup_children_template:
  assumes vs: "set (tpl_vars ps) \<subseteq> {''repo'', ''admin'', ''user'', ''content''}"
  shows "lookup_children fs tmp (render_tpl ps) (content_kwargs r ct) =
           get_children fs tmp (PStr (subst_tpl (\<lambda>v. if v = ''repo'' then name r else if v = ''content'' then ct else v) ps)) \<and>
         (''content'' \<notin> set (tpl_vars ps) \<longrightarrow>
           lookup_children fs tmp (render_tpl ps) (flat_kwargs r) =
             get_children fs tmp (PStr (subst_tpl (\<lambda>v. if v = ''repo'' then name r else v) ps)))"
proof (intro conjI impI)
  have "\<forall>v\<in>set (tpl_vars ps). ident_name v \<and>
          map_of (content_kwargs r ct) v = Some ((\<lambda>v. if v = ''repo'' then name r else if v = ''content'' then ct else v) v)"
    using vs ident_name_kwargs content_kwargs_lookup by blast
  from py_format_render_tpl [OF this, of "[]"]
  show "lookup_children fs tmp (render_tpl ps) (content_kwargs r ct) =
          get_children fs tmp (PStr (subst_tpl (\<lambda>v. if v = ''repo'' then name r else if v = ''content'' then ct else v) ps))"
    by (simp add: lookup_children_def get_children_PPath_div)
next
  assume "''content'' \<notin> set (tpl_vars ps)"
  then have vs': "set (tpl_vars ps) \<subseteq> {''repo'', ''admin'', ''user''}" using vs by blast
  have "\<forall>v\<in>set (tpl_vars ps). ident_name v \<and> map_of (flat_kwargs r) v = Some ((\<lambda>v. if v = ''repo'' then name r else v) v)"
    using vs' ident_name_kwargs flat_kwargs_lookup by blast
  from py_format_render_tpl [OF this, of "[]"]
  show "lookup_children fs tmp (render_tpl ps) (flat_kwargs r) =
          get_children fs tmp (PStr (subst_tpl (\<lambda>v. if v = ''repo'' then name r else v) ps))"
    by (simp add: lookup_children_def get_children_PPath_div)
qed

text \<open>C11: A flat template for repo_grouping whose first placeholder is not repo, admin or user makes repo_grouping raise KeyError naming that placeholder as soon as one repository is selected.\<close>

theorem repo_grouping_unbound:
  assumes n: "ident_name n" "n \<notin> {''repo'', ''admin'', ''user''}"
    and nc: "\<not> str_contains ''{content}'' (render_tpl (TVar n # ps))"
    and s: "select_repos (repos f) repo_types = Inr (r # rs)"
  shows "repo_grouping fs f (render_tpl (TVar n # ps)) repo_types content_types = Inl (KeyError n)"
proof -
  have "map_of (flat_kwargs r) n = None" using n(2) by (simp add: flat_kwargs_def ADMIN_NAME_def USER_NAME_def)
  from py_format_unbound [OF n(1) this, of ps "[]"]
  have "lookup_children fs (tmpdir f) (render_tpl (TVar n # ps)) (flat_kwargs r) = Inl (KeyError n)"
    by (simp add: lookup_children_def)
  then show ?thesis using nc s by (simp add: repo_grouping_def Let_def)
qed

subsection \<open>The grouping never raises on well-formed inputs\<close>

lemma lookup_children_ok:
  assumes "fs_wf fs" and "py_format tpl [] kw = Inr s" and "\<not> startswith ''/'' s"
  shows "\<exists>c. lookup_children fs tmp tpl kw = Inr c"
  using assms get_children_relative [OF assms(1,3), of tmp]
  by (simp add: lookup_children_def get_children_PPath_div)

lemma format_persona_template:
  assumes "list_all (\<lambda>c. c \<noteq> CHR ''{'' \<and> c \<noteq> CHR ''}'') persona"
  shows "py_format (''{repo}/docs/'' @ persona @ ''/{content}'') [] (content_kwargs r ct) =
           Inr (name r @ ''/docs/'' @ persona @ ''/'' @ ct)"
proof -
  let ?ps = "[TVar ''repo''] @ map TLit (''/docs/'' @ persona @ ''/'') @ [TVar ''content'']"
  have lits: "list_all (\<lambda>c. c \<noteq> CHR ''{'' \<and> c \<noteq> CHR ''}'') (''/docs/'' @ persona @ ''/'')"
    using assms by simp
  have r: "render_tpl ?ps = ''{repo}/docs/'' @ persona @ ''/{content}''"
    using render_tpl_lits [OF lits, of "[TVar ''content'']"] by simp
  have "\<forall>n\<in>set (tpl_vars ?ps). ident_name n \<and>
          map_of (content_kwargs r ct) n = Some ((\<lambda>n. if n = ''repo'' then name r else ct) n)"
    by (simp add: tpl_vars_lits ident_name_def is_digit_def content_kwargs_def flat_kwargs_def
        ADMIN_NAME_def USER_NAME_def)
  from py_format_render_tpl [OF this, of "[]"] r show ?thesis
    by (simp add: subst_tpl_lits)
qed

lemma group_content_ok:
  assumes "fs_wf fs" and "repo_name_ok (name r)"
    and "list_all (\<lambda>c. c \<noteq> CHR ''{'' \<and> c \<noteq> CHR ''}'') persona"
    and "set cts \<subseteq> set (map fst DISPLAY_NAMES)"
  shows "\<exists>d. group_content fs tmp (''{repo}/docs/'' @ persona @ ''/{content}'') r cts [] = Inr d"
proof -
  let ?tpl = "''{repo}/docs/'' @ persona @ ''/{content}''"
  let ?ch = "\<lambda>ct. projr (lookup_children fs tmp ?tpl (content_kwargs r ct))"
  have "\<forall>ct\<in>set cts. lookup_children fs tmp ?tpl (content_kwargs r ct) = Inr (?ch ct) \<and>
          ct \<in> set (map fst DISPLAY_NAMES)"
  proof
    fix ct assume ct: "ct \<in> set cts"
    have "\<not> startswith ''/'' (name r @ ''/docs/'' @ persona @ ''/'' @ ct)"
      using assms(2) by (rule startswith_slash_append)
    then obtain c where "lookup_children fs tmp ?tpl (content_kwargs r ct) = Inr c"
      using lookup_children_ok [OF assms(1) format_persona_template [OF assms(3)]] by blast
    with ct assms(4) show "lookup_children fs tmp ?tpl (content_kwargs r ct) = Inr (?ch ct) \<and>
          ct \<in> set (map fst DISPLAY_NAMES)" by auto
  qed
  from group_content_extend [OF this, of "[]"] show ?thesis by blast
qed

lemma repo_grouping_persona_ok:
  assumes "fs_wf fs" and "\<forall>r\<in>set (repos_all (repos f)). repo_name_ok (name r)"
    and "list_all (\<lambda>c. c \<noteq> CHR ''{'' \<and> c \<noteq> CHR ''}'') persona"
    and "t \<in> {''content'', ''other''}"
  shows "\<exists>n. repo_grouping fs f (''{repo}/docs/'' @ persona @ ''/{content}'') (Some [t]) None = Inr n"
proof -
  let ?tpl = "''{repo}/docs/'' @ persona @ ''/{content}''"
  let ?sel = "if t = ''content'' then content_repos (repos f) else other_repos (repos f)"
  have sel: "select_repos (repos f) (Some [t]) = Inr ?sel"
    using assms(4) by (auto simp: select_repos_def getattr_repos_def)
  have names: "\<forall>r\<in>set ?sel. repo_name_ok (name r)"
    using assms(2) by (auto simp: repos_all_def)
  let ?cd = "\<lambda>r. projr (group_content fs (tmpdir f) ?tpl r (select_content None) [])"
  have "\<forall>r\<in>set ?sel. group_content fs (tmpdir f) ?tpl r (select_content None) [] = Inr (?cd r)"
  proof
    fix r assume "r \<in> set ?sel"
    with names have "repo_name_ok (name r)" by blast
    moreover have "set (select_content None) \<subseteq> set (map fst DISPLAY_NAMES)"
      by (simp add: select_content_def default_content_types_def DISPLAY_NAMES_def)
    ultimately obtain d where "group_content fs (tmpdir f) ?tpl r (select_content None) [] = Inr d"
      using group_content_ok [OF assms(1) _ assms(3)] by blast
    then show "group_content fs (tmpdir f) ?tpl r (select_content None) [] = Inr (?cd r)" by simp
  qed
  from group_expand_extend [OF this, of "[]"] have "\<exists>d. group_expand fs (tmpdir f) ?tpl (select_content None) ?sel [] = Inr d"
    by blast
  moreover have "str_contains ''{content}'' ?tpl"
    by (simp add: str_contains_iff) (metis append.assoc append_Cons append_Nil)
  ultimately show ?thesis using sel by (auto simp: repo_grouping_def)
qed

lemma repo_reference_grouping_ok:
  assumes "fs_wf fs" and "\<forall>r\<in>set (repos_all (repos f)). repo_name_ok (name r)"
  shows "\<exists>n. repo_reference_grouping fs f = Inr n"
proof -
  let ?ch = "\<lambda>r. projr (lookup_children fs (tmpdir f) ''{repo}/docs/reference'' [(''repo'', name r)])"
  have "\<forall>r\<in>set (repos_all (repos f)).
          lookup_children fs (tmpdir f) ''{repo}/docs/reference'' [(''repo'', name r)] = Inr (?ch r)"
  proof
    fix r assume "r \<in> set (repos_all (repos f))"
    with assms(2) have "repo_name_ok (name r)" by blast
    then have "\<not> startswith ''/'' (name r @ ''/docs/reference'')"
      by (rule startswith_slash_append)
    then obtain c where "lookup_children fs (tmpdir f) ''{repo}/docs/reference'' [(''repo'', name r)] = Inr c"
      using lookup_children_ok [OF assms(1) format_reference_template] by blast
    then show "lookup_children fs (tmpdir f) ''{repo}/docs/reference'' [(''repo'', name r)] = Inr (?ch r)"
      by simp
  qed
  from ref_loop_extend [OF this, of "[]"] show ?thesis
    by (simp add: repo_reference_grouping_def)
qed

subsection \<open>Examples on the fixture repositories\<close>

theorem pop_quickstart_correct_witness:
  "pop_quickstart [''t/intro.md'', ''t/QuickStart.md'', ''t/advanced.md''] =
     (Some ''t/QuickStart.md'', [''t/intro.md'', ''t/advanced.md''])"
  using pop_quickstart_correct [of "[''t/intro.md'', ''t/QuickStart.md'', ''t/advanced.md'']"]
  by (simp add: pop_quickstart_def is_quickstart_path_def str_lower_def py_lower_char_def char_of_eq_iff)

theorem group_content_drops_quickstart_witness:
  "group_content aggregation_fixture [''/'', ''tmp''] ''{repo}/docs/user/{content}''
     (mk_repo ''Rpm Packages'' ''new_repo1'' None None) [''guides''] [] =
   Inr [(''How-to'', nav_files [''new_repo1/docs/user/guides/x.md''])]"
proof -
  have pq: "pop_quickstart [''new_repo1/docs/user/guides/quickstart.md'', ''new_repo1/docs/user/guides/x.md''] =
      (Some ''new_repo1/docs/user/guides/quickstart.md'', [''new_repo1/docs/user/guides/x.md''])"
    by (simp add: pop_quickstart_def is_quickstart_path_def str_lower_def py_lower_char_def char_of_eq_iff)
  have "str_lower ''guides'' \<noteq> ''tutorials''" "map_of DISPLAY_NAMES ''guides'' = Some ''How-to''"
    by (simp_all add: str_lower_def py_lower_char_def char_of_eq_iff DISPLAY_NAMES_def)
  from group_content_drops_quickstart [OF lookup_fixture_guides pq this] show ?thesis by simp
qed

theorem repo_grouping_expand_keeps_empty_repo_witness:
  "\<exists>d. repo_grouping aggregation_fixture fixture_utils ''{repo}/docs/user/{content}'' (Some [''content'']) None =
      Inr (NDict d) \<and> map_of d ''Debian Packages'' = Some (NDict [])"
proof -
  have sel: "select_repos (repos fixture_utils) (Some [''content'']) = Inr (content_repos (repos fixture_utils))"
    by (simp add: select_repos_def getattr_repos_def)
  have "\<forall>ct\<in>set (select_content None). fixture_user_docs (mk_repo ''Debian Packages'' ''new_repo2'' (Some (fixture_workdir [''/'', ''w''])) (Some ''content'')) ct = []"
    by (simp add: fixture_user_docs_def mk_repo_def)
  from repo_grouping_expand_keeps_empty_repo [OF _ sel fixture_user_lookups _ _ this]
  show ?thesis by (simp add: fixture_defs mk_repo_def)
qed

theorem group_content_tutorials_witness:
  "group_content aggregation_fixture [''/'', ''tmp''] ''{repo}/docs/user/{content}''
     (mk_repo ''Rpm Packages'' ''new_repo1'' None None) [''tutorials''] [] =
   Inr [(''Quickstart'', NStr ''new_repo1/docs/user/tutorials/QuickStart.md''),
        (''Tutorials'', nav_files [''new_repo1/docs/user/tutorials/a.md'', ''new_repo1/docs/user/tutorials/b.md''])]"
proof -
  have l: "lookup_children aggregation_fixture [''/'', ''tmp''] ''{repo}/docs/user/{content}''
      (content_kwargs (mk_repo ''Rpm Packages'' ''new_repo1'' None None) ''tutorials'') =
    Inr [''new_repo1/docs/user/tutorials/QuickStart.md'', ''new_repo1/docs/user/tutorials/a.md'',
         ''new_repo1/docs/user/tutorials/b.md'']"
    by code_simp
  have pq: "pop_quickstart [''new_repo1/docs/user/tutorials/QuickStart.md'', ''new_repo1/docs/user/tutorials/a.md'',
         ''new_repo1/docs/user/tutorials/b.md''] =
      (Some ''new_repo1/docs/user/tutorials/QuickStart.md'',
       [''new_repo1/docs/user/tutorials/a.md'', ''new_repo1/docs/user/tutorials/b.md''])"
    by code_simp
  from group_content_tutorials [OF l pq] show ?thesis by simp
qed

theorem repo_reference_grouping_result_witness:
  "repo_reference_grouping aggregation_fixture fixture_utils =
     Inr (NDict (map (\<lambda>r. (title r,
             NList [NDict [(''REST API'', NStr (name r @ ''/docs/rest_api.md''))],
                    NDict [(''Readme'', NStr (name r @ ''/README.md''))],
                    NDict [(''Code API'', NList [])],
                    NDict [(''Changelog'', NStr (name r @ ''/CHANGELOG.md''))]])) (repos_all (repos fixture_utils))))"
proof -
  have "\<forall>r\<in>set (repos_all (repos fixture_utils)).
          get_children aggregation_fixture (tmpdir fixture_utils) (PStr (name r @ ''/docs/reference'')) = Inr ((\<lambda>_. []) r)"
    by code_simp
  moreover have "distinct (map title (repos_all (repos fixture_utils)))"
    by code_simp
  ultimately show ?thesis using repo_reference_grouping_result [of fixture_utils aggregation_fixture "\<lambda>_. []"] by simp
qed

theorem repo_grouping_flat_witness:
  "repo_grouping aggregation_fixture fixture_utils ''{repo}/docs/user/guides'' (Some [''content'']) None =
     Inr (NDict [(''Rpm Packages'', nav_files [''new_repo1/docs/user/guides/quickstart.md'',
                                               ''new_repo1/docs/user/guides/x.md''])])"
proof -
  have sel: "select_repos (repos fixture_utils) (Some [''content'']) = Inr (content_repos (repos fixture_utils))"
    by (simp add: select_repos_def getattr_repos_def)
  have lk: "\<forall>r\<in>set (content_repos (repos fixture_utils)).
          lookup_children aggregation_fixture (tmpdir fixture_utils) ''{repo}/docs/user/guides'' (flat_kwargs r) =
          Inr ((\<lambda>r. fixture_user_docs r ''guides'') r)"
    by code_simp
  have dt: "distinct (map title (content_repos (repos fixture_utils)))" by code_simp
  have nc: "\<not> str_contains ''{content}'' ''{repo}/docs/user/guides''" by code_simp
  have "repo_grouping aggregation_fixture fixture_utils ''{repo}/docs/user/guides'' (Some [''content'']) None =
     Inr (NDict (map (\<lambda>r. (title r, nav_files (fixture_user_docs r ''guides'')))
        (filter (\<lambda>r. fixture_user_docs r ''guides'' \<noteq> []) (content_repos (repos fixture_utils)))))"
    using repo_grouping_flat [OF nc sel lk dt] by simp
  then show ?thesis by code_simp
qed

theorem repo_grouping_expand_witness:
  "repo_grouping aggregation_fixture fixture_utils ''{repo}/docs/user/{content}'' (Some [''content'']) None =
     Inr (NDict [(''Rpm Packages'', NDict
         [(''Quickstart'', NStr ''new_repo1/docs/user/tutorials/QuickStart.md''),
          (''Tutorials'', nav_files [''new_repo1/docs/user/tutorials/a.md'', ''new_repo1/docs/user/tutorials/b.md'']),
          (''How-to'', nav_files [''new_repo1/docs/user/guides/x.md''])]),
       (''Debian Packages'', NDict []), (''Maven'', NDict [])])"
proof -
  have sel: "select_repos (repos fixture_utils) (Some [''content'']) = Inr (content_repos (repos fixture_utils))"
    by (simp add: select_repos_def getattr_repos_def)
  have "distinct (map title (content_repos (repos fixture_utils)))" by code_simp
  moreover have "str_contains ''{content}'' ''{repo}/docs/user/{content}''" by code_simp
  ultimately have "repo_grouping aggregation_fixture fixture_utils ''{repo}/docs/user/{content}'' (Some [''content'']) None =
     Inr (NDict (map (\<lambda>r. (title r, NDict (dict_extend []
              (concat (map (\<lambda>ct. content_entries ct (fixture_user_docs r ct)) (select_content None))))))
       (content_repos (repos fixture_utils))))"
    using repo_grouping_expand [OF _ sel fixture_user_lookups] by blast
  then show ?thesis by code_simp
qed

theorem lookup_children_template_witness:
  "lookup_children aggregation_fixture [''/'', ''tmp''] ''{repo}/docs/user/guides''
     (flat_kwargs (mk_repo ''Rpm Packages'' ''new_repo1'' None None)) =
   Inr [''new_repo1/docs/user/guides/quickstart.md'', ''new_repo1/docs/user/guides/x.md'']"
proof -
  let ?ps = "[TVar ''repo''] @ map TLit ''/docs/user/guides''"
  have r: "render_tpl ?ps = ''{repo}/docs/user/guides''"
    by (simp add: render_tpl_lits)
  have v: "set (tpl_vars ?ps) \<subseteq> {''repo'', ''admin'', ''user'', ''content''}" "''content'' \<notin> set (tpl_vars ?ps)"
    by (simp_all add: tpl_vars_lits)
  from lookup_children_template [OF v(1), of aggregation_fixture "[''/'', ''tmp'']" "mk_repo ''Rpm Packages'' ''new_repo1'' None None" "''''"] v(2) r
  have "lookup_children aggregation_fixture [''/'', ''tmp''] ''{repo}/docs/user/guides''
     (flat_kwargs (mk_repo ''Rpm Packages'' ''new_repo1'' None None)) =
     get_children aggregation_fixture [''/'', ''tmp''] (PStr ''new_repo1/docs/user/guides'')"
    by (simp add: subst_tpl_lits mk_repo_def)
  then show ?thesis by code_simp
qed

theorem repo_grouping_unbound_witness:
  "repo_grouping aggregation_fixture fixture_utils ''{name}/docs'' None None = Inl (KeyError ''name'')"
proof -
  have n: "ident_name ''name''" "''name'' \<notin> {''repo'', ''admin'', ''user''}"
    by (simp_all add: ident_name_def is_digit_def)
  have r: "render_tpl (TVar ''name'' # map TLit ''/docs'') = ''{name}/docs''" by (simp add: render_tpl_lits)
  have nc: "\<not> str_contains ''{content}'' ''{name}/docs''" by code_simp
  obtain r0 rs0 where s: "select_repos (repos fixture_utils) None = Inr (r0 # rs0)"
    by (simp add: select_repos_def repos_all_def)
  from repo_grouping_unbound [OF n, of "map TLit ''/docs''"] r nc s
  show ?thesis by simp
qed

end
