(* ===== verification/Navigation.thy ===== *)
theory Navigation
  imports Aggregation
begin

text \<open>
  NavigationTreeBuilder: \<open>get_navigation\<close>, \<open>grouped_by_persona\<close> and
  \<open>grouped_by_content_type\<close> of \<open>src/pulp_docs/navigation.py\<close>. The three
  persona sections of \<open>grouped_by_persona\<close> (\<open>usage_section\<close>,
  \<open>admin_section\<close>, \<open>development_section\<close>) are the same code for the
  persona directories \<open>user\<close>, \<open>admin\<close> and \<open>dev\<close>; \<open>manual_section\<close> is
  that code with the overview file and the persona as parameters. Its
  "Getting Started" part reads the fixed directories
  \<open>pulpcore/docs/<persona>/...\<close> with \<open>get_children\<close>, its "Plugins" and
  "Extras" parts call \<open>repo_grouping\<close> with content-type expansion. The
  sections are computed in the order of the source (help, usage, admin,
  reference, development), so the first exception raised is the one the
  Python raises.
\<close>

definition help_section :: nav where
  "help_section =
     NList [NDict [(''Overview'', NStr (section_file ''help/index.md''))],
            NDict [(''Bugs, Feature and Backport Requests'', NStr (section_file ''help/bugs-features.md''))]]"

definition manual_section :: "fsys \<Rightarrow> agg_utils \<Rightarrow> string \<Rightarrow> string \<Rightarrow> nav result" where
  "manual_section fs f overview persona =
     sbind (get_children fs (tmpdir f) (PStr (''pulpcore/docs/'' @ persona @ ''/tutorials''))) (\<lambda>tutorial.
     sbind (get_children fs (tmpdir f) (PStr (''pulpcore/docs/'' @ persona @ ''/learn''))) (\<lambda>learn.
     sbind (get_children fs (tmpdir f) (PStr (''pulpcore/docs/'' @ persona @ ''/guides''))) (\<lambda>howto.
     sbind (repo_grouping fs f (''{repo}/docs/'' @ persona @ ''/{content}'') (Some [''content'']) None)
       (\<lambda>plugins.
     sbind (repo_grouping fs f (''{repo}/docs/'' @ persona @ ''/{content}'') (Some [''other'']) None)
       (\<lambda>extras.
     Inr (NList
       [NDict [(''Overview'', NStr (section_file overview))],
        NDict [(''Getting Started'',
                NDict [(''Tutorial'', nav_files tutorial), (''Learn'', nav_files learn),
                       (''How-to'', nav_files howto)])],
        NDict [(''Plugins'', plugins)],
        NDict [(''Extras'', extras)]]))))))"

definition reference_nav :: "fsys \<Rightarrow> agg_utils \<Rightarrow> nav result" where
  "reference_nav fs f =
     sbind (repo_reference_grouping fs f) (\<lambda>repositories.
       Inr (NList
         [NDict [(''Overview'', NStr (section_file ''reference/index.md''))],
          NDict [(''Repository Map'', NStr (section_file ''reference/01-repository-map.md''))],
          NDict [(''Glossary'', NStr (section_file ''reference/02-glossary.md''))],
          NDict [(''Repositories'', repositories)]]))"

definition grouped_by_persona :: "fsys \<Rightarrow> path \<Rightarrow> repos \<Rightarrow> nav result" where
  "grouped_by_persona fs tmp rs =
     (let f = \<lparr>tmpdir = tmp, repos = rs\<rparr> in
      sbind (manual_section fs f ''usage/index.md'' ''user'') (\<lambda>usage_section.
      sbind (manual_section fs f ''admin/index.md'' ''admin'') (\<lambda>admin_section.
      sbind (reference_nav fs f) (\<lambda>reference_section.
      sbind (manual_section fs f ''development/index.md'' ''dev'') (\<lambda>development_section.
      Inr (NList
        [NDict [(''Home'', NStr ''index.md'')],
         NDict [(''User Manual'', usage_section)],
         NDict [(''Admin Manual'', admin_section)],
         NDict [(''Development'', development_section)],
         NDict [(''Reference'', reference_section)],
         NDict [(''Help'', help_section)]]))))))"

definition grouped_by_content_type :: "fsys \<Rightarrow> path \<Rightarrow> repos \<Rightarrow> nav result" where
  "grouped_by_content_type fs tmp rs =
     (let f = \<lparr>tmpdir = tmp, repos = rs\<rparr> in
      sbind (section_children fs tmp ''getting_started/quickstart'') (\<lambda>gs_quickstart.
      sbind (section_children fs tmp ''getting_started/fundamentals'') (\<lambda>gs_fundamentals.
      sbind (repo_grouping fs f ''{repo}/docs/{user}/guides'' None None) (\<lambda>guides_user.
      sbind (repo_grouping fs f ''{repo}/docs/{admin}/guides'' None None) (\<lambda>guides_admin.
      sbind (repo_grouping fs f ''{repo}/docs/{user}/learn'' None None) (\<lambda>learn_user.
      sbind (repo_grouping fs f ''{repo}/docs/{admin}/learn'' None None) (\<lambda>learn_admin.
      sbind (reference_nav fs f) (\<lambda>reference.
      sbind (section_children fs tmp ''development/quickstart/'') (\<lambda>dev_quickstart.
      sbind (section_children fs tmp ''development/onboarding/'') (\<lambda>dev_onboarding.
      sbind (section_children fs tmp ''/development/guides/'') (\<lambda>dev_guides.
      Inr (NList
        [NDict [(''Home'', NStr ''index.md'')],
         NDict [(''Getting Started'', NList
           [NDict [(''Overview'', NStr (section_file ''getting_started/index.md''))],
            NDict [(''Quickstart'', nav_files gs_quickstart)],
            NDict [(''Fundamentals'', nav_files gs_fundamentals)]])],
         NDict [(''Guides'', NList
           [NDict [(''Overview'', NStr (section_file ''guides/index.md''))],
            NDict [(''For Content-Management'', guides_user)],
            NDict [(''For Sys-Admins'', guides_admin)]])],
         NDict [(''Learn'', NList
           [NDict [(''Overview'', NStr (section_file ''learn/index.md''))],
            NDict [(''For Content-Management'', learn_user)],
            NDict [(''For Sys-Admins'', learn_admin)]])],
         NDict [(''Reference'', reference)],
         NDict [(''Development'', NList
           [NDict [(''Overview'', NStr (section_file ''development/index.md''))],
            NDict [(''Quickstart'', nav_files dev_quickstart)],
            NDict [(''Onboarding'', nav_files dev_onboarding)],
            NDict [(''Guides'', nav_files dev_guides)]])]]))))))))))))"

definition get_navigation :: "fsys \<Rightarrow> path \<Rightarrow> repos \<Rightarrow> nav result" where
  "get_navigation fs tmp rs = grouped_by_persona fs tmp rs"

subsection \<open>Lemmas\<close>

lemma get_children_pulpcore_ok:
  assumes "fs_wf fs"
  shows "\<exists>c. get_children fs tmp (PStr (''pulpcore/docs/'' @ persona @ x)) = Inr c"
proof -
  have "\<not> startswith ''/'' (''pulpcore/docs/'' @ persona @ x)" by simp
  from get_children_relative [OF assms this] show ?thesis by blast
qed

lemma manual_section_ok:
  assumes "fs_wf fs" and "\<forall>r\<in>set (repos_all (repos f)). repo_name_ok (name r)"
    and "list_all (\<lambda>c. c \<noteq> CHR ''{'' \<and> c \<noteq> CHR ''}'') persona"
  shows "\<exists>n. manual_section fs f ov persona = Inr n"
proof -
  obtain tut where "get_children fs (tmpdir f) (PStr (''pulpcore/docs/'' @ persona @ ''/tutorials'')) = Inr tut"
    using get_children_pulpcore_ok [OF assms(1)] by blast
  moreover obtain lrn where "get_children fs (tmpdir f) (PStr (''pulpcore/docs/'' @ persona @ ''/learn'')) = Inr lrn"
    using get_children_pulpcore_ok [OF assms(1)] by blast
  moreover obtain how where "get_children fs (tmpdir f) (PStr (''pulpcore/docs/'' @ persona @ ''/guides'')) = Inr how"
    using get_children_pulpcore_ok [OF assms(1)] by blast
  moreover obtain p where
    "repo_grouping fs f (''{repo}/docs/'' @ persona @ ''/{content}'') (Some [''content'']) None = Inr p"
    using repo_grouping_persona_ok [OF assms] by blast
  moreover obtain e where
    "repo_grouping fs f (''{repo}/docs/'' @ persona @ ''/{content}'') (Some [''other'']) None = Inr e"
    using repo_grouping_persona_ok [OF assms] by blast
  ultimately show ?thesis by (simp add: manual_section_def)
qed

lemma group_flat_ok:
  "\<forall>r\<in>set rs. \<exists>c. lookup_children fs tmp tpl (flat_kwargs r) = Inr c \<Longrightarrow> \<exists>d. group_flat fs tmp tpl rs nav = Inr d"
proof (induction rs arbitrary: nav)
  case (Cons r rs)
  then obtain c where c: "lookup_children fs tmp tpl (flat_kwargs r) = Inr c" by auto
  have "\<exists>d. group_flat fs tmp tpl rs (if c = [] then nav else dict_set (title r) (nav_files c) nav) = Inr d"
    using Cons by simp
  then show ?case using c by simp
qed simp

lemma format_flat_persona_templates:
  "py_format ''{repo}/docs/{user}/guides'' [] (flat_kwargs r) = Inr (name r @ ''/docs/user/guides'')"
  "py_format ''{repo}/docs/{admin}/guides'' [] (flat_kwargs r) = Inr (name r @ ''/docs/admin/guides'')"
  "py_format ''{repo}/docs/{user}/learn'' [] (flat_kwargs r) = Inr (name r @ ''/docs/user/learn'')"
  "py_format ''{repo}/docs/{admin}/learn'' [] (flat_kwargs r) = Inr (name r @ ''/docs/admin/learn'')"
  by (simp_all add: py_format_def render_field_def parse_field_def get_field_object_def apply_conversion_def
      format_value_def prepend_def is_digit_def flat_kwargs_def ADMIN_NAME_def USER_NAME_def)

lemma repo_grouping_flat_ok:
  assumes wf: "fs_wf fs" and names: "\<forall>r\<in>set (repos_all (repos f)). repo_name_ok (name r)"
    and fm: "\<And>r. py_format tpl [] (flat_kwargs r) = Inr (name r @ s)"
    and nc: "\<not> str_contains ''{content}'' tpl"
  shows "\<exists>n. repo_grouping fs f tpl None None = Inr n"
proof -
  have "\<forall>r\<in>set (repos_all (repos f)). \<exists>c. lookup_children fs (tmpdir f) tpl (flat_kwargs r) = Inr c"
  proof
    fix r assume "r \<in> set (repos_all (repos f))"
    then have "\<not> startswith ''/'' (name r @ s)" using names startswith_slash_append by blast
    then show "\<exists>c. lookup_children fs (tmpdir f) tpl (flat_kwargs r) = Inr c"
      by (rule lookup_children_ok [OF wf fm])
  qed
  from group_flat_ok [OF this, of "[]"] nc show ?thesis
    by (auto simp: repo_grouping_def select_repos_def Let_def)
qed

lemma section_children_ok: "fs_wf fs \<Longrightarrow> \<exists>c. section_children fs tmp n = Inr c"
  using get_children_relative [of fs "sections_basepath @ ''/'' @ n" tmp]
  by (simp add: section_children_def sections_basepath_def)

text \<open>C16: grouped_by_content_type never raises on a well-formed file system when every repository name is non-empty and relative, and returns the sections Home, Getting Started, Guides, Learn, Reference and Development in that order, each with its entries in source order and its Overview file under pulpcore/docs/sections.\<close>

theorem grouped_by_content_type_total:
  assumes wf: "fs_wf fs" and names: "\<forall>r\<in>set (repos_all rs). repo_name_ok (name r)"
  shows "\<exists>gs_quickstart gs_fundamentals guides_user guides_admin learn_user learn_admin reference
           dev_quickstart dev_onboarding dev_guides.
           grouped_by_content_type fs tmp rs =
             Inr (NList
               [NDict [(''Home'', NStr ''index.md'')],
                NDict [(''Getting Started'', NList
                  [NDict [(''Overview'', NStr ''pulpcore/docs/sections/getting_started/index.md'')],
                   NDict [(''Quickstart'', gs_quickstart)], NDict [(''Fundamentals'', gs_fundamentals)]])],
                NDict [(''Guides'', NList
                  [NDict [(''Overview'', NStr ''pulpcore/docs/sections/guides/index.md'')],
                   NDict [(''For Content-Management'', guides_user)], NDict [(''For Sys-Admins'', guides_admin)]])],
                NDict [(''Learn'', NList
                  [NDict [(''Overview'', NStr ''pulpcore/docs/sections/learn/index.md'')],
                   NDict [(''For Content-Management'', learn_user)], NDict [(''For Sys-Admins'', learn_admin)]])],
                NDict [(''Reference'', reference)],
                NDict [(''Development'', NList
                  [NDict [(''Overview'', NStr ''pulpcore/docs/sections/development/index.md'')],
                   NDict [(''Quickstart'', dev_quickstart)], NDict [(''Onboarding'', dev_onboarding)],
                   NDict [(''Guides'', dev_guides)]])]])"
proof -
  let ?f = "\<lparr>tmpdir = tmp, repos = rs\<rparr>"
  have nm: "\<forall>r\<in>set (repos_all (repos ?f)). repo_name_ok (name r)" using names by simp
  have sc: "\<exists>c. section_children fs tmp n = Inr c" for n using section_children_ok [OF wf] .
  have nc: "\<not> str_contains ''{content}'' ''{repo}/docs/{user}/guides''" "\<not> str_contains ''{content}'' ''{repo}/docs/{admin}/guides''"
    "\<not> str_contains ''{content}'' ''{repo}/docs/{user}/learn''" "\<not> str_contains ''{content}'' ''{repo}/docs/{admin}/learn''"
    by code_simp+
  note g = repo_grouping_flat_ok [OF wf nm format_flat_persona_templates(1) nc(1)]
    repo_grouping_flat_ok [OF wf nm format_flat_persona_templates(2) nc(2)]
    repo_grouping_flat_ok [OF wf nm format_flat_persona_templates(3) nc(3)]
    repo_grouping_flat_ok [OF wf nm format_flat_persona_templates(4) nc(4)]
  obtain q1 where "section_children fs tmp ''getting_started/quickstart'' = Inr q1" using sc by blast
  moreover obtain q2 where "section_children fs tmp ''getting_started/fundamentals'' = Inr q2" using sc by blast
  moreover obtain g1 where "repo_grouping fs ?f ''{repo}/docs/{user}/guides'' None None = Inr g1"
    using g(1) by blast
  moreover obtain g2 where "repo_grouping fs ?f ''{repo}/docs/{admin}/guides'' None None = Inr g2"
    using g(2) by blast
  moreover obtain l1 where "repo_grouping fs ?f ''{repo}/docs/{user}/learn'' None None = Inr l1"
    using g(3) by blast
  moreover obtain l2 where "repo_grouping fs ?f ''{repo}/docs/{admin}/learn'' None None = Inr l2"
    using g(4) by blast
  moreover obtain n where "repo_reference_grouping fs ?f = Inr n"
    using repo_reference_grouping_ok [OF wf nm] by blast
  moreover obtain d1 where "section_children fs tmp ''development/quickstart/'' = Inr d1" using sc by blast
  moreover obtain d2 where "section_children fs tmp ''development/onboarding/'' = Inr d2" using sc by blast
  moreover obtain d3 where "section_children fs tmp ''/development/guides/'' = Inr d3" using sc by blast
  ultimately show ?thesis
    by (simp add: grouped_by_content_type_def reference_nav_def section_file_def sections_basepath_def)
qed

text \<open>C15: A persona section does not depend on the primary repository: its Getting Started lists are read from the fixed pulpcore directories and its Plugins and Extras only from the content and other repositories.\<close>

theorem manual_section_ignores_core_repo:
  "manual_section fs (f\<lparr>repos := (repos f)\<lparr>core_repo := c\<rparr>\<rparr>) ov persona = manual_section fs f ov persona"
  by (simp add: manual_section_def repo_grouping_def select_repos_def getattr_repos_def)

lemma manual_section_fixture_user:
  "manual_section aggregation_fixture fixture_utils ''usage/index.md'' ''user'' =
     Inr (NList
       [NDict [(''Overview'', NStr ''pulpcore/docs/sections/usage/index.md'')],
        NDict [(''Getting Started'', NDict [(''Tutorial'', NList []), (''Learn'', NList []), (''How-to'', NList [])])],
        NDict [(''Plugins'', NDict
           [(''Rpm Packages'', NDict
              [(''Quickstart'', NStr ''new_repo1/docs/user/tutorials/QuickStart.md''),
               (''Tutorials'', NList [NStr ''new_repo1/docs/user/tutorials/a.md'', NStr ''new_repo1/docs/user/tutorials/b.md'']),
               (''How-to'', NList [NStr ''new_repo1/docs/user/guides/x.md''])]),
            (''Debian Packages'', NDict []), (''Maven'', NDict [])])],
        NDict [(''Extras'', NDict [])]])"
  by code_simp

theorem grouped_by_content_type_total_witness:
  "\<exists>gs_quickstart gs_fundamentals guides_user guides_admin learn_user learn_admin reference
     dev_quickstart dev_onboarding dev_guides.
     grouped_by_content_type aggregation_fixture [''/'', ''tmp''] (test_fixtures [''/'', ''w'']) =
       Inr (NList
         [NDict [(''Home'', NStr ''index.md'')],
          NDict [(''Getting Started'', NList
            [NDict [(''Overview'', NStr ''pulpcore/docs/sections/getting_started/index.md'')],
             NDict [(''Quickstart'', gs_quickstart)], NDict [(''Fundamentals'', gs_fundamentals)]])],
          NDict [(''Guides'', NList
            [NDict [(''Overview'', NStr ''pulpcore/docs/sections/guides/index.md'')],
             NDict [(''For Content-Management'', guides_user)], NDict [(''For Sys-Admins'', guides_admin)]])],
          NDict [(''Learn'', NList
            [NDict [(''Overview'', NStr ''pulpcore/docs/sections/learn/index.md'')],
             NDict [(''For Content-Management'', learn_user)], NDict [(''For Sys-Admins'', learn_admin)]])],
          NDict [(''Reference'', reference)],
          NDict [(''Development'', NList
            [NDict [(''Overview'', NStr ''pulpcore/docs/sections/development/index.md'')],
             NDict [(''Quickstart'', dev_quickstart)], NDict [(''Onboarding'', dev_onboarding)],
             NDict [(''Guides'', dev_guides)]])]])"
proof -
  have "fs_wf aggregation_fixture" by code_simp
  moreover have "\<forall>r\<in>set (repos_all (test_fixtures [''/'', ''w''])). repo_name_ok (name r)" by code_simp
  ultimately show ?thesis by (rule grouped_by_content_type_total)
qed

end
