(* ===== verification/FileOps.thy ===== *)
theory FileOps
  imports Paths "HOL-Library.Sublist"
begin

text \<open>
  The file-system mutations that \<open>Repo.download\<close> performs, on the
  file-system tables of \<open>Paths\<close>: \<open>os.mkdir\<close> (\<open>fs_mkdir\<close>),
  \<open>os.makedirs\<close> with \<open>exist_ok=False\<close> (\<open>fs_makedirs\<close>), writing a file
  (\<open>fs_write_file\<close>, the destination side of \<open>shutil.copy2\<close>),
  \<open>shutil.rmtree(p, ignore_errors=True)\<close> (\<open>fs_rmtree\<close>), and the tree that
  \<open>git clone\<close> leaves in its destination (\<open>fs_graft\<close>). A new entry is
  listed last in its directory. The invariant \<open>fs_tree\<close> says that the tables
  describe a tree under the root \<open>/\<close>: no path is both a file and a directory,
  every listed name exists, and every path but the root is listed in its
  parent. Every operation preserves it.
\<close>

definition fs_is_dir :: "fsys \<Rightarrow> path \<Rightarrow> bool" where
  "fs_is_dir fs p \<longleftrightarrow> map_of (fs_dirs fs) p \<noteq> None"

definition fs_is_file :: "fsys \<Rightarrow> path \<Rightarrow> bool" where
  "fs_is_file fs p \<longleftrightarrow> map_of (fs_files fs) p \<noteq> None"

text \<open>A directory gains the name \<open>n\<close> as its last entry.\<close>

definition dir_add_entry :: "path \<Rightarrow> string \<Rightarrow> (path \<times> string list) list \<Rightarrow> (path \<times> string list) list" where
  "dir_add_entry p n ds =
     (case map_of ds p of
        Some ns \<Rightarrow> (if n \<in> set ns then ds else dict_set p (ns @ [n]) ds)
      | None \<Rightarrow> ds)"

definition dir_remove_entry :: "path \<Rightarrow> string \<Rightarrow> (path \<times> string list) list \<Rightarrow> (path \<times> string list) list" where
  "dir_remove_entry p n ds =
     (case map_of ds p of
        Some ns \<Rightarrow> dict_set p (remove1 n ns) ds
      | None \<Rightarrow> ds)"

text \<open>\<open>os.mkdir(p)\<close>. A \<open>..\<close> part is resolved by the operating system,
  which the tables do not describe.\<close>

definition fs_mkdir :: "fsys \<Rightarrow> path \<Rightarrow> fsys result" where
  "fs_mkdir fs p =
     (if p \<noteq> [] \<and> last p = ''..'' then Inl (Unmodelled ''.. in a created path'')
      else if fs_exists fs p then Inl (FileExistsError (path_str p))
      else if fs_is_file fs (butlast p) then Inl (NotADirectoryError (path_str p))
      else if butlast p = [] \<or> \<not> fs_is_dir fs (butlast p) then Inl (FileNotFoundError (path_str p))
      else Inr (fs\<lparr>fs_dirs := dict_set p [] (dir_add_entry (butlast p) (last p) (fs_dirs fs))\<rparr>))"

text \<open>\<open>os.makedirs(p)\<close>: the missing ancestors are made first (a
  \<open>FileExistsError\<close> there is ignored), then \<open>p\<close> itself, which must not
  exist.\<close>

function fs_makedirs :: "fsys \<Rightarrow> path \<Rightarrow> fsys result" where
  "fs_makedirs fs p =
     (let head = butlast p in
      sbind (if head \<noteq> [] \<and> \<not> fs_exists fs head then
               (case fs_makedirs fs head of Inl (FileExistsError _) \<Rightarrow> Inr fs | r \<Rightarrow> r)
             else Inr fs)
            (\<lambda>fs1. fs_mkdir fs1 p))"
  by pat_completeness auto
termination
  by (relation "measure (\<lambda>(fs, p). length p)") (auto intro!: diff_less)

declare fs_makedirs.simps [simp del]

text \<open>\<open>open(p, 'w').write(c)\<close>, as \<open>shutil.copy2\<close> does on its destination.\<close>

definition fs_write_file :: "fsys \<Rightarrow> path \<Rightarrow> string \<Rightarrow> fsys result" where
  "fs_write_file fs p c =
     (if p \<noteq> [] \<and> last p = ''..'' then Inl (Unmodelled ''.. in a created path'')
      else if fs_is_dir fs p then Inl (IsADirectoryError (path_str p))
      else if fs_is_file fs (butlast p) then Inl (NotADirectoryError (path_str p))
      else if butlast p = [] \<or> \<not> fs_is_dir fs (butlast p) then Inl (FileNotFoundError (path_str p))
      else Inr \<lparr>fs_dirs = dir_add_entry (butlast p) (last p) (fs_dirs fs),
                fs_files = dict_set p c (fs_files fs)\<rparr>)"

text \<open>\<open>shutil.rmtree(p, ignore_errors=True)\<close>: a directory goes with
  everything below it; a file or a missing path is an error that is
  ignored.\<close>

definition fs_rmtree :: "fsys \<Rightarrow> path \<Rightarrow> fsys" where
  "fs_rmtree fs p =
     (if fs_is_dir fs p then
        \<lparr>fs_dirs = dir_remove_entry (butlast p) (last p) (filter (\<lambda>(q, _). \<not> prefix p q) (fs_dirs fs)),
         fs_files = filter (\<lambda>(q, _). \<not> prefix p q) (fs_files fs)\<rparr>
      else fs)"

text \<open>The tree of a repository as \<open>git clone\<close> leaves it, given as a file
  system rooted at \<open>/\<close>, placed at the directory \<open>dst\<close>: its entries replace
  whatever was below \<open>dst\<close>.\<close>

definition graft_key :: "path \<Rightarrow> (path \<times> 'v) \<Rightarrow> (path \<times> 'v)" where
  "graft_key dst e = (dst @ tl (fst e), snd e)"

definition fs_graft :: "fsys \<Rightarrow> path \<Rightarrow> fsys \<Rightarrow> fsys" where
  "fs_graft fs dst t =
     \<lparr>fs_dirs = map (graft_key dst) (fs_dirs t) @ filter (\<lambda>(q, _). \<not> prefix dst q) (fs_dirs fs),
      fs_files = map (graft_key dst) (fs_files t) @ filter (\<lambda>(q, _). \<not> prefix dst q) (fs_files fs)\<rparr>"

definition fs_tree :: "fsys \<Rightarrow> bool" where
  "fs_tree fs \<longleftrightarrow>
     list_all (\<lambda>q. \<not> fs_is_file fs q) (map fst (fs_dirs fs)) \<and>
     list_all (\<lambda>p. case map_of (fs_dirs fs) p of
                     Some ns \<Rightarrow> distinct ns \<and> list_all (\<lambda>n. entry_name_ok n \<and> fs_exists fs (p @ [n])) ns
                   | None \<Rightarrow> True) (map fst (fs_dirs fs)) \<and>
     list_all (\<lambda>q. q = [''/''] \<or>
                    (q \<noteq> [] \<and> (case map_of (fs_dirs fs) (butlast q) of
                                  Some ns \<Rightarrow> last q \<in> set ns | None \<Rightarrow> False)))
       (map fst (fs_dirs fs) @ map fst (fs_files fs))"

text \<open>Two file systems agree on the paths \<open>P\<close> holds for.\<close>

definition fs_agree :: "(path \<Rightarrow> bool) \<Rightarrow> fsys \<Rightarrow> fsys \<Rightarrow> bool" where
  "fs_agree P fs fs' \<longleftrightarrow>
     (\<forall>k. P k \<longrightarrow> map_of (fs_dirs fs') k = map_of (fs_dirs fs) k \<and> map_of (fs_files fs') k = map_of (fs_files fs) k)"

subsection \<open>The invariant through the tables\<close>

lemma list_all_keys: "list_all P (map fst xs) \<longleftrightarrow> (\<forall>q. map_of xs q \<noteq> None \<longrightarrow> P q)"
  by (auto simp: list_all_iff map_of_eq_None_iff)

lemma fs_tree_iff:
  "fs_tree fs \<longleftrightarrow>
     (\<forall>q. fs_is_dir fs q \<longrightarrow> \<not> fs_is_file fs q) \<and>
     (\<forall>p ns. map_of (fs_dirs fs) p = Some ns \<longrightarrow>
        distinct ns \<and> (\<forall>n\<in>set ns. entry_name_ok n \<and> fs_exists fs (p @ [n]))) \<and>
     (\<forall>q. fs_exists fs q \<longrightarrow>
        q = [''/''] \<or> (q \<noteq> [] \<and> (\<exists>ns. map_of (fs_dirs fs) (butlast q) = Some ns \<and> last q \<in> set ns)))"
proof -
  have c: "\<And>m P. (case m of Some ns \<Rightarrow> P ns | None \<Rightarrow> False) \<longleftrightarrow> (\<exists>ns. m = Some ns \<and> P ns)"
    and d: "\<And>m P. (case m of Some ns \<Rightarrow> P ns | None \<Rightarrow> True) \<longleftrightarrow> (\<forall>ns. m = Some ns \<longrightarrow> P ns)"
    by (auto split: option.split)
  show ?thesis
    unfolding fs_tree_def list_all_append list_all_keys c d
    unfolding fs_exists_def fs_is_dir_def by (simp add: list_all_iff) blast
qed

lemma butlast_neq [simp]: "xs \<noteq> [] \<Longrightarrow> butlast xs \<noteq> xs"
  by (cases xs rule: rev_cases) auto

lemma fs_tree_dir_not_file: "fs_tree fs \<Longrightarrow> fs_is_dir fs q \<Longrightarrow> \<not> fs_is_file fs q"
  by (simp add: fs_tree_iff)

lemma fs_tree_listed:
  "fs_tree fs \<Longrightarrow> map_of (fs_dirs fs) p = Some ns \<Longrightarrow> n \<in> set ns \<Longrightarrow> entry_name_ok n \<and> fs_exists fs (p @ [n])"
  by (simp add: fs_tree_iff)

lemma fs_tree_distinct: "fs_tree fs \<Longrightarrow> map_of (fs_dirs fs) p = Some ns \<Longrightarrow> distinct ns"
  by (simp add: fs_tree_iff)

lemma fs_tree_parent:
  "fs_tree fs \<Longrightarrow> fs_exists fs q \<Longrightarrow> q \<noteq> [''/''] \<Longrightarrow>
     q \<noteq> [] \<and> (\<exists>ns. map_of (fs_dirs fs) (butlast q) = Some ns \<and> last q \<in> set ns)"
  unfolding fs_tree_iff by blast

lemma map_of_dir_add_entry:
  "map_of (dir_add_entry p n ds) =
     (case map_of ds p of
        Some ns \<Rightarrow> (if n \<in> set ns then map_of ds else (map_of ds)(p \<mapsto> ns @ [n]))
      | None \<Rightarrow> map_of ds)"
  by (simp add: dir_add_entry_def split: option.split)

lemma map_of_dir_remove_entry:
  "map_of (dir_remove_entry p n ds) =
     (case map_of ds p of Some ns \<Rightarrow> (map_of ds)(p \<mapsto> remove1 n ns) | None \<Rightarrow> map_of ds)"
  by (simp add: dir_remove_entry_def split: option.split)

lemma map_of_filter_key:
  "map_of (filter (\<lambda>(q, _). P q) xs) k = (if P k then map_of xs k else None)"
  by (induction xs) auto

lemma map_of_graft_key:
  assumes "\<forall>q\<in>fst ` set xs. q \<noteq> [] \<and> hd q = ''/''"
  shows "map_of (map (graft_key dst) xs) k =
           (if prefix dst k then map_of xs (''/'' # drop (length dst) k) else None)"
  using assms
proof (induction xs)
  case Nil
  then show ?case by simp
next
  case (Cons e xs)
  obtain q v where e: "e = (q, v)" by fastforce
  with Cons.prems obtain r where q: "q = ''/'' # r" by (cases q) auto
  have "(dst @ r = k) \<longleftrightarrow> (prefix dst k \<and> ''/'' # drop (length dst) k = q)"
    by (auto simp: q prefix_def)
  with Cons show ?case by (auto simp: e q graft_key_def)
qed

subsection \<open>Every operation preserves the invariant\<close>

lemma fs_tree_add_leaf:
  assumes t: "fs_tree fs" and ok: "entry_name_ok (last p)" and p0: "butlast p \<noteq> []"
    and ne: "\<not> fs_exists fs p" and pa: "map_of (fs_dirs fs) (butlast p) = Some ns"
    and D': "map_of (fs_dirs fs') = (map_of (fs_dirs fs))(butlast p \<mapsto> ns @ [last p], p := d)"
    and F': "map_of (fs_files fs') = (map_of (fs_files fs))(p := f)"
    and one: "(d = None) \<noteq> (f = None)" and d: "d = None \<or> d = Some []"
  shows "fs_tree fs'"
proof -
  have pne: "p \<noteq> []" using p0 by auto
  have nin: "last p \<notin> set ns"
    using fs_tree_listed [OF t pa, of "last p"] ne by (auto simp: append_butlast_last_id [OF pne])
  define D where "D = map_of (fs_dirs fs)"
  define F where "F = map_of (fs_files fs)"
  have nf: "F p = None" and nd: "D p = None" using ne by (simp_all add: fs_exists_def D_def F_def)
  have ex': "fs_exists fs' x \<longleftrightarrow> (x = p \<or> fs_exists fs x)" for x
    using one pa by (auto simp: fs_exists_def D' F')
  have h1: "\<not> fs_is_file fs' q" if q: "fs_is_dir fs' q" for q
  proof (cases "q = p \<or> q = butlast p")
    case True
    then show ?thesis using q one nf fs_tree_dir_not_file [OF t, of "butlast p"] pa
      by (auto simp: fs_is_file_def fs_is_dir_def F' D')
  next
    case False
    then show ?thesis using q fs_tree_dir_not_file [OF t, of q]
      by (simp add: fs_is_file_def fs_is_dir_def F' D')
  qed
  have h2: "distinct ms \<and> (\<forall>n\<in>set ms. entry_name_ok n \<and> fs_exists fs' (q @ [n]))"
    if q: "map_of (fs_dirs fs') q = Some ms" for q ms
  proof -
    consider "q = p" | "q = butlast p" "q \<noteq> p" | "q \<noteq> p" "q \<noteq> butlast p" by blast
    then show ?thesis
    proof cases
      case 1
      then show ?thesis using q d by (auto simp: D')
    next
      case 2
      then have ms: "ms = ns @ [last p]" using q by (simp add: D')
      have "\<forall>n\<in>set ns. entry_name_ok n \<and> fs_exists fs' (q @ [n])"
        using fs_tree_listed [OF t pa] ex' 2 by blast
      moreover have "fs_exists fs' (q @ [last p])"
        using 2 ex' by (simp add: append_butlast_last_id [OF pne])
      ultimately show ?thesis using ms ok nin fs_tree_distinct [OF t pa] by auto
    next
      case 3
      then have "D q = Some ms" using q by (simp add: D' D_def)
      then show ?thesis using fs_tree_listed [OF t] fs_tree_distinct [OF t] ex'
        unfolding D_def by blast
    qed
  qed
  have h3: "q = [''/''] \<or> q \<noteq> [] \<and> (\<exists>ms. map_of (fs_dirs fs') (butlast q) = Some ms \<and> last q \<in> set ms)"
    if q: "fs_exists fs' q" for q
  proof (cases "q = p")
    case True
    then show ?thesis using pne p0 by (simp add: D')
  next
    case False
    then have "fs_exists fs q" using q ex' by blast
    from fs_tree_parent [OF t this] obtain ms where
      par: "q = [''/''] \<or> q \<noteq> [] \<and> D (butlast q) = Some ms \<and> last q \<in> set ms"
      unfolding D_def by blast
    moreover have "butlast q \<noteq> p" using nd pne par by auto
    ultimately show ?thesis using pa by (auto simp: D' D_def)
  qed
  show ?thesis unfolding fs_tree_iff using h1 h2 h3 by blast
qed

lemma fs_mkdir_tree:
  assumes t: "fs_tree fs" and ok: "entry_name_ok (last p)" and m: "fs_mkdir fs p = Inr fs'"
  shows "fs_tree fs'"
proof -
  from m obtain ns where p0: "butlast p \<noteq> []" and ne: "\<not> fs_exists fs p"
     and pa: "map_of (fs_dirs fs) (butlast p) = Some ns"
     and fs': "fs' = fs\<lparr>fs_dirs := dict_set p [] (dir_add_entry (butlast p) (last p) (fs_dirs fs))\<rparr>"
    by (auto simp: fs_mkdir_def fs_is_dir_def split: if_splits)
  have pne: "p \<noteq> []" using p0 by auto
  have nin: "last p \<notin> set ns"
    using fs_tree_listed [OF t pa, of "last p"] ne by (auto simp: append_butlast_last_id [OF pne])
  have nf: "map_of (fs_files fs) p = None" using ne by (simp add: fs_exists_def)
  show ?thesis
    by (rule fs_tree_add_leaf [OF t ok p0 ne pa, of _ "Some []" None])
       (simp_all add: fs' pa nin nf map_of_dir_add_entry fun_upd_idem)
qed

lemma fs_write_file_tree:
  assumes t: "fs_tree fs" and ok: "entry_name_ok (last p)" and m: "fs_write_file fs p c = Inr fs'"
  shows "fs_tree fs'"
proof -
  from m obtain ns where p0: "butlast p \<noteq> []" and nd: "\<not> fs_is_dir fs p"
     and pa: "map_of (fs_dirs fs) (butlast p) = Some ns"
     and fs': "fs' = \<lparr>fs_dirs = dir_add_entry (butlast p) (last p) (fs_dirs fs), fs_files = dict_set p c (fs_files fs)\<rparr>"
    by (auto simp: fs_write_file_def fs_is_dir_def split: if_splits)
  have pne: "p \<noteq> []" using p0 by auto
  show ?thesis
  proof (cases "fs_is_file fs p")
    case True
    have np: "p \<noteq> [''/'']" using p0 by (cases p) auto
    have "fs_exists fs p" using True by (simp add: fs_exists_def fs_is_file_def)
    from fs_tree_parent [OF t this np] pa have "last p \<in> set ns" by auto
    then have D': "fs_dirs fs' = fs_dirs fs" by (simp add: fs' dir_add_entry_def pa)
    have "fs_exists fs' = fs_exists fs" "fs_is_file fs' = fs_is_file fs" "fs_is_dir fs' = fs_is_dir fs"
      using True by (auto simp: fun_eq_iff fs_exists_def fs_is_file_def fs_is_dir_def D' fs'[THEN arg_cong[where f=fs_files]])
    then show ?thesis using t unfolding fs_tree_iff D' by simp
  next
    case False
    then have ne: "\<not> fs_exists fs p" using nd by (simp add: fs_exists_def fs_is_dir_def fs_is_file_def)
    have nin: "last p \<notin> set ns"
      using fs_tree_listed [OF t pa, of "last p"] ne by (auto simp: append_butlast_last_id [OF pne])
    have "map_of (fs_dirs fs) p = None" using nd by (simp add: fs_is_dir_def)
    then have "(map_of (fs_dirs fs))(butlast p \<mapsto> ns @ [last p], p := None) =
               (map_of (fs_dirs fs))(butlast p \<mapsto> ns @ [last p])"
      using pne by (simp add: fun_eq_iff)
    then show ?thesis
      by (intro fs_tree_add_leaf [OF t ok p0 ne pa, of _ None "Some c"])
         (simp_all add: fs' pa nin map_of_dir_add_entry)
  qed
qed

lemma last_in_tl: "butlast p \<noteq> [] \<Longrightarrow> last p \<in> set (tl p)"
  by (cases p) auto

lemma fs_mkdir_Inr_parent: "fs_mkdir fs p = Inr fs' \<Longrightarrow> butlast p \<noteq> []"
  by (auto simp: fs_mkdir_def split: if_splits)

lemma fs_makedirs_tree:
  "fs_tree fs \<Longrightarrow> list_all entry_name_ok (tl p) \<Longrightarrow> fs_makedirs fs p = Inr fs' \<Longrightarrow> fs_tree fs'"
proof (induction fs p arbitrary: fs' rule: fs_makedirs.induct)
  case (1 fs p)
  obtain fs1 where m1: "(if butlast p \<noteq> [] \<and> \<not> fs_exists fs (butlast p) then
               (case fs_makedirs fs (butlast p) of Inl (FileExistsError _) \<Rightarrow> Inr fs | r \<Rightarrow> r)
             else Inr fs) = Inr fs1" and m2: "fs_mkdir fs1 p = Inr fs'"
    using "1.prems"(3) by (subst (asm) fs_makedirs.simps) (auto simp: Let_def)
  have "list_all entry_name_ok (tl (butlast p))"
    using "1.prems"(2) by (cases p) (auto simp: list_all_iff dest: in_set_butlastD)
  then have t1: "fs_tree fs1"
    using m1 "1.IH" [OF _ _ "1.prems"(1)] "1.prems"(1)
    by (auto split: if_splits sum.splits py_error.splits)
  show ?case
    using fs_mkdir_tree [OF t1 _ m2] last_in_tl [OF fs_mkdir_Inr_parent [OF m2]] "1.prems"(2)
    by (simp add: list_all_iff)
qed

lemma prefix_butlast_self: "prefix (butlast q) q"
  by (cases q rule: rev_cases) auto

lemma fs_rmtree_tree:
  assumes t: "fs_tree fs"
  shows "fs_tree (fs_rmtree fs p)"
proof (cases "fs_is_dir fs p \<and> p \<noteq> []")
  case False
  show ?thesis
  proof (cases "fs_is_dir fs p")
    case True
    with False have "p = []" by blast
    then have "fs_rmtree fs p = \<lparr>fs_dirs = [], fs_files = []\<rparr>"
      using True by (simp add: fs_rmtree_def dir_remove_entry_def)
    then show ?thesis by (simp add: fs_tree_def)
  next
    case False
    then show ?thesis using t by (simp add: fs_rmtree_def)
  qed
next
  case True
  then have pne: "p \<noteq> []" and dp: "fs_is_dir fs p" by auto
  define D where "D = map_of (fs_dirs fs)"
  define F where "F = map_of (fs_files fs)"
  define R where "R x \<longleftrightarrow> \<not> prefix p x" for x
  let ?fs' = "fs_rmtree fs p"
  have Rb: "R (butlast p)" using pne
    by (auto simp: R_def dest: prefix_length_le) (metis butlast_neq prefix_order.antisym prefix_butlast_self)
  have F': "map_of (fs_files ?fs') x = (if R x then F x else None)" for x
    using dp by (simp add: fs_rmtree_def map_of_filter_key F_def R_def)
  have D': "map_of (fs_dirs ?fs') x =
      (if x = butlast p \<and> D x \<noteq> None then Some (remove1 (last p) (the (D x))) else if R x then D x else None)" for x
    using dp Rb by (auto simp: fs_rmtree_def map_of_dir_remove_entry map_of_filter_key D_def R_def split: option.split)
  have snoc: "R (q @ [n]) \<longleftrightarrow> R q \<and> p \<noteq> q @ [n]" for q n
    by (auto simp: R_def prefix_snoc)
  have pq: "p = q @ [n] \<longleftrightarrow> q = butlast p \<and> n = last p" for q n
    using pne by (cases p rule: rev_cases) auto
  have h1: "\<not> fs_is_file ?fs' q" if q: "fs_is_dir ?fs' q" for q
    using q fs_tree_dir_not_file [OF t, of q]
    by (auto simp: fs_is_dir_def fs_is_file_def D' F' D_def F_def split: if_splits)
  have h2: "distinct ms \<and> (\<forall>n\<in>set ms. entry_name_ok n \<and> fs_exists ?fs' (q @ [n]))"
    if q: "map_of (fs_dirs ?fs') q = Some ms" for q ms
  proof (cases "q = butlast p \<and> D q \<noteq> None")
    case True
    then obtain ns where ns: "D q = Some ns" and ms: "ms = remove1 (last p) ns" using q by (auto simp: D')
    have dn: "distinct ns" using fs_tree_distinct [OF t] ns by (simp add: D_def)
    have "entry_name_ok n \<and> fs_exists ?fs' (q @ [n])" if n: "n \<in> set ms" for n
    proof -
      have "n \<in> set ns" "n \<noteq> last p" using n dn by (simp_all add: ms)
      moreover have "R q" using True Rb by simp
      ultimately show ?thesis using fs_tree_listed [OF t, of q ns n] ns True pq [of q n] snoc [of q n]
        by (auto simp: fs_exists_def D' F' D_def F_def)
    qed
    then show ?thesis using dn ms by simp
  next
    case False
    then have Rq: "R q" and ms: "D q = Some ms" using q by (auto simp: D' split: if_splits)
    have "entry_name_ok n \<and> fs_exists ?fs' (q @ [n])" if n: "n \<in> set ms" for n
      using fs_tree_listed [OF t, of q ms n] n ms False Rq pq [of q n] snoc [of q n]
      by (auto simp: fs_exists_def D' F' D_def F_def)
    then show ?thesis using fs_tree_distinct [OF t, of q ms] ms by (simp add: D_def)
  qed
  have h3: "q = [''/''] \<or> q \<noteq> [] \<and> (\<exists>ms. map_of (fs_dirs ?fs') (butlast q) = Some ms \<and> last q \<in> set ms)"
    if q: "fs_exists ?fs' q" for q
  proof -
    have Rq: "R q" and ex: "fs_exists fs q" using q Rb
      by (auto simp: fs_exists_def D' F' D_def F_def split: if_splits)
    show ?thesis
    proof (cases "q = [''/'']")
      case False
      from fs_tree_parent [OF t ex False] obtain ms where
        qne: "q \<noteq> []" and ms: "D (butlast q) = Some ms" and lq: "last q \<in> set ms"
        by (auto simp: D_def)
      have Rbq: "R (butlast q)" using Rq prefix_butlast_self [of q]
        by (auto simp: R_def dest: prefix_order.trans)
      have "last q \<noteq> last p" if "butlast q = butlast p"
      proof
        assume "last q = last p"
        then have "q = p" using that qne pne by (metis append_butlast_last_id)
        then show False using Rq by (simp add: R_def)
      qed
      then show ?thesis using qne ms lq Rbq by (auto simp: D')
    qed simp
  qed
  show ?thesis unfolding fs_tree_iff using h1 h2 h3 by blast
qed

lemma fs_tree_rooted:
  assumes t: "fs_tree fs" shows "fs_exists fs q \<Longrightarrow> q \<noteq> [] \<and> hd q = ''/''"
proof (induction "length q" arbitrary: q rule: less_induct)
  case less
  show ?case
  proof (cases "q = [''/'']")
    case False
    from fs_tree_parent [OF t less.prems False] obtain ms where
      qne: "q \<noteq> []" and ms: "map_of (fs_dirs fs) (butlast q) = Some ms" by blast
    then have "fs_exists fs (butlast q)" by (simp add: fs_exists_def)
    moreover have "length (butlast q) < length q" using qne by simp
    ultimately have "butlast q \<noteq> [] \<and> hd (butlast q) = ''/''" using less.hyps by blast
    then show ?thesis using qne by (cases q rule: rev_cases) auto
  qed simp
qed

lemma map_of_fs_graft:
  assumes tt: "fs_tree tr"
  shows "map_of (fs_dirs (fs_graft fs dst tr)) k =
           (if prefix dst k then map_of (fs_dirs tr) (''/'' # drop (length dst) k) else map_of (fs_dirs fs) k)"
    and "map_of (fs_files (fs_graft fs dst tr)) k =
           (if prefix dst k then map_of (fs_files tr) (''/'' # drop (length dst) k) else map_of (fs_files fs) k)"
proof -
  have "\<forall>q\<in>fst ` set (fs_dirs tr). q \<noteq> [] \<and> hd q = ''/''"
    "\<forall>q\<in>fst ` set (fs_files tr). q \<noteq> [] \<and> hd q = ''/''"
    using fs_tree_rooted [OF tt] by (auto simp: fs_exists_def map_of_eq_None_iff)
  then show "map_of (fs_dirs (fs_graft fs dst tr)) k =
           (if prefix dst k then map_of (fs_dirs tr) (''/'' # drop (length dst) k) else map_of (fs_dirs fs) k)"
    and "map_of (fs_files (fs_graft fs dst tr)) k =
           (if prefix dst k then map_of (fs_files tr) (''/'' # drop (length dst) k) else map_of (fs_files fs) k)"
    by (simp_all add: fs_graft_def map_of_graft_key map_of_filter_key map_add_def split: option.split)
qed

lemma fs_graft_tree:
  assumes t: "fs_tree fs" and tt: "fs_tree tr" and root: "fs_is_dir tr [''/'']" and dst: "fs_is_dir fs dst"
  shows "fs_tree (fs_graft fs dst tr)"
proof -
  let ?g = "fs_graft fs dst tr"
  define \<tau> where "\<tau> k = ''/'' # drop (length dst) k" for k
  have D': "map_of (fs_dirs ?g) k = (if prefix dst k then map_of (fs_dirs tr) (\<tau> k) else map_of (fs_dirs fs) k)"
    and F': "map_of (fs_files ?g) k = (if prefix dst k then map_of (fs_files tr) (\<tau> k) else map_of (fs_files fs) k)"
    for k using map_of_fs_graft [OF tt] by (simp_all add: \<tau>_def)
  have E': "fs_exists ?g k \<longleftrightarrow> (if prefix dst k then fs_exists tr (\<tau> k) else fs_exists fs k)" for k
    by (simp add: fs_exists_def D' F')
  have \<tau>snoc: "prefix dst k \<Longrightarrow> \<tau> (k @ [n]) = \<tau> k @ [n]" for k n
    by (auto simp: \<tau>_def prefix_def)
  have snoc: "\<not> prefix dst k \<Longrightarrow> prefix dst (k @ [n]) \<longleftrightarrow> dst = k @ [n]" for k n
    by (auto simp: prefix_snoc)
  have \<tau>dst: "\<tau> dst = [''/'']" by (simp add: \<tau>_def)
  have h1: "\<not> fs_is_file ?g q" if q: "fs_is_dir ?g q" for q
    using q fs_tree_dir_not_file [OF t, of q] fs_tree_dir_not_file [OF tt, of "\<tau> q"]
    by (simp add: fs_is_dir_def fs_is_file_def D' F' split: if_splits)
  have h2: "distinct ms \<and> (\<forall>n\<in>set ms. entry_name_ok n \<and> fs_exists ?g (q @ [n]))"
    if q: "map_of (fs_dirs ?g) q = Some ms" for q ms
  proof (cases "prefix dst q")
    case True
    then have ms: "map_of (fs_dirs tr) (\<tau> q) = Some ms" using q by (simp add: D')
    have "prefix dst (q @ [n])" for n using True by (auto simp: prefix_def)
    then show ?thesis using fs_tree_listed [OF tt ms] fs_tree_distinct [OF tt ms] \<tau>snoc [OF True]
      by (simp add: E')
  next
    case False
    then have ms: "map_of (fs_dirs fs) q = Some ms" using q by (simp add: D')
    have "fs_exists ?g (q @ [n])" if "n \<in> set ms" for n
    proof (cases "prefix dst (q @ [n])")
      case True
      then have "q @ [n] = dst" using snoc [OF False, of n] by simp
      moreover have "fs_exists tr [''/'']" using root by (simp add: fs_exists_def fs_is_dir_def)
      ultimately show ?thesis using \<tau>dst E' [of dst] by simp
    next
      case False
      then show ?thesis using fs_tree_listed [OF t ms that] by (simp add: E')
    qed
    then show ?thesis using fs_tree_listed [OF t ms] fs_tree_distinct [OF t ms] by blast
  qed
  have h3: "q = [''/''] \<or> q \<noteq> [] \<and> (\<exists>ms. map_of (fs_dirs ?g) (butlast q) = Some ms \<and> last q \<in> set ms)"
    if q: "fs_exists ?g q" for q
  proof (cases "q = [''/'']")
    case False
    show ?thesis
    proof (cases "prefix dst q")
      case True
      then have ex: "fs_exists tr (\<tau> q)" using q by (simp add: E')
      show ?thesis
      proof (cases "q = dst")
        case True
        have "fs_exists fs dst" using dst by (simp add: fs_exists_def fs_is_dir_def)
        from fs_tree_parent [OF t this] False True obtain ms where
          "dst \<noteq> []" "map_of (fs_dirs fs) (butlast dst) = Some ms" "last dst \<in> set ms" by blast
        moreover have "\<not> prefix dst (butlast dst)" using \<open>dst \<noteq> []\<close>
          by (metis butlast_neq prefix_order.antisym prefix_butlast_self)
        ultimately show ?thesis using True by (simp add: D')
      next
        case False
        then obtain r where r: "q = dst @ r" "r \<noteq> []" using True by (auto simp: prefix_def)
        then have "\<tau> q \<noteq> [''/'']" by (simp add: \<tau>_def)
        from fs_tree_parent [OF tt ex this] obtain ms where
          "map_of (fs_dirs tr) (butlast (\<tau> q)) = Some ms" "last (\<tau> q) \<in> set ms" by blast
        moreover have "butlast (\<tau> q) = \<tau> (butlast q)" "last (\<tau> q) = last q" "prefix dst (butlast q)"
          using r by (simp_all add: \<tau>_def butlast_append)
        ultimately show ?thesis using r by (simp add: D')
      qed
    next
      case False
      then have ex: "fs_exists fs q" using q by (simp add: E')
      from fs_tree_parent [OF t ex \<open>q \<noteq> [''/'']\<close>] obtain ms where
        "q \<noteq> []" "map_of (fs_dirs fs) (butlast q) = Some ms" "last q \<in> set ms" by blast
      moreover have "\<not> prefix dst (butlast q)"
        using False prefix_butlast_self [of q] by (auto dest: prefix_order.trans)
      ultimately show ?thesis by (simp add: D')
    qed
  qed simp
  show ?thesis unfolding fs_tree_iff using h1 h2 h3 by blast
qed


subsection \<open>What each operation leaves alone\<close>

lemma fs_agree_refl [simp]: "fs_agree P fs fs"
  by (simp add: fs_agree_def)

lemma fs_agree_trans: "fs_agree P fs1 fs2 \<Longrightarrow> fs_agree P fs2 fs3 \<Longrightarrow> fs_agree P fs1 fs3"
  by (simp add: fs_agree_def)

lemma fs_agree_mono: "fs_agree P fs fs' \<Longrightarrow> (\<And>k. Q k \<Longrightarrow> P k) \<Longrightarrow> fs_agree Q fs fs'"
  by (simp add: fs_agree_def)

lemma fs_agreeD:
  "fs_agree P fs fs' \<Longrightarrow> P k \<Longrightarrow> map_of (fs_dirs fs') k = map_of (fs_dirs fs) k \<and> map_of (fs_files fs') k = map_of (fs_files fs) k"
  by (simp add: fs_agree_def)

lemma fs_mkdir_agree: "fs_mkdir fs p = Inr fs' \<Longrightarrow> fs_agree (\<lambda>k. \<not> prefix k p) fs fs'"
  by (auto simp: fs_mkdir_def fs_agree_def map_of_dir_add_entry prefix_butlast_self split: if_splits option.splits)

lemma fs_write_file_agree: "fs_write_file fs p c = Inr fs' \<Longrightarrow> fs_agree (\<lambda>k. \<not> prefix k p) fs fs'"
  by (auto simp: fs_write_file_def fs_agree_def map_of_dir_add_entry prefix_butlast_self split: if_splits option.splits)

lemma fs_makedirs_agree: "fs_makedirs fs p = Inr fs' \<Longrightarrow> fs_agree (\<lambda>k. \<not> prefix k p) fs fs'"
proof (induction fs p arbitrary: fs' rule: fs_makedirs.induct)
  case (1 fs p)
  obtain fs1 where m1: "(if butlast p \<noteq> [] \<and> \<not> fs_exists fs (butlast p) then
               (case fs_makedirs fs (butlast p) of Inl (FileExistsError _) \<Rightarrow> Inr fs | r \<Rightarrow> r)
             else Inr fs) = Inr fs1" and m2: "fs_mkdir fs1 p = Inr fs'"
    using "1.prems" by (subst (asm) fs_makedirs.simps) (auto simp: Let_def)
  have "fs_agree (\<lambda>k. \<not> prefix k (butlast p)) fs fs1"
    using m1 "1.IH" by (auto split: if_splits sum.splits py_error.splits)
  then have "fs_agree (\<lambda>k. \<not> prefix k p) fs fs1"
    by (rule fs_agree_mono) (metis prefix_butlast_self prefix_order.trans)
  then show ?case using fs_mkdir_agree [OF m2] by (rule fs_agree_trans)
qed

lemma fs_mkdir_exists: "fs_mkdir fs p = Inr fs' \<Longrightarrow> fs_exists fs k \<Longrightarrow> fs_exists fs' k"
  by (auto simp: fs_mkdir_def fs_exists_def map_of_dir_add_entry split: if_splits option.splits)

lemma prefix_snoc_prefix: "prefix (a @ [x]) k \<Longrightarrow> prefix a k"
  by (metis prefix_def append.assoc)

lemma outside_snoc:
  "\<not> prefix k dst \<and> \<not> prefix dst k \<Longrightarrow> \<not> prefix k (dst @ [x]) \<and> \<not> prefix (dst @ [x]) k"
  by (auto simp: prefix_snoc dest: prefix_snoc_prefix)

lemma fs_write_file_exists: "fs_write_file fs p c = Inr fs' \<Longrightarrow> fs_exists fs k \<Longrightarrow> fs_exists fs' k"
  by (auto simp: fs_write_file_def fs_exists_def map_of_dir_add_entry split: if_splits option.splits)

lemma fs_makedirs_exists: "fs_makedirs fs p = Inr fs' \<Longrightarrow> fs_exists fs k \<Longrightarrow> fs_exists fs' k"
proof (induction fs p arbitrary: fs' rule: fs_makedirs.induct)
  case (1 fs p)
  obtain fs1 where m1: "(if butlast p \<noteq> [] \<and> \<not> fs_exists fs (butlast p) then
               (case fs_makedirs fs (butlast p) of Inl (FileExistsError _) \<Rightarrow> Inr fs | r \<Rightarrow> r)
             else Inr fs) = Inr fs1" and m2: "fs_mkdir fs1 p = Inr fs'"
    using "1.prems"(1) by (subst (asm) fs_makedirs.simps) (auto simp: Let_def)
  have "fs_exists fs1 k"
    using m1 "1.IH" "1.prems"(2) by (auto split: if_splits sum.splits py_error.splits)
  then show ?case using fs_mkdir_exists [OF m2] by blast
qed

lemma list_all_tl_snoc: "list_all P (tl dst) \<Longrightarrow> P x \<Longrightarrow> list_all P (tl (dst @ [x]))"
  by (cases dst) auto

lemma fs_makedirs_Inr: "fs_makedirs fs p = Inr fs' \<Longrightarrow> \<not> fs_exists fs p \<and> p \<noteq> []"
proof (induction fs p arbitrary: fs' rule: fs_makedirs.induct)
  case (1 fs p)
  obtain fs1 where m1: "(if butlast p \<noteq> [] \<and> \<not> fs_exists fs (butlast p) then
               (case fs_makedirs fs (butlast p) of Inl (FileExistsError _) \<Rightarrow> Inr fs | r \<Rightarrow> r)
             else Inr fs) = Inr fs1" and m2: "fs_mkdir fs1 p = Inr fs'"
    using "1.prems"(1) by (subst (asm) fs_makedirs.simps) (auto simp: Let_def)
  have "fs_exists fs p \<Longrightarrow> fs_exists fs1 p"
    using m1 fs_makedirs_exists by (auto split: if_splits sum.splits py_error.splits)
  then show ?case using m2 by (auto simp: fs_mkdir_def split: if_splits)
qed

lemma fs_tree_ancestor:
  assumes t: "fs_tree fs"
  shows "fs_exists fs q \<Longrightarrow> prefix p q \<Longrightarrow> p \<noteq> q \<Longrightarrow> p \<noteq> [] \<Longrightarrow> fs_is_dir fs p"
proof (induction "length q" arbitrary: q rule: less_induct)
  case less
  have qne: "q \<noteq> []" using less.prems(2,3) by auto
  have "q \<noteq> [''/'']" using less.prems(2-4) by (auto simp: prefix_Cons)
  from fs_tree_parent [OF t less.prems(1) this] obtain ms where
    ms: "map_of (fs_dirs fs) (butlast q) = Some ms" by blast
  have pb: "prefix p (butlast q)" using less.prems(2,3) qne
    by (cases q rule: rev_cases) (auto simp: prefix_snoc)
  show ?case
  proof (cases "p = butlast q")
    case True
    then show ?thesis using ms by (simp add: fs_is_dir_def)
  next
    case False
    have "fs_exists fs (butlast q)" using ms by (simp add: fs_exists_def)
    then show ?thesis using less.hyps [of "butlast q"] qne pb False less.prems(4) by simp
  qed
qed

lemma subtree_outside:
  assumes a: "\<not> prefix src dst" "\<not> prefix dst src" "prefix src k"
  shows "\<not> prefix k (dst @ [x]) \<and> \<not> prefix (dst @ [x]) k"
proof (intro conjI notI)
  assume "prefix k (dst @ [x])"
  then have "prefix src (dst @ [x])" using a(3) by (rule prefix_order.trans[rotated])
  then show False using a(1,2) by (auto simp: prefix_snoc)
next
  assume "prefix (dst @ [x]) k"
  then have "prefix dst k" by (metis prefix_order.trans prefix_snoc prefix_order.refl)
  then show False using a prefix_same_cases by blast
qed

lemma prefix_snoc_snoc: "prefix (a @ [x]) (b @ [x]) \<Longrightarrow> prefix a b"
  by (auto simp: prefix_snoc dest: prefix_snoc_prefix)


subsection \<open>Below files, missing paths and listed children\<close>

lemma fs_tree_below_file:
  assumes t: "fs_tree fs" and f: "fs_is_file fs p"
  shows "\<not> fs_exists fs (p @ x # r)"
proof
  assume e: "fs_exists fs (p @ x # r)"
  have "p \<noteq> []" using fs_tree_rooted [OF t, of p] f by (auto simp: fs_exists_def fs_is_file_def)
  then have "fs_is_dir fs p" using fs_tree_ancestor [OF t e, of p] by simp
  then show False using fs_tree_dir_not_file [OF t] f by blast
qed

lemma fs_tree_below_missing:
  assumes t: "fs_tree fs" and m: "\<not> fs_exists fs p" and pne: "p \<noteq> []"
  shows "\<not> fs_exists fs (p @ x # r)"
proof
  assume e: "fs_exists fs (p @ x # r)"
  then have "fs_is_dir fs p" using fs_tree_ancestor [OF t e, of p] pne by simp
  then show False using m by (simp add: fs_exists_def fs_is_dir_def)
qed

lemma fs_tree_child_listed:
  assumes t: "fs_tree fs" and p: "map_of (fs_dirs fs) p = Some ns" and e: "fs_exists fs (p @ x # r)"
  shows "x \<in> set ns"
proof -
  have pne: "p \<noteq> []" using fs_tree_rooted [OF t, of p] p by (auto simp: fs_exists_def)
  have "fs_exists fs (p @ [x])"
  proof (cases r)
    case Nil then show ?thesis using e by simp
  next
    case (Cons y r')
    have "fs_is_dir fs (p @ [x])" using fs_tree_ancestor [OF t e, of "p @ [x]"] Cons by (simp add: prefix_def)
    then show ?thesis by (simp add: fs_exists_def fs_is_dir_def)
  qed
  moreover have "p @ [x] \<noteq> [''/'']" using pne by (cases p) auto
  ultimately show ?thesis using fs_tree_parent [OF t, of "p @ [x]"] p by auto
qed

lemma fs_mkdir_new:
  assumes t: "fs_tree fs" and pa: "map_of (fs_dirs fs) (butlast p) = Some ns" and b: "butlast p \<noteq> []"
    and ne: "\<not> fs_exists fs p" and l: "last p \<noteq> ''..''"
  shows "\<exists>fs'. fs_mkdir fs p = Inr fs' \<and>
           map_of (fs_dirs fs') = (map_of (fs_dirs fs))(butlast p \<mapsto> ns @ [last p], p \<mapsto> []) \<and>
           fs_files fs' = fs_files fs"
proof -
  have pne: "p \<noteq> []" using b by auto
  have nin: "last p \<notin> set ns"
    using fs_tree_listed [OF t pa, of "last p"] ne by (auto simp: append_butlast_last_id [OF pne])
  have "\<not> fs_is_file fs (butlast p)" using fs_tree_dir_not_file [OF t] pa by (simp add: fs_is_dir_def)
  then show ?thesis using pa b ne l pne nin
    by (simp add: fs_mkdir_def fs_is_dir_def map_of_dir_add_entry)
qed

lemma fs_makedirs_parent_dir:
  assumes "fs_is_dir fs (butlast p)" shows "fs_makedirs fs p = fs_mkdir fs p"
proof -
  have "fs_exists fs (butlast p)" using assms by (simp add: fs_exists_def fs_is_dir_def)
  then show ?thesis by (subst fs_makedirs.simps) (simp add: Let_def)
qed

lemma fs_write_file_new:
  assumes t: "fs_tree fs" and pa: "map_of (fs_dirs fs) (butlast p) = Some ns" and b: "butlast p \<noteq> []"
    and ne: "\<not> fs_exists fs p" and l: "last p \<noteq> ''..''"
  shows "\<exists>fs'. fs_write_file fs p c = Inr fs' \<and>
           map_of (fs_dirs fs') = (map_of (fs_dirs fs))(butlast p \<mapsto> ns @ [last p]) \<and>
           map_of (fs_files fs') = (map_of (fs_files fs))(p \<mapsto> c)"
proof -
  have pne: "p \<noteq> []" using b by auto
  have nin: "last p \<notin> set ns"
    using fs_tree_listed [OF t pa, of "last p"] ne by (auto simp: append_butlast_last_id [OF pne])
  have "\<not> fs_is_file fs (butlast p)" using fs_tree_dir_not_file [OF t] pa by (simp add: fs_is_dir_def)
  then show ?thesis using pa b ne l pne nin
    by (simp add: fs_write_file_def fs_is_dir_def fs_exists_def map_of_dir_add_entry)
qed

end
