(* ===== verification/Fnmatch.thy ===== *)
theory Fnmatch
  imports Prelude
begin

text \<open>
  Shell-style pattern matching as \<open>shutil.ignore_patterns\<close> uses it
  (\<open>fnmatch.filter\<close>, through \<open>fnmatch.translate\<close> and \<open>re\<close>). A pattern is
  read into tokens the way \<open>translate\<close> reads it (\<open>fm_tokens\<close>): \<open>*\<close>
  (consecutive stars merged), \<open>?\<close>, a bracket set \<open>[...]\<close> or \<open>[!...]\<close>
  whose closing bracket is searched from the character after an optional
  \<open>!\<close> and an optional first \<open>]\<close>, and any other character, literal; a
  \<open>[\<close> without a closing bracket is literal. Sets with a character range
  (\<open>-\<close>) yield \<open>Unmodelled\<close>. \<open>fm_match\<close> is the backtracking matcher of the
  whole name (\<open>(?s:...)\Z\<close>: \<open>*\<close> and \<open>?\<close> match any character, the
  separator and newlines included); \<open>fm_lang\<close> is the language of a token list,
  the reference the matcher is proved against.
\<close>

datatype fm_tok = FStar | FAny | FLit char | FSet bool "char list"

text \<open>The length of the set body \<open>pat[i:j]\<close> after a \<open>[\<close>, when it is
  closed.\<close>

definition bracket_end :: "string \<Rightarrow> nat option" where
  "bracket_end s =
     (let k0 = (if take 1 s = ''!'' then 1 else 0);
          k1 = (if k0 < length s \<and> s ! k0 = CHR '']'' then Suc k0 else k0);
          j = k1 + length (takeWhile (\<lambda>c. c \<noteq> CHR '']'') (drop k1 s))
      in if j < length s then Some j else None)"

function fm_tokens :: "string \<Rightarrow> fm_tok list result" where
  "fm_tokens [] = Inr []"
| "fm_tokens (c # s) =
     (if c = CHR ''*'' then
        sbind (fm_tokens s) (\<lambda>ts. Inr (case ts of FStar # _ \<Rightarrow> ts | _ \<Rightarrow> FStar # ts))
      else if c = CHR ''?'' then sbind (fm_tokens s) (\<lambda>ts. Inr (FAny # ts))
      else if c = CHR ''['' then
        (case bracket_end s of
           None \<Rightarrow> sbind (fm_tokens s) (\<lambda>ts. Inr (FLit c # ts))
         | Some j \<Rightarrow>
             (let stuff = take j s in
              if CHR ''-'' \<in> set stuff then Inl (Unmodelled ''character range in a pattern'')
              else sbind (fm_tokens (drop (Suc j) s)) (\<lambda>ts.
                     Inr ((if hd stuff = CHR ''!'' then FSet True (tl stuff) else FSet False stuff) # ts))))
      else sbind (fm_tokens s) (\<lambda>ts. Inr (FLit c # ts)))"
  by pat_completeness auto
termination
  by (relation "measure length") auto

declare fm_tokens.simps [simp del]

fun fm_match :: "fm_tok list \<Rightarrow> string \<Rightarrow> bool" where
  "fm_match [] s = (s = [])"
| "fm_match (FStar # ts) [] = fm_match ts []"
| "fm_match (FStar # ts) (c # s) = (fm_match ts (c # s) \<or> fm_match (FStar # ts) s)"
| "fm_match (FAny # ts) [] = False"
| "fm_match (FAny # ts) (c # s) = fm_match ts s"
| "fm_match (FLit d # ts) [] = False"
| "fm_match (FLit d # ts) (c # s) = (c = d \<and> fm_match ts s)"
| "fm_match (FSet neg cs # ts) [] = False"
| "fm_match (FSet neg cs # ts) (c # s) = ((c \<in> set cs) \<noteq> neg \<and> fm_match ts s)"

text \<open>\<open>fnmatch.fnmatchcase(name, pat)\<close>; on POSIX \<open>fnmatch\<close> is the same.\<close>

definition fnmatch :: "string \<Rightarrow> string \<Rightarrow> bool result" where
  "fnmatch name pat = sbind (fm_tokens pat) (\<lambda>ts. Inr (fm_match ts name))"

text \<open>\<open>shutil.ignore_patterns(*patterns)(path, names)\<close>: every pattern is
  compiled, and the names any of them matches are ignored.\<close>

definition ignore_patterns :: "string list \<Rightarrow> string list \<Rightarrow> string list result" where
  "ignore_patterns patterns names =
     sbind (map_res fm_tokens patterns) (\<lambda>tss. Inr (concat (map (\<lambda>ts. filter (fm_match ts) names) tss)))"

text \<open>The characters that \<open>translate\<close> reads as pattern syntax.\<close>

definition fm_meta :: "char \<Rightarrow> bool" where
  "fm_meta c \<longleftrightarrow> c = CHR ''*'' \<or> c = CHR ''?'' \<or> c = CHR ''[''"

text \<open>The reference: the strings a token list describes.\<close>

fun fm_lang :: "fm_tok list \<Rightarrow> string set" where
  "fm_lang [] = {[]}"
| "fm_lang (FStar # ts) = {u @ v |u v. v \<in> fm_lang ts}"
| "fm_lang (FAny # ts) = {c # v |c v. v \<in> fm_lang ts}"
| "fm_lang (FLit d # ts) = {d # v |v. v \<in> fm_lang ts}"
| "fm_lang (FSet neg cs # ts) = {c # v |c v. (c \<in> set cs) \<noteq> neg \<and> v \<in> fm_lang ts}"

subsection \<open>The matcher and its language\<close>

lemma fm_match_lang: "fm_match ts s \<longleftrightarrow> s \<in> fm_lang ts"
proof (induction ts s rule: fm_match.induct)
  case (3 ts c s)
  then show ?case by (auto simp: Cons_eq_append_conv)
qed auto

lemma fm_lang_append: "fm_lang (ts @ us) = {u @ v |u v. u \<in> fm_lang ts \<and> v \<in> fm_lang us}"
  by (induction ts rule: fm_lang.induct) (auto, (metis append.assoc append_Cons)+)

lemma fm_lang_last_lit: "s \<in> fm_lang (ts @ [FLit c]) \<Longrightarrow> s \<noteq> [] \<and> last s = c"
  by (auto simp: fm_lang_append)

lemma fm_tokens_plain: "\<not> list_ex fm_meta p \<Longrightarrow> fm_tokens p = Inr (map FLit p)"
  by (induction p) (auto simp: fm_tokens.simps fm_meta_def)

lemma fm_match_lits: "fm_match (map FLit p) s \<longleftrightarrow> s = p"
  by (induction p arbitrary: s) (auto elim: fm_match.elims)

lemma bracket_end_Some:
  assumes "bracket_end s = Some j" shows "j < length s \<and> s ! j = CHR '']''"
proof -
  define k0 where "k0 = (if take 1 s = ''!'' then 1 else (0::nat))"
  define k1 where "k1 = (if k0 < length s \<and> s ! k0 = CHR '']'' then Suc k0 else k0)"
  define m where "m = length (takeWhile (\<lambda>c. c \<noteq> CHR '']'') (drop k1 s))"
  have j: "j = k1 + m" and lt: "k1 + m < length s"
    using assms unfolding bracket_end_def Let_def k0_def [symmetric] k1_def [symmetric] m_def [symmetric]
    by (simp_all split: if_splits)
  then have "m < length (drop k1 s)" by simp
  then have "drop k1 s ! m = CHR '']''" unfolding m_def using nth_length_takeWhile by fastforce
  then show ?thesis using j lt by simp
qed

lemma fm_tokens_last_lit:
  assumes c: "c \<noteq> CHR '']''" "\<not> fm_meta c"
  shows "fm_tokens p = Inr ts \<Longrightarrow> p \<noteq> [] \<Longrightarrow> last p = c \<Longrightarrow> \<exists>us. ts = us @ [FLit c]"
proof (induction "length p" arbitrary: p ts rule: less_induct)
  case less
  then obtain c0 s where p: "p = c0 # s" by (cases p) auto
  show ?case
  proof (cases "s = []")
    case True
    then show ?thesis using less.prems c by (auto simp: p fm_tokens.simps fm_meta_def bracket_end_def)
  next
    case False
    then have ls: "last s = c" using less.prems(3) by (simp add: p)
    have ih: "\<exists>us. ts' = us @ [FLit c]" if "fm_tokens s' = Inr ts'" "s' \<noteq> []" "last s' = c" "length s' < length p" for s' ts'
      using less.hyps that by blast
    have ihs: "\<exists>us. ts' = us @ [FLit c]" if "fm_tokens s = Inr ts'" for ts'
      using ih [OF that False ls] by (simp add: p)
    consider "c0 = CHR ''*''" | "c0 = CHR ''?''" | "c0 = CHR ''[''" | "\<not> fm_meta c0"
      by (auto simp: fm_meta_def)
    then show ?thesis
    proof cases
      case 1
      from less.prems(1) obtain ts0 where t0: "fm_tokens s = Inr ts0"
        and ts: "ts = (case ts0 of FStar # _ \<Rightarrow> ts0 | _ \<Rightarrow> FStar # ts0)"
        by (auto simp: p fm_tokens.simps 1)
      have "ts = ts0 \<or> ts = FStar # ts0" unfolding ts by (auto split: list.split fm_tok.split)
      then show ?thesis using ihs [OF t0] by (metis append_Cons)
    next
      case 3
      show ?thesis
      proof (cases "bracket_end s")
        case None
        then show ?thesis using less.prems(1) ihs 3 by (auto simp: p fm_tokens.simps)
      next
        case (Some j)
        from bracket_end_Some [OF Some] have j: "j < length s" "s ! j = CHR '']''" by simp_all
        have "Suc j \<noteq> length s"
        proof
          assume "Suc j = length s"
          then have "last s = s ! j" using False by (simp add: last_conv_nth flip: \<open>Suc j = length s\<close>)
          then show False using ls j c by simp
        qed
        then have d: "drop (Suc j) s \<noteq> []" "last (drop (Suc j) s) = c" "length (drop (Suc j) s) < length p"
          using j ls by (auto simp: p)
        show ?thesis
          using less.prems(1) ih [OF _ d] 3 Some by (auto simp: p fm_tokens.simps Let_def split: if_splits)
      qed
    qed (use less.prems(1) ihs in \<open>auto simp: p fm_tokens.simps fm_meta_def\<close>)
  qed
qed

lemma fm_tokens_star_plain:
  "\<not> list_ex fm_meta s \<Longrightarrow> fm_tokens (CHR ''*'' # s) = Inr (FStar # map FLit s)"
  by (cases s) (simp_all add: fm_tokens.simps fm_tokens_plain fm_meta_def)

lemma fnmatch_plain: "\<not> list_ex fm_meta pat \<Longrightarrow> fnmatch name pat = Inr (name = pat)"
  by (simp add: fnmatch_def fm_tokens_plain fm_match_lits)

lemma fnmatch_star_suffix:
  "\<not> list_ex fm_meta s \<Longrightarrow> fnmatch name (CHR ''*'' # s) = Inr (endswith s name)"
proof -
  assume s: "\<not> list_ex fm_meta s"
  have "fm_lang (map FLit s) = {s}" using fm_match_lits [of s] fm_match_lang by blast
  then have "fm_match (FStar # map FLit s) name \<longleftrightarrow> endswith s name"
    by (auto simp: fm_match_lang endswith_iff)
  then show ?thesis by (simp add: fnmatch_def fm_tokens_star_plain [OF s])
qed

lemma fnmatch_trailing_slash:
  assumes "pat \<noteq> []" "last pat = CHR ''/''" "CHR ''/'' \<notin> set name"
  shows "fnmatch name pat \<noteq> Inr True"
proof
  assume m: "fnmatch name pat = Inr True"
  then obtain ts where ts: "fm_tokens pat = Inr ts" and "fm_match ts name"
    by (auto simp: fnmatch_def sbind_def split: sum.splits)
  then have "name \<in> fm_lang ts" by (simp add: fm_match_lang)
  moreover obtain us where "ts = us @ [FLit CHR ''/'']"
    using fm_tokens_last_lit [OF _ _ ts assms(1,2)] by (auto simp: fm_meta_def)
  ultimately have "name \<noteq> [] \<and> last name = CHR ''/''" using fm_lang_last_lit by blast
  then show False using assms(3) by (metis last_in_set)
qed

lemma ignore_patterns_iff:
  assumes "ignore_patterns pats names = Inr ign"
  shows "set ign = {n \<in> set names. \<exists>p\<in>set pats. fnmatch n p = Inr True}"
proof -
  from assms obtain tss where tss: "list_all2 (\<lambda>x y. fm_tokens x = Inr y) pats tss"
    and ign: "ign = concat (map (\<lambda>ts. filter (fm_match ts) names) tss)"
    by (auto simp: ignore_patterns_def map_res_Inr_iff)
  have "(\<exists>ts\<in>set tss. fm_match ts n) \<longleftrightarrow> (\<exists>p\<in>set pats. fnmatch n p = Inr True)" for n
    using tss by (induction pats tss rule: list_all2_induct) (auto simp: fnmatch_def)
  then show ?thesis by (auto simp: ign)
qed

end
