(* ===== verification/Download.thy ===== *)
theory Download
  imports Repository FileOps Fnmatch
begin

text \<open>
  RepositoryDownload: \<open>Repo.download\<close> and \<open>download_from_gh_main\<close> of
  \<open>src/pulp_docs/repository.py\<close>, with the parts of \<open>shutil\<close> they call.
  The file system is an explicit state (\<open>fsys\<close>) passed through every step
  and returned with the exception that stopped the step, if any, so that the
  changes made before an exception are kept, as they are on disk. What lies
  outside the machine is the environment \<open>dl_env\<close>: the repositories
  \<open>git clone\<close> can fetch, keyed by URL and branch, each given as the tree the
  clone leaves behind; \<open>tempfile.gettempdir()\<close>; and the current directory.
  \<open>shutil.copytree\<close> recurses into the directories of its source as it finds
  them; a destination inside the source can make that recursion grow without
  bound, so \<open>copy_dir\<close> takes fuel, and \<open>copy_fuel\<close>, one more than the
  longest directory path of the table, is proved enough whenever the
  destination is not inside the source; any larger fuel gives the same
  result.
\<close>

record dl_env =
  env_remotes :: "((string \<times> string) \<times> fsys) list"
  env_tempdir :: path
  env_cwd :: path

definition DOWNLOAD_CACHE_DIR :: "dl_env \<Rightarrow> path" where
  "DOWNLOAD_CACHE_DIR env = path_div (env_tempdir env) ''repo_downloads''"

subsection \<open>\<open>download_from_gh_main\<close>\<close>

definition gh_url :: "string \<Rightarrow> string \<Rightarrow> string" where
  "gh_url ow nm = ''https://github.com/'' @ ow @ ''/'' @ nm @ ''.git''"

text \<open>\<open>subprocess.run(("git", "clone", "--depth", "1", "--branch", branch,
  url, str(dest_dir)), check=True)\<close>: git fails when the branch cannot be
  fetched or the destination exists and is not an empty directory; it makes
  the missing leading directories itself.\<close>

definition download_from_gh_main ::
  "dl_env \<Rightarrow> fsys \<Rightarrow> path \<Rightarrow> string \<Rightarrow> string \<Rightarrow> string \<Rightarrow> fsys \<times> string result" where
  "download_from_gh_main env fs dest_dir ow nm br =
     (let url = gh_url ow nm;
          err = CalledProcessError (''git clone --depth 1 --branch '' @ br @ '' '' @ url @ '' '' @ path_str dest_dir)
      in case map_of (env_remotes env) (url, br) of
           None \<Rightarrow> (fs, Inl err)
         | Some tree \<Rightarrow>
             (if fs_is_file fs dest_dir \<or> (fs_is_dir fs dest_dir \<and> fs_listdir fs dest_dir \<noteq> Some []) then (fs, Inl err)
              else (case (if fs_is_dir fs dest_dir then Inr fs else fs_makedirs fs dest_dir) of
                      Inl _ \<Rightarrow> (fs, Inl err)
                    | Inr fs1 \<Rightarrow> (fs_graft fs1 dest_dir tree, Inr url))))"

subsection \<open>\<open>shutil.copytree\<close>\<close>

type_synonym copy_errors = "(string \<times> string \<times> py_error) list"

text \<open>\<open>copytree(src, dst, ignore=ignore_patterns(*pats))\<close> after its
  \<open>scandir\<close>: the ignored names, \<open>os.makedirs(dst)\<close>, then every entry in
  directory order. A directory is copied by a nested \<open>copytree\<close>, a file by
  \<open>copy2\<close>; an \<open>OSError\<close> of an entry and the errors of a nested
  \<open>shutil.Error\<close> are collected and the loop goes on. The result is the new
  file system with the collected errors, or the exception raised before
  anything was written. \<open>None\<close> is running out of fuel.\<close>

fun copy_dir :: "nat \<Rightarrow> string list \<Rightarrow> path \<Rightarrow> path \<Rightarrow> fsys \<Rightarrow> (fsys \<times> copy_errors) result option"
and copy_entries ::
  "nat \<Rightarrow> string list \<Rightarrow> path \<Rightarrow> path \<Rightarrow> string list \<Rightarrow> fsys \<Rightarrow> copy_errors \<Rightarrow> (fsys \<times> copy_errors) result option"
where
  "copy_dir 0 pats src dst fs = None"
| "copy_dir (Suc n) pats src dst fs =
     (case fs_listdir fs src of
        None \<Rightarrow> Some (Inl (if fs_is_file fs src then NotADirectoryError (path_str src)
                          else FileNotFoundError (path_str src)))
      | Some names \<Rightarrow>
          (case ignore_patterns pats names of
             Inl e \<Rightarrow> Some (Inl e)
           | Inr ignored \<Rightarrow>
               (case fs_makedirs fs dst of
                  Inl e \<Rightarrow> Some (Inl e)
                | Inr fs1 \<Rightarrow> copy_entries n pats src dst (filter (\<lambda>x. x \<notin> set ignored) names) fs1 [])))"
| "copy_entries n pats src dst [] fs errs = Some (Inr (fs, errs))"
| "copy_entries n pats src dst (x # xs) fs errs =
     (if fs_is_dir fs (src @ [x]) then
        (case copy_dir n pats (src @ [x]) (dst @ [x]) fs of
           None \<Rightarrow> None
         | Some (Inl e) \<Rightarrow>
             (if is_unmodelled e then Some (Inl e)
              else copy_entries n pats src dst xs fs (errs @ [(path_str (src @ [x]), path_str (dst @ [x]), e)]))
         | Some (Inr (fs', errs')) \<Rightarrow> copy_entries n pats src dst xs fs' (errs @ errs'))
      else
        (case map_of (fs_files fs) (src @ [x]) of
           None \<Rightarrow> copy_entries n pats src dst xs fs
                     (errs @ [(path_str (src @ [x]), path_str (dst @ [x]), FileNotFoundError (path_str (src @ [x])))])
         | Some c \<Rightarrow>
             (case fs_write_file fs (dst @ [x]) c of
                Inl e \<Rightarrow>
                  (if is_unmodelled e then Some (Inl e)
                   else copy_entries n pats src dst xs fs (errs @ [(path_str (src @ [x]), path_str (dst @ [x]), e)]))
              | Inr fs' \<Rightarrow> copy_entries n pats src dst xs fs' errs)))"

text \<open>\<open>shutil.copytree\<close> itself: collected errors are raised as
  \<open>shutil.Error\<close> once the loop is over, after the copies it made.\<close>

definition copytree :: "nat \<Rightarrow> string list \<Rightarrow> path \<Rightarrow> path \<Rightarrow> fsys \<Rightarrow> (fsys \<times> path result) option" where
  "copytree n pats src dst fs =
     map_option (\<lambda>r. case r of
                       Inl e \<Rightarrow> (fs, Inl e)
                     | Inr (fs', errs) \<Rightarrow> (if errs = [] then (fs', Inr dst) else (fs', Inl (ShutilError errs))))
       (copy_dir n pats src dst fs)"

definition copy_fuel :: "fsys \<Rightarrow> nat" where
  "copy_fuel fs = Suc (foldr max (map (\<lambda>(q, _). length q) (fs_dirs fs)) 0)"

text \<open>The specification of the copy: a name is ignored when a pattern
  matches it, a path below the source is copied when none of its parts is
  ignored, and the destination then holds exactly the copied part of the
  source, each directory listing the entries it kept in their order.\<close>

definition ignored_name :: "string list \<Rightarrow> string \<Rightarrow> bool" where
  "ignored_name pats n \<longleftrightarrow> (\<exists>p\<in>set pats. fnmatch n p = Inr True)"

definition kept_path :: "string list \<Rightarrow> string list \<Rightarrow> bool" where
  "kept_path pats r \<longleftrightarrow> list_all (\<lambda>n. \<not> ignored_name pats n) r"

definition copy_image :: "string list \<Rightarrow> path \<Rightarrow> path \<Rightarrow> fsys \<Rightarrow> fsys \<Rightarrow> bool" where
  "copy_image pats src dst fs fs' \<longleftrightarrow>
     (\<forall>r. map_of (fs_files fs') (dst @ r) = (if kept_path pats r then map_of (fs_files fs) (src @ r) else None) \<and>
          map_of (fs_dirs fs') (dst @ r) =
            (if kept_path pats r then map_option (filter (\<lambda>n. \<not> ignored_name pats n)) (map_of (fs_dirs fs) (src @ r))
             else None))"

subsection \<open>\<open>Repo.download\<close>\<close>

text \<open>The lines kept from \<open>.gitignore\<close>: \<open>[f for f in
  text.splitlines() if f and not f.startswith("#")]\<close>\<close>

definition gitignore_files :: "string \<Rightarrow> string list" where
  "gitignore_files txt = filter (\<lambda>f. f \<noteq> [] \<and> \<not> startswith ''#'' f) (splitlines txt)"

definition read_gitignore :: "fsys \<Rightarrow> path \<Rightarrow> string list result" where
  "read_gitignore fs src_copy_path =
     (let repo_gitignore = path_div src_copy_path ''.gitignore'' in
      if fs_exists fs repo_gitignore then sbind (read_text fs repo_gitignore) (\<lambda>txt. Inr (gitignore_files txt))
      else Inr [])"

text \<open>\<open>if clear_cache is True: shutil.rmtree(DOWNLOAD_CACHE_DIR,
  ignore_errors=True); DOWNLOAD_CACHE_DIR.mkdir()\<close>\<close>

definition clear_download_cache :: "dl_env \<Rightarrow> fsys \<Rightarrow> fsys \<times> fsys result" where
  "clear_download_cache env fs =
     (let fs0 = fs_rmtree fs (DOWNLOAD_CACHE_DIR env) in (fs0, fs_mkdir fs0 (DOWNLOAD_CACHE_DIR env)))"

text \<open>The choice of the source: the local checkout, the cache, or a fresh
  clone into the cache. The result is \<open>download_from\<close> as a string and
  \<open>src_copy_path\<close>.\<close>

definition download_origin ::
  "dl_env \<Rightarrow> fsys \<Rightarrow> repo \<Rightarrow> fsys \<times> repo \<times> (string \<times> path) result" where
  "download_origin env fs r =
     (let cached_repo = path_absolute (env_cwd env) (path_div (DOWNLOAD_CACHE_DIR env) (name r)) in
      case local_basepath r of
        Some lb \<Rightarrow>
          (let p = path_absolute (env_cwd env) (path_div lb (name r)) in (fs, r, Inr (path_str p, p)))
      | None \<Rightarrow>
          (if fs_exists fs cached_repo then
             (fs, r\<lparr>status := (status r)\<lparr>using_cache := True\<rparr>\<rparr>, Inr (path_str cached_repo, cached_repo))
           else
             (case download_from_gh_main env fs (path_div (DOWNLOAD_CACHE_DIR env) (name r)) (owner r) (name r) (branch r) of
                (fs2, Inl e) \<Rightarrow> (fs2, r, Inl e)
              | (fs2, Inr url) \<Rightarrow> (fs2, r, Inr (url, path_div (DOWNLOAD_CACHE_DIR env) (name r))))))"

definition download ::
  "dl_env \<Rightarrow> fsys \<Rightarrow> repo \<Rightarrow> path \<Rightarrow> bool \<Rightarrow> ((fsys \<times> repo) \<times> string result) option" where
  "download env fs r dest_dir clear_cache =
     (case (if clear_cache then clear_download_cache env fs else (fs, Inr fs)) of
        (fs0, Inl e) \<Rightarrow> Some ((fs0, r), Inl e)
      | (_, Inr fs1) \<Rightarrow>
          (case download_origin env fs1 r of
             (fs2, r2, Inl e) \<Rightarrow> Some ((fs2, r2), Inl e)
           | (fs2, r2, Inr (download_from, src_copy_path)) \<Rightarrow>
               (case read_gitignore fs2 src_copy_path of
                  Inl e \<Rightarrow> Some ((fs2, r2), Inl e)
                | Inr gitignore \<Rightarrow>
                    map_option
                      (\<lambda>(fs3, res). case res of
                          Inl e \<Rightarrow> ((fs3, r2), Inl e)
                        | Inr _ \<Rightarrow> ((fs3, r2\<lparr>status := (status r2)\<lparr>download_source := Some download_from\<rparr>\<rparr>),
                                   Inr download_from))
                      (copytree (copy_fuel fs2) gitignore src_copy_path dest_dir fs2))))"

text \<open>Example world for the witnesses: one remote repository
  \<open>pulp/core\<close> whose tree has a \<open>.gitignore\<close> with a comment, a file
  pattern and a directory entry, a temporary directory \<open>/tmp\<close> and a
  work directory \<open>/w\<close>.\<close>

definition core_remote_tree :: fsys where
  "core_remote_tree =
     \<lparr>fs_dirs = [([''/''], [''docs'', ''.gitignore'', ''build'']), ([''/'', ''docs''], [''a.md'', ''x.pyc'']),
                 ([''/'', ''build''], [''out.md''])],
      fs_files = [([''/'', ''.gitignore''], ''*.pyc\<newline>#comment\<newline>build/\<newline>''),
                  ([''/'', ''docs'', ''a.md''], ''A''), ([''/'', ''docs'', ''x.pyc''], ''X''),
                  ([''/'', ''build'', ''out.md''], ''B'')]\<rparr>"

definition download_fixture_env :: dl_env where
  "download_fixture_env =
     \<lparr>env_remotes = [((gh_url ''pulp'' ''core'', ''main''), core_remote_tree)],
      env_tempdir = [''/'', ''tmp''], env_cwd = [''/'', ''w'']\<rparr>"

definition download_fixture_fs :: fsys where
  "download_fixture_fs =
     \<lparr>fs_dirs = [([''/''], [''tmp'', ''w'']), ([''/'', ''tmp''], []), ([''/'', ''w''], [])], fs_files = []\<rparr>"

text \<open>A local checkout \<open>/src/core\<close> with a \<open>.gitignore\<close> and a work
  directory \<open>/w\<close>.\<close>

definition local_checkout_fs :: fsys where
  "local_checkout_fs =
     \<lparr>fs_dirs = [([''/''], [''src'', ''w'']), ([''/'', ''src''], [''core'']),
                 ([''/'', ''src'', ''core''], [''.gitignore'', ''docs'']),
                 ([''/'', ''src'', ''core'', ''docs''], [''a.md'', ''x.pyc'']), ([''/'', ''w''], [])],
      fs_files = [([''/'', ''src'', ''core'', ''.gitignore''], ''*.pyc\<newline>''),
                  ([''/'', ''src'', ''core'', ''docs'', ''a.md''], ''# A''),
                  ([''/'', ''src'', ''core'', ''docs'', ''x.pyc''], ''bytes'')]\<rparr>"

abbreviation fixture_download :: "repo \<Rightarrow> bool \<Rightarrow> ((fsys \<times> repo) \<times> string result) option" where
  "fixture_download r cc \<equiv> download download_fixture_env download_fixture_fs r [''/'', ''w'', ''core''] cc"

subsection \<open>The copy: frame, invariant and fuel\<close>

lemma copy_frame:
  "copy_dir n pats src dst fs = Some (Inr (fs', errs)) \<Longrightarrow> fs_agree (\<lambda>k. \<not> prefix k dst \<and> \<not> prefix dst k) fs fs'"
  "copy_entries n pats src dst xs fs errs = Some (Inr (fs', errs')) \<Longrightarrow> fs_agree (\<lambda>k. \<not> prefix k dst \<and> \<not> prefix dst k) fs fs'"
proof (induction n pats src dst fs and n pats src dst xs fs errs arbitrary: fs' errs and fs' errs' rule: copy_dir_copy_entries.induct)
  case (2 n pats src dst fs)
  then show ?case
    by (auto split: option.splits sum.splits intro: fs_agree_trans
        dest!: fs_makedirs_agree elim!: fs_agree_mono)
next
  case (4 n pats src dst x xs fs errs)
  show ?case
  proof (cases "fs_is_dir fs (src @ [x])")
    case True
    note ih = "4.IH"(1)[OF True] "4.IH"(2,3)[OF True]
    show ?thesis
    proof (cases "copy_dir n pats (src @ [x]) (dst @ [x]) fs")
      case (Some r)
      show ?thesis
      proof (cases r)
        case (Inl e)
        then show ?thesis using "4.prems" True Some ih by (auto split: if_splits)
      next
        case (Inr p)
        obtain fs1 e1 where p: "p = (fs1, e1)" by fastforce
        have "fs_agree (\<lambda>k. \<not> prefix k (dst @ [x]) \<and> \<not> prefix (dst @ [x]) k) fs fs1"
          using ih(1) Some Inr p by blast
        then have "fs_agree (\<lambda>k. \<not> prefix k dst \<and> \<not> prefix dst k) fs fs1"
          by (rule fs_agree_mono) (rule outside_snoc)
        moreover have "fs_agree (\<lambda>k. \<not> prefix k dst \<and> \<not> prefix dst k) fs1 fs'"
          using "4.prems" True Some Inr p ih(3) by auto
        ultimately show ?thesis by (rule fs_agree_trans)
      qed
    qed (use "4.prems" True in simp)
  next
    case False
    note ih = "4.IH"(4-6)[OF False]
    show ?thesis
    proof (cases "map_of (fs_files fs) (src @ [x])")
      case None
      then show ?thesis using "4.prems" False ih by auto
    next
      case (Some c)
      show ?thesis
      proof (cases "fs_write_file fs (dst @ [x]) c")
        case (Inl e)
        then show ?thesis using "4.prems" False Some ih by (auto split: if_splits)
      next
        case (Inr fs1)
        have "fs_agree (\<lambda>k. \<not> prefix k dst \<and> \<not> prefix dst k) fs fs1"
          using fs_write_file_agree [OF Inr] by (rule fs_agree_mono) (metis outside_snoc)
        moreover have "fs_agree (\<lambda>k. \<not> prefix k dst \<and> \<not> prefix dst k) fs1 fs'"
          using "4.prems" False Some Inr ih by auto
        ultimately show ?thesis by (rule fs_agree_trans)
      qed
    qed
  qed
qed simp_all

lemma copy_tree:
  "copy_dir n pats src dst fs = Some (Inr (fs', errs)) \<Longrightarrow> fs_tree fs \<Longrightarrow> list_all entry_name_ok (tl dst) \<Longrightarrow>
     fs_tree fs' \<and> (\<forall>k. fs_exists fs k \<longrightarrow> fs_exists fs' k)"
  "copy_entries n pats src dst xs fs errs = Some (Inr (fs', errs')) \<Longrightarrow> fs_tree fs \<Longrightarrow> list_all entry_name_ok (tl dst) \<Longrightarrow>
     list_all entry_name_ok xs \<Longrightarrow> fs_tree fs' \<and> (\<forall>k. fs_exists fs k \<longrightarrow> fs_exists fs' k)"
proof (induction n pats src dst fs and n pats src dst xs fs errs arbitrary: fs' errs and fs' errs' rule: copy_dir_copy_entries.induct)
  case (2 n pats src dst fs)
  then obtain names ign fs1 where l: "fs_listdir fs src = Some names" and i: "ignore_patterns pats names = Inr ign"
    and m: "fs_makedirs fs dst = Inr fs1"
    and c: "copy_entries n pats src dst (filter (\<lambda>x. x \<notin> set ign) names) fs1 [] = Some (Inr (fs', errs))"
    by (auto split: option.splits sum.splits)
  have t1: "fs_tree fs1" using fs_makedirs_tree [OF "2.prems"(2,3) m] .
  have "list_all entry_name_ok names" using fs_tree_listed [OF "2.prems"(2)] l
    by (auto simp: fs_listdir_def list_all_iff)
  then have "list_all entry_name_ok (filter (\<lambda>x. x \<notin> set ign) names)" by (simp add: list_all_iff)
  then show ?case using "2.IH" [OF l i m c t1 "2.prems"(3)] fs_makedirs_exists [OF m] by blast
next
  case (4 n pats src dst x xs fs errs)
  have ok: "entry_name_ok x" "list_all entry_name_ok xs" using "4.prems"(4) by simp_all
  have okd: "list_all entry_name_ok (tl (dst @ [x]))" using list_all_tl_snoc [OF "4.prems"(3) ok(1)] .
  show ?case
  proof (cases "fs_is_dir fs (src @ [x])")
    case True
    note ih = "4.IH"(1)[OF True] "4.IH"(2,3)[OF True]
    show ?thesis
    proof (cases "copy_dir n pats (src @ [x]) (dst @ [x]) fs")
      case (Some r)
      show ?thesis
      proof (cases r)
        case (Inl e)
        then show ?thesis using "4.prems" True Some ih(2) ok by (auto split: if_splits)
      next
        case (Inr p)
        obtain fs1 e1 where p: "p = (fs1, e1)" by fastforce
        have "fs_tree fs1 \<and> (\<forall>k. fs_exists fs k \<longrightarrow> fs_exists fs1 k)"
          using ih(1) [OF _ "4.prems"(2) okd] Some Inr p by blast
        moreover have "copy_entries n pats src dst xs fs1 (errs @ e1) = Some (Inr (fs', errs'))"
          using "4.prems"(1) True Some Inr p by simp
        ultimately show ?thesis using ih(3) [OF Some Inr p [symmetric]] "4.prems"(3) ok by blast
      qed
    qed (use "4.prems" True in simp)
  next
    case False
    note ih = "4.IH"(4-6)[OF False]
    show ?thesis
    proof (cases "map_of (fs_files fs) (src @ [x])")
      case None
      then show ?thesis using "4.prems" False ih(1) ok by auto
    next
      case (Some c)
      show ?thesis
      proof (cases "fs_write_file fs (dst @ [x]) c")
        case (Inl e)
        then show ?thesis using "4.prems" False Some ih(2) ok by (auto split: if_splits)
      next
        case (Inr fs1)
        have "fs_tree fs1" using fs_write_file_tree [OF "4.prems"(2) _ Inr] ok by simp
        moreover have "copy_entries n pats src dst xs fs1 errs = Some (Inr (fs', errs'))"
          using "4.prems"(1) False Some Inr by simp
        ultimately show ?thesis using ih(3) [OF Some Inr] "4.prems"(3) ok fs_write_file_exists [OF Inr] by blast
      qed
    qed
  qed
qed simp_all

lemma copy_some:
  "fs_tree fs \<Longrightarrow> list_all entry_name_ok (tl dst) \<Longrightarrow> \<not> prefix src dst \<Longrightarrow> 0 < n \<Longrightarrow>
     (\<forall>k. prefix src k \<longrightarrow> fs_is_dir fs k \<longrightarrow> length k < length src + n) \<Longrightarrow> copy_dir n pats src dst fs \<noteq> None"
  "fs_tree fs \<Longrightarrow> list_all entry_name_ok (tl dst) \<Longrightarrow> list_all entry_name_ok xs \<Longrightarrow>
     \<not> prefix src dst \<Longrightarrow> \<not> prefix dst src \<Longrightarrow>
     (\<forall>k. prefix src k \<longrightarrow> fs_is_dir fs k \<longrightarrow> length k < Suc (length src + n)) \<Longrightarrow>
     copy_entries n pats src dst xs fs errs \<noteq> None"
proof (induction n pats src dst fs and n pats src dst xs fs errs rule: copy_dir_copy_entries.induct)
  case (2 n pats src dst fs)
  show ?case
  proof (cases "fs_listdir fs src")
    case (Some names)
    show ?thesis
    proof (cases "ignore_patterns pats names")
      case (Inr ign)
      note i = Inr
      show ?thesis
      proof (cases "fs_makedirs fs dst")
        case (Inr fs1)
        have t1: "fs_tree fs1" using fs_makedirs_tree [OF "2.prems"(1,2) Inr] .
        have "list_all entry_name_ok names" using fs_tree_listed [OF "2.prems"(1)] Some
          by (auto simp: fs_listdir_def list_all_iff)
        then have ok: "list_all entry_name_ok (filter (\<lambda>x. x \<notin> set ign) names)" by (simp add: list_all_iff)
        have nd: "\<not> fs_exists fs dst" "dst \<noteq> []" using fs_makedirs_Inr [OF Inr] by simp_all
        have "fs_exists fs src" using Some by (simp add: fs_listdir_def fs_exists_def)
        then have dsrc: "\<not> prefix dst src"
          using fs_tree_ancestor [OF "2.prems"(1), of src dst] nd "2.prems"(3)
          by (auto simp: fs_exists_def fs_is_dir_def)
        have "fs_is_dir fs1 k \<longleftrightarrow> fs_is_dir fs k" if "prefix src k" for k
          using fs_agreeD [OF fs_makedirs_agree [OF Inr], of k] that "2.prems"(3)
          by (auto simp: fs_is_dir_def dest: prefix_order.trans)
        then have "\<forall>k. prefix src k \<longrightarrow> fs_is_dir fs1 k \<longrightarrow> length k < Suc (length src + n)"
          using "2.prems"(5) by auto
        then show ?thesis using "2.IH" [OF Some i Inr t1 "2.prems"(2) ok "2.prems"(3) dsrc]
          Some i Inr by simp
      qed (use Some i in simp)
    qed (use Some in simp)
  qed simp
next
  case (4 n pats src dst x xs fs errs)
  note t = "4.prems"(1) and od = "4.prems"(2) and d1 = "4.prems"(4) and d2 = "4.prems"(5) and bd = "4.prems"(6)
  have ok: "entry_name_ok x" and oxs: "list_all entry_name_ok xs" using "4.prems"(3) by simp_all
  have okd: "list_all entry_name_ok (tl (dst @ [x]))" using list_all_tl_snoc [OF od ok] .
  have keep: "\<forall>k. prefix src k \<longrightarrow> fs_is_dir fs' k \<longrightarrow> length k < Suc (length src + n)"
    if ag: "fs_agree (\<lambda>k. \<not> prefix k (dst @ [x]) \<and> \<not> prefix (dst @ [x]) k) fs fs'" for fs'
  proof (intro allI impI)
    fix k assume k: "prefix src k" "fs_is_dir fs' k"
    have "map_of (fs_dirs fs') k = map_of (fs_dirs fs) k"
      using fs_agreeD [OF ag subtree_outside [OF d1 d2 k(1)]] by blast
    then have "fs_is_dir fs k" using k(2) by (simp add: fs_is_dir_def)
    then show "length k < Suc (length src + n)" using bd k(1) by blast
  qed
  show ?case
  proof (cases "fs_is_dir fs (src @ [x])")
    case True
    have "\<not> prefix (src @ [x]) (dst @ [x])" using prefix_snoc_snoc [of src x dst] d1 by blast
    moreover have "0 < n" using bd [rule_format, of "src @ [x]"] True by simp
    moreover have "\<forall>k. prefix (src @ [x]) k \<longrightarrow> fs_is_dir fs k \<longrightarrow> length k < length (src @ [x]) + n"
    proof (intro allI impI)
      fix k assume "prefix (src @ [x]) k" "fs_is_dir fs k"
      then show "length k < length (src @ [x]) + n"
        using bd prefix_snoc_prefix by fastforce
    qed
    ultimately obtain r where r: "copy_dir n pats (src @ [x]) (dst @ [x]) fs = Some r"
      using "4.IH"(1) [OF True t okd] by blast
    show ?thesis
    proof (cases r)
      case (Inl e)
      show ?thesis
      proof (cases "is_unmodelled e")
        case False
        have "copy_entries n pats src dst xs fs (errs @ [(path_str (src @ [x]), path_str (dst @ [x]), e)]) \<noteq> None"
          by (rule "4.IH"(2) [OF True r Inl False t od oxs d1 d2 bd])
        then show ?thesis using True r Inl False by simp
      qed (use True r Inl in simp)
    next
      case (Inr p)
      obtain fs1 e1 where p: "p = (fs1, e1)" by fastforce
      have r1: "copy_dir n pats (src @ [x]) (dst @ [x]) fs = Some (Inr (fs1, e1))" using r Inr p by simp
      have t1: "fs_tree fs1" using copy_tree(1) [OF r1 t okd] by blast
      have "copy_entries n pats src dst xs fs1 (errs @ e1) \<noteq> None"
        by (rule "4.IH"(3) [OF True r Inr p [symmetric] t1 od oxs d1 d2 keep [OF copy_frame(1) [OF r1]]])
      then show ?thesis using True r1 by simp
    qed
  next
    case False
    show ?thesis
    proof (cases "map_of (fs_files fs) (src @ [x])")
      case None
      have "copy_entries n pats src dst xs fs
              (errs @ [(path_str (src @ [x]), path_str (dst @ [x]), FileNotFoundError (path_str (src @ [x])))]) \<noteq> None"
        by (rule "4.IH"(4) [OF False None t od oxs d1 d2 bd])
      then show ?thesis using False None by simp
    next
      case (Some c)
      show ?thesis
      proof (cases "fs_write_file fs (dst @ [x]) c")
        case (Inl e)
        show ?thesis
        proof (cases "is_unmodelled e")
          case nu: False
          have "copy_entries n pats src dst xs fs (errs @ [(path_str (src @ [x]), path_str (dst @ [x]), e)]) \<noteq> None"
            by (rule "4.IH"(5) [OF False Some Inl nu t od oxs d1 d2 bd])
          then show ?thesis using False Some Inl nu by simp
        qed (use False Some Inl in simp)
      next
        case (Inr fs1)
        have t1: "fs_tree fs1" using fs_write_file_tree [OF t _ Inr] ok by simp
        have ag: "fs_agree (\<lambda>k. \<not> prefix k (dst @ [x]) \<and> \<not> prefix (dst @ [x]) k) fs fs1"
          using fs_write_file_agree [OF Inr] by (rule fs_agree_mono) simp
        have "copy_entries n pats src dst xs fs1 errs \<noteq> None"
          by (rule "4.IH"(6) [OF False Some Inr t1 od oxs d1 d2 keep [OF ag]])
        then show ?thesis using False Some Inr by simp
      qed
    qed
  qed
qed simp_all


subsection \<open>The copy meets its specification\<close>

lemma copy_image_cong:
  assumes "copy_image pats src dst fs1 fs2"
    and "\<And>r. map_of (fs_dirs fs) (src @ r) = map_of (fs_dirs fs1) (src @ r) \<and> map_of (fs_files fs) (src @ r) = map_of (fs_files fs1) (src @ r)"
    and "\<And>r. map_of (fs_dirs fs') (dst @ r) = map_of (fs_dirs fs2) (dst @ r) \<and> map_of (fs_files fs') (dst @ r) = map_of (fs_files fs2) (dst @ r)"
  shows "copy_image pats src dst fs fs'"
  using assms unfolding copy_image_def by metis

lemma ignored_filter:
  "ignore_patterns pats names = Inr ign \<Longrightarrow>
     filter (\<lambda>x. x \<notin> set ign) names = filter (\<lambda>n. \<not> ignored_name pats n) names"
  by (auto simp: ignore_patterns_iff ignored_name_def intro: filter_cong)

lemma ignore_patterns_ok: "map_res fm_tokens pats = Inr tss \<Longrightarrow> \<exists>ign. ignore_patterns pats names = Inr ign"
  by (simp add: ignore_patterns_def)

lemma copy_spec:
  "copy_dir n pats src dst fs = Some res \<Longrightarrow> fs_tree fs \<Longrightarrow> fs_is_dir fs src \<Longrightarrow> \<not> fs_exists fs dst \<Longrightarrow>
     map_of (fs_dirs fs) (butlast dst) = Some ns \<Longrightarrow> butlast dst \<noteq> [] \<Longrightarrow> list_all entry_name_ok (tl dst) \<Longrightarrow>
     \<not> prefix src dst \<Longrightarrow> map_res fm_tokens pats = Inr tss \<Longrightarrow>
     \<exists>fs'. res = Inr (fs', []) \<and> copy_image pats src dst fs fs' \<and>
       map_of (fs_dirs fs') (butlast dst) = Some (ns @ [last dst]) \<and>
       fs_agree (\<lambda>k. \<not> prefix dst k \<and> k \<noteq> butlast dst) fs fs'"
  "copy_entries n pats src dst xs fs errs = Some res \<Longrightarrow> fs_tree fs \<Longrightarrow> map_of (fs_dirs fs) dst = Some L \<Longrightarrow>
     fs_is_dir fs src \<Longrightarrow> distinct xs \<Longrightarrow> set xs \<inter> set L = {} \<Longrightarrow>
     (\<forall>x\<in>set xs. \<not> fs_exists fs (dst @ [x]) \<and> fs_exists fs (src @ [x]) \<and> entry_name_ok x \<and> \<not> ignored_name pats x) \<Longrightarrow>
     \<not> prefix src dst \<Longrightarrow> \<not> prefix dst src \<Longrightarrow> dst \<noteq> [] \<Longrightarrow> list_all entry_name_ok (tl dst) \<Longrightarrow>
     map_res fm_tokens pats = Inr tss \<Longrightarrow>
     \<exists>fs'. res = Inr (fs', errs) \<and> map_of (fs_dirs fs') dst = Some (L @ xs) \<and>
       (\<forall>x\<in>set xs. copy_image pats (src @ [x]) (dst @ [x]) fs fs') \<and>
       fs_agree (\<lambda>k. k \<noteq> dst \<and> (\<forall>x\<in>set xs. \<not> prefix (dst @ [x]) k)) fs fs'"
proof (induction n pats src dst fs and n pats src dst xs fs errs arbitrary: res ns and res L rule: copy_dir_copy_entries.induct)
  case (2 n pats src dst fs)
  note t = "2.prems"(2) and sd = "2.prems"(3) and ne = "2.prems"(4) and pa = "2.prems"(5)
    and bne = "2.prems"(6) and od = "2.prems"(7) and d1 = "2.prems"(8) and tk = "2.prems"(9)
  obtain names where l: "fs_listdir fs src = Some names" using sd by (auto simp: fs_listdir_def fs_is_dir_def)
  obtain ign where i: "ignore_patterns pats names = Inr ign" using ignore_patterns_ok [OF tk] by blast
  have dne: "dst \<noteq> []" using bne by auto
  have okl: "entry_name_ok (last dst)" using od last_in_tl [OF bne] by (simp add: list_all_iff)
  then have lx: "last dst \<noteq> ''..''" by (simp add: entry_name_ok_def)
  obtain fs1 where m: "fs_mkdir fs dst = Inr fs1"
    and md: "map_of (fs_dirs fs1) = (map_of (fs_dirs fs))(butlast dst \<mapsto> ns @ [last dst], dst \<mapsto> [])"
    and mf: "fs_files fs1 = fs_files fs"
    using fs_mkdir_new [OF t pa bne ne lx] by blast
  have m': "fs_makedirs fs dst = Inr fs1"
    using m fs_makedirs_parent_dir [of fs dst] pa by (simp add: fs_is_dir_def)
  define xs where "xs = filter (\<lambda>x. x \<notin> set ign) names"
  have xs': "xs = filter (\<lambda>n. \<not> ignored_name pats n) names" using ignored_filter [OF i] by (simp add: xs_def)
  have ce: "copy_entries n pats src dst xs fs1 [] = Some res" using "2.prems"(1) l i m' by (simp add: xs_def)
  have t1: "fs_tree fs1" using fs_mkdir_tree [OF t okl m] .
  have dL: "map_of (fs_dirs fs1) dst = Some []" by (simp add: md)
  have nb: "k \<noteq> dst \<and> k \<noteq> butlast dst" if "prefix src k" for k
    using that d1 prefix_butlast_self [of dst] by (auto dest: prefix_order.trans)
  have same: "map_of (fs_dirs fs1) k = map_of (fs_dirs fs) k \<and> map_of (fs_files fs1) k = map_of (fs_files fs) k"
    if "k \<noteq> dst" "k \<noteq> butlast dst" for k using that by (simp add: md mf)
  have sd1: "fs_is_dir fs1 src" using sd same nb [of src] by (simp add: fs_is_dir_def)
  have lst: "map_of (fs_dirs fs) src = Some names" using l by (simp add: fs_listdir_def)
  have dn: "distinct names" using fs_tree_distinct [OF t lst] .
  have dxs: "distinct xs" using dn by (simp add: xs_def)
  have d2: "\<not> prefix dst src"
  proof
    assume "prefix dst src"
    moreover have "fs_exists fs src" using sd by (simp add: fs_exists_def fs_is_dir_def)
    moreover have "dst \<noteq> src" using d1 by auto
    ultimately have "fs_is_dir fs dst" using fs_tree_ancestor [OF t] dne by blast
    then show False using ne by (simp add: fs_exists_def fs_is_dir_def)
  qed
  have hx: "\<forall>x\<in>set xs. \<not> fs_exists fs1 (dst @ [x]) \<and> fs_exists fs1 (src @ [x]) \<and> entry_name_ok x \<and> \<not> ignored_name pats x"
  proof
    fix x assume x: "x \<in> set xs"
    then have xn: "x \<in> set names" "\<not> ignored_name pats x" by (simp_all add: xs')
    have "\<not> fs_exists fs (dst @ [x])" using fs_tree_below_missing [OF t ne dne, of x "[]"] by simp
    moreover have "dst @ [x] \<noteq> dst" by simp
    moreover have "dst @ [x] \<noteq> butlast dst"
    proof
      assume "dst @ [x] = butlast dst"
      then have "length (dst @ [x]) = length (butlast dst)" by (rule arg_cong)
      then show False by simp
    qed
    moreover have "entry_name_ok x \<and> fs_exists fs (src @ [x])" using fs_tree_listed [OF t lst xn(1)] .
    moreover have "src @ [x] \<noteq> dst \<and> src @ [x] \<noteq> butlast dst" using nb [of "src @ [x]"] by simp
    ultimately show "\<not> fs_exists fs1 (dst @ [x]) \<and> fs_exists fs1 (src @ [x]) \<and> entry_name_ok x \<and> \<not> ignored_name pats x"
      using same xn(2) by (simp add: fs_exists_def)
  qed
  have "\<exists>fs'. res = Inr (fs', []) \<and> map_of (fs_dirs fs') dst = Some ([] @ xs) \<and>
       (\<forall>x\<in>set xs. copy_image pats (src @ [x]) (dst @ [x]) fs1 fs') \<and>
       fs_agree (\<lambda>k. k \<noteq> dst \<and> (\<forall>x\<in>set xs. \<not> prefix (dst @ [x]) k)) fs1 fs'"
    by (rule "2.IH" [OF l i m', folded xs_def, OF ce t1 dL sd1 dxs _ hx d1 d2 dne od tk]) simp
  then obtain fs' where res: "res = Inr (fs', [])" and dL': "map_of (fs_dirs fs') dst = Some xs"
    and ims: "\<forall>x\<in>set xs. copy_image pats (src @ [x]) (dst @ [x]) fs1 fs'"
    and ag': "fs_agree (\<lambda>k. k \<noteq> dst \<and> (\<forall>x\<in>set xs. \<not> prefix (dst @ [x]) k)) fs1 fs'" by auto
  have okxs: "list_all entry_name_ok xs" using hx by (simp add: list_all_iff)
  have t': "fs_tree fs'" using copy_tree(2) [OF ce [unfolded res] t1 od okxs] by blast
  have out: "k \<noteq> dst \<and> (\<forall>x\<in>set xs. \<not> prefix (dst @ [x]) k)" if "\<not> prefix dst k" for k
    using that by (auto dest: prefix_snoc_prefix)
  have bout: "\<not> prefix dst (butlast dst)" using dne by (metis butlast_neq prefix_order.antisym prefix_butlast_self)
  have bl: "map_of (fs_dirs fs') (butlast dst) = Some (ns @ [last dst])"
    using fs_agreeD [OF ag' out [OF bout]] butlast_neq [OF dne] by (simp add: md)
  have ag: "fs_agree (\<lambda>k. \<not> prefix dst k \<and> k \<noteq> butlast dst) fs fs'"
  proof (rule fs_agree_trans [OF _ fs_agree_mono [OF ag']])
    show "fs_agree (\<lambda>k. \<not> prefix dst k \<and> k \<noteq> butlast dst) fs fs1"
      by (auto simp: fs_agree_def md mf)
  qed (use out in blast)
  have im: "copy_image pats src dst fs fs'"
    unfolding copy_image_def
  proof
    fix r
    show "map_of (fs_files fs') (dst @ r) = (if kept_path pats r then map_of (fs_files fs) (src @ r) else None) \<and>
          map_of (fs_dirs fs') (dst @ r) =
            (if kept_path pats r then map_option (filter (\<lambda>n. \<not> ignored_name pats n)) (map_of (fs_dirs fs) (src @ r))
             else None)"
    proof (cases r)
      case Nil
      have "map_of (fs_files fs') dst = None"
        using fs_tree_dir_not_file [OF t'] dL' by (simp add: fs_is_dir_def fs_is_file_def)
      moreover have "map_of (fs_files fs) src = None"
        using fs_tree_dir_not_file [OF t] sd by (simp add: fs_is_dir_def fs_is_file_def)
      ultimately show ?thesis using Nil dL' lst by (simp add: kept_path_def xs')
    next
      case (Cons x r')
      show ?thesis
      proof (cases "x \<in> set xs")
        case True
        then have kx: "\<not> ignored_name pats x" using hx by blast
        have srcx: "map_of (fs_dirs fs1) ((src @ [x]) @ r') = map_of (fs_dirs fs) ((src @ [x]) @ r') \<and>
                    map_of (fs_files fs1) ((src @ [x]) @ r') = map_of (fs_files fs) ((src @ [x]) @ r')"
          using same nb [of "src @ x # r'"] by simp
        from ims True have "copy_image pats (src @ [x]) (dst @ [x]) fs1 fs'" by blast
        then have "map_of (fs_files fs') ((dst @ [x]) @ r') =
              (if kept_path pats r' then map_of (fs_files fs1) ((src @ [x]) @ r') else None) \<and>
            map_of (fs_dirs fs') ((dst @ [x]) @ r') =
              (if kept_path pats r' then map_option (filter (\<lambda>n. \<not> ignored_name pats n)) (map_of (fs_dirs fs1) ((src @ [x]) @ r'))
               else None)"
          unfolding copy_image_def by blast
        then show ?thesis using Cons kx srcx by (simp add: kept_path_def)
      next
        case False
        have o: "dst @ x # r' \<noteq> dst \<and> (\<forall>y\<in>set xs. \<not> prefix (dst @ [y]) (dst @ x # r'))"
          using False by (auto simp: prefix_def)
        have o1: "dst @ x # r' \<noteq> butlast dst"
        proof
          assume "dst @ x # r' = butlast dst"
          then have "length (dst @ x # r') = length (butlast dst)" by (rule arg_cong)
          then show False by simp
        qed
        have none: "map_of (fs_dirs fs') (dst @ x # r') = None \<and> map_of (fs_files fs') (dst @ x # r') = None"
          using fs_agreeD [OF ag' o] same [of "dst @ x # r'"] o1 fs_tree_below_missing [OF t ne dne, of x r']
          by (simp add: fs_exists_def)
        show ?thesis
        proof (cases "x \<in> set names")
          case True
          then have "ignored_name pats x" using False by (simp add: xs')
          then show ?thesis using none Cons by (simp add: kept_path_def)
        next
          case nx: False
          have "\<not> fs_exists fs (src @ x # r')" using fs_tree_child_listed [OF t lst] nx by blast
          then show ?thesis using none Cons by (simp add: fs_exists_def)
        qed
      qed
    qed
  qed
  show ?case using res im bl ag by blast
next
  case (4 n pats src dst x xs fs errs)
  note t = "4.prems"(2) and dL = "4.prems"(3) and sd = "4.prems"(4) and dx = "4.prems"(5)
    and dj = "4.prems"(6) and d1 = "4.prems"(8) and d2 = "4.prems"(9) and dne = "4.prems"(10)
    and od = "4.prems"(11) and tk = "4.prems"(12)
  have hx: "\<not> fs_exists fs (dst @ [x])" "fs_exists fs (src @ [x])" "entry_name_ok x" "\<not> ignored_name pats x"
    using "4.prems"(7) by simp_all
  have hxs: "\<forall>y\<in>set xs. \<not> fs_exists fs (dst @ [y]) \<and> fs_exists fs (src @ [y]) \<and> entry_name_ok y \<and> \<not> ignored_name pats y"
    using "4.prems"(7) by simp
  have xnin: "x \<notin> set xs" "distinct xs" using dx by simp_all
  have xL: "set xs \<inter> set (L @ [x]) = {}" using dj xnin by auto
  have bdx: "butlast (dst @ [x]) = dst" "last (dst @ [x]) = x" by simp_all
  \<comment> \<open>what the step for \<open>x\<close> leaves alone keeps the hypotheses of the rest of the loop\<close>
  have rest: "fs_is_dir fs1 src \<and> (\<forall>y\<in>set xs. \<not> fs_exists fs1 (dst @ [y]) \<and> fs_exists fs1 (src @ [y]) \<and>
                entry_name_ok y \<and> \<not> ignored_name pats y) \<and>
              (\<forall>r. map_of (fs_dirs fs1) (src @ r) = map_of (fs_dirs fs) (src @ r) \<and>
                   map_of (fs_files fs1) (src @ r) = map_of (fs_files fs) (src @ r))"
    if ag: "fs_agree (\<lambda>k. \<not> prefix (dst @ [x]) k \<and> k \<noteq> dst) fs fs1" for fs1
  proof -
    have src_out: "\<not> prefix (dst @ [x]) (src @ r) \<and> src @ r \<noteq> dst" for r
      using subtree_outside [OF d1 d2, of "src @ r" x] d1 by auto
    have "map_of (fs_dirs fs1) (src @ r) = map_of (fs_dirs fs) (src @ r) \<and>
          map_of (fs_files fs1) (src @ r) = map_of (fs_files fs) (src @ r)" for r
      using fs_agreeD [OF ag src_out] by blast
    moreover have "\<not> prefix (dst @ [x]) (dst @ [y]) \<and> dst @ [y] \<noteq> dst" if "y \<in> set xs" for y
      using that xnin by auto
    ultimately show ?thesis using hxs sd fs_agreeD [OF ag]
      by (auto simp: fs_exists_def fs_is_dir_def) (metis append_Nil2)+
  qed
  \<comment> \<open>the rest of the loop, after the step for \<open>x\<close> produced \<open>fs1\<close>\<close>
  have finish: "\<exists>fs'. res = Inr (fs', errs) \<and> map_of (fs_dirs fs') dst = Some (L @ x # xs) \<and>
       (\<forall>y\<in>set (x # xs). copy_image pats (src @ [y]) (dst @ [y]) fs fs') \<and>
       fs_agree (\<lambda>k. k \<noteq> dst \<and> (\<forall>y\<in>set (x # xs). \<not> prefix (dst @ [y]) k)) fs fs'"
    if ag: "fs_agree (\<lambda>k. \<not> prefix (dst @ [x]) k \<and> k \<noteq> dst) fs fs1"
      and im: "copy_image pats (src @ [x]) (dst @ [x]) fs fs1"
      and d1L: "map_of (fs_dirs fs1) dst = Some (L @ [x])"
      and ih: "\<exists>fs'. res = Inr (fs', errs) \<and> map_of (fs_dirs fs') dst = Some ((L @ [x]) @ xs) \<and>
         (\<forall>y\<in>set xs. copy_image pats (src @ [y]) (dst @ [y]) fs1 fs') \<and>
         fs_agree (\<lambda>k. k \<noteq> dst \<and> (\<forall>y\<in>set xs. \<not> prefix (dst @ [y]) k)) fs1 fs'"
    for fs1
  proof -
    from ih obtain fs' where res: "res = Inr (fs', errs)" and dL': "map_of (fs_dirs fs') dst = Some ((L @ [x]) @ xs)"
      and ims: "\<forall>y\<in>set xs. copy_image pats (src @ [y]) (dst @ [y]) fs1 fs'"
      and ag': "fs_agree (\<lambda>k. k \<noteq> dst \<and> (\<forall>y\<in>set xs. \<not> prefix (dst @ [y]) k)) fs1 fs'" by blast
    have same: "\<forall>r. map_of (fs_dirs fs1) (src @ r) = map_of (fs_dirs fs) (src @ r) \<and>
                   map_of (fs_files fs1) (src @ r) = map_of (fs_files fs) (src @ r)"
      using rest [OF ag] by blast
    have imx: "copy_image pats (src @ [x]) (dst @ [x]) fs fs'"
    proof (rule copy_image_cong [OF im])
      fix r
      have "dst @ [x] @ r \<noteq> dst \<and> (\<forall>y\<in>set xs. \<not> prefix (dst @ [y]) (dst @ [x] @ r))"
        using xnin by (auto simp: prefix_def)
      then show "map_of (fs_dirs fs') ((dst @ [x]) @ r) = map_of (fs_dirs fs1) ((dst @ [x]) @ r) \<and>
                 map_of (fs_files fs') ((dst @ [x]) @ r) = map_of (fs_files fs1) ((dst @ [x]) @ r)"
        using fs_agreeD [OF ag'] by simp
    qed simp
    have imy: "copy_image pats (src @ [y]) (dst @ [y]) fs fs'" if y: "y \<in> set xs" for y
    proof (rule copy_image_cong [OF ims [rule_format, OF y]])
      fix r
      show "map_of (fs_dirs fs) ((src @ [y]) @ r) = map_of (fs_dirs fs1) ((src @ [y]) @ r) \<and>
            map_of (fs_files fs) ((src @ [y]) @ r) = map_of (fs_files fs1) ((src @ [y]) @ r)"
        using same [rule_format, of "[y] @ r"] by simp
    qed simp
    have a1: "fs_agree (\<lambda>k. k \<noteq> dst \<and> (\<forall>y\<in>set (x # xs). \<not> prefix (dst @ [y]) k)) fs fs1"
      by (rule fs_agree_mono [OF ag]) simp
    have a2: "fs_agree (\<lambda>k. k \<noteq> dst \<and> (\<forall>y\<in>set (x # xs). \<not> prefix (dst @ [y]) k)) fs1 fs'"
      by (rule fs_agree_mono [OF ag']) simp
    show ?thesis using res dL' imx imy fs_agree_trans [OF a1 a2] by simp
  qed
  have dLx: "map_of (fs_dirs fs) (butlast (dst @ [x])) = Some L" using dL by simp
  show ?case
  proof (cases "fs_is_dir fs (src @ [x])")
    case True
    have nsd: "\<not> prefix (src @ [x]) (dst @ [x])" using prefix_snoc_snoc [of src x dst] d1 by blast
    obtain r1 where r1: "copy_dir n pats (src @ [x]) (dst @ [x]) fs = Some r1"
      using "4.prems"(1) True by (cases "copy_dir n pats (src @ [x]) (dst @ [x]) fs") auto
    have odx: "list_all entry_name_ok (tl (dst @ [x]))" using list_all_tl_snoc [OF od hx(3)] .
    from "4.IH"(1) [OF True r1 t True hx(1) dLx _ odx nsd tk] dne
    obtain fs1 where r1': "r1 = Inr (fs1, [])" and im: "copy_image pats (src @ [x]) (dst @ [x]) fs fs1"
      and d1L: "map_of (fs_dirs fs1) dst = Some (L @ [x])"
      and ag: "fs_agree (\<lambda>k. \<not> prefix (dst @ [x]) k \<and> k \<noteq> dst) fs fs1" by auto
    have c: "copy_entries n pats src dst xs fs1 (errs @ []) = Some res" using "4.prems"(1) True r1 r1' by simp
    have t1: "fs_tree fs1" using copy_tree(1) [OF r1 [unfolded r1'] t odx] by blast
    have rs: "fs_is_dir fs1 src" "\<forall>y\<in>set xs. \<not> fs_exists fs1 (dst @ [y]) \<and> fs_exists fs1 (src @ [y]) \<and>
                entry_name_ok y \<and> \<not> ignored_name pats y" using rest [OF ag] by blast+
    have "\<exists>fs'. res = Inr (fs', errs @ []) \<and> map_of (fs_dirs fs') dst = Some ((L @ [x]) @ xs) \<and>
         (\<forall>y\<in>set xs. copy_image pats (src @ [y]) (dst @ [y]) fs1 fs') \<and>
         fs_agree (\<lambda>k. k \<noteq> dst \<and> (\<forall>y\<in>set xs. \<not> prefix (dst @ [y]) k)) fs1 fs'"
      by (rule "4.IH"(3) [OF True r1 r1' refl c t1 d1L rs(1) xnin(2) xL rs(2) d1 d2 dne od tk])
    then show ?thesis using finish [OF ag im d1L] by simp
  next
    case False
    have ex: "fs_exists fs (src @ [x])" by (rule hx(2))
    then obtain c where c: "map_of (fs_files fs) (src @ [x]) = Some c"
      using False by (auto simp: fs_exists_def fs_is_dir_def)
    have lx: "last (dst @ [x]) \<noteq> ''..''" using hx(3) by (simp add: entry_name_ok_def)
    obtain fs1 where w: "fs_write_file fs (dst @ [x]) c = Inr fs1"
      and wd: "map_of (fs_dirs fs1) = (map_of (fs_dirs fs))(dst \<mapsto> L @ [x])"
      and wf: "map_of (fs_files fs1) = (map_of (fs_files fs))(dst @ [x] \<mapsto> c)"
      using fs_write_file_new [OF t dLx _ hx(1) lx, of c] dne by auto
    have ag: "fs_agree (\<lambda>k. \<not> prefix (dst @ [x]) k \<and> k \<noteq> dst) fs fs1"
      by (auto simp: fs_agree_def wd wf)
    have d1L: "map_of (fs_dirs fs1) dst = Some (L @ [x])" by (simp add: wd)
    have im: "copy_image pats (src @ [x]) (dst @ [x]) fs fs1"
      unfolding copy_image_def
    proof
      fix r show "map_of (fs_files fs1) ((dst @ [x]) @ r) =
          (if kept_path pats r then map_of (fs_files fs) ((src @ [x]) @ r) else None) \<and>
        map_of (fs_dirs fs1) ((dst @ [x]) @ r) =
          (if kept_path pats r then map_option (filter (\<lambda>n. \<not> ignored_name pats n)) (map_of (fs_dirs fs) ((src @ [x]) @ r))
           else None)"
      proof (cases r)
        case Nil
        have "map_of (fs_dirs fs) (dst @ [x]) = None" "map_of (fs_dirs fs) (src @ [x]) = None"
          using hx(1) False by (simp_all add: fs_exists_def fs_is_dir_def)
        then show ?thesis using Nil c by (simp add: wd wf kept_path_def)
      next
        case (Cons y r')
        have "\<not> fs_exists fs ((dst @ [x]) @ y # r')" by (rule fs_tree_below_missing [OF t hx(1)]) simp
        moreover have "\<not> fs_exists fs ((src @ [x]) @ y # r')"
          by (rule fs_tree_below_file [OF t]) (use c in \<open>simp add: fs_is_file_def\<close>)
        ultimately show ?thesis using Cons by (simp add: wd wf fs_exists_def)
      qed
    qed
    have t1: "fs_tree fs1" using fs_write_file_tree [OF t _ w] hx(3) by simp
    have rs: "fs_is_dir fs1 src" "\<forall>y\<in>set xs. \<not> fs_exists fs1 (dst @ [y]) \<and> fs_exists fs1 (src @ [y]) \<and>
                entry_name_ok y \<and> \<not> ignored_name pats y" using rest [OF ag] by blast+
    have ce: "copy_entries n pats src dst xs fs1 errs = Some res" using "4.prems"(1) False c w by simp
    have "\<exists>fs'. res = Inr (fs', errs) \<and> map_of (fs_dirs fs') dst = Some ((L @ [x]) @ xs) \<and>
         (\<forall>y\<in>set xs. copy_image pats (src @ [y]) (dst @ [y]) fs1 fs') \<and>
         fs_agree (\<lambda>k. k \<noteq> dst \<and> (\<forall>y\<in>set xs. \<not> prefix (dst @ [y]) k)) fs1 fs'"
      by (rule "4.IH"(6) [OF False c w ce t1 d1L rs(1) xnin(2) xL rs(2) d1 d2 dne od tk])
    then show ?thesis using finish [OF ag im d1L] by simp
  qed
qed auto


subsection \<open>Termination of the copy and refinement of \<open>copytree\<close>\<close>

lemma foldr_max_ge: "x \<in> set xs \<Longrightarrow> x \<le> foldr max xs (0::nat)"
  by (induction xs) auto

lemma copy_fuel_bound: "fs_is_dir fs k \<Longrightarrow> length k < copy_fuel fs"
proof -
  assume "fs_is_dir fs k"
  then obtain ns where "(k, ns) \<in> set (fs_dirs fs)" by (auto simp: fs_is_dir_def dest: map_of_SomeD)
  then have "length k \<in> set (map (\<lambda>(q, _). length q) (fs_dirs fs))" by force
  then show ?thesis unfolding copy_fuel_def using foldr_max_ge by fastforce
qed

text \<open>With \<open>copy_fuel\<close>, the copy returns on a well-formed file system whenever the destination is not inside the source.\<close>

lemma copytree_terminates:
  assumes "fs_tree fs" "list_all entry_name_ok (tl dst)" "\<not> prefix src dst"
  shows "\<exists>r. copytree (copy_fuel fs) pats src dst fs = Some r"
proof -
  have "copy_dir (copy_fuel fs) pats src dst fs \<noteq> None"
    by (rule copy_some(1) [OF assms]) (auto simp: copy_fuel_def dest: copy_fuel_bound)
  then show ?thesis by (auto simp: copytree_def)
qed

text \<open>The fuel is only a bound: a copy that returns with some fuel returns
  the same with more.\<close>

lemma copy_dir_fuel_mono:
  "copy_dir n pats src dst fs = Some r \<Longrightarrow> n \<le> m \<Longrightarrow> copy_dir m pats src dst fs = Some r"
  "copy_entries n pats src dst xs fs errs = Some r \<Longrightarrow> n \<le> m \<Longrightarrow> copy_entries m pats src dst xs fs errs = Some r"
proof (induction n pats src dst fs and n pats src dst xs fs errs arbitrary: m r and m r rule: copy_dir_copy_entries.induct)
  case (2 n pats src dst fs)
  obtain m' where m: "m = Suc m'" and nm: "n \<le> m'" using "2.prems"(2) by (cases m) auto
  show ?case
  proof (cases "fs_listdir fs src")
    case (Some names)
    show ?thesis
    proof (cases "ignore_patterns pats names")
      case (Inr ign)
      show ?thesis
      proof (cases "fs_makedirs fs dst")
        case (Inr fs1)
        have "copy_entries n pats src dst (filter (\<lambda>x. x \<notin> set ign) names) fs1 [] = Some r"
          using "2.prems"(1) Some \<open>ignore_patterns pats names = Inr ign\<close> Inr by simp
        from "2.IH" [OF Some \<open>ignore_patterns pats names = Inr ign\<close> Inr this nm]
        show ?thesis using Some \<open>ignore_patterns pats names = Inr ign\<close> Inr by (simp add: m)
      qed (use "2.prems"(1) Some \<open>ignore_patterns pats names = Inr ign\<close> in \<open>simp add: m\<close>)
    qed (use "2.prems"(1) Some in \<open>simp add: m\<close>)
  qed (use "2.prems"(1) in \<open>simp add: m\<close>)
next
  case (4 n pats src dst x xs fs errs)
  show ?case
  proof (cases "fs_is_dir fs (src @ [x])")
    case True
    then obtain r1 where r1: "copy_dir n pats (src @ [x]) (dst @ [x]) fs = Some r1"
      using "4.prems"(1) by (cases "copy_dir n pats (src @ [x]) (dst @ [x]) fs") auto
    have r1m: "copy_dir m pats (src @ [x]) (dst @ [x]) fs = Some r1"
      by (rule "4.IH"(1) [OF True r1 "4.prems"(2)])
    show ?thesis
    proof (cases r1)
      case (Inl e)
      show ?thesis
      proof (cases "is_unmodelled e")
        case False
        have "copy_entries n pats src dst xs fs (errs @ [(path_str (src @ [x]), path_str (dst @ [x]), e)]) = Some r"
          using "4.prems"(1) True r1 Inl False by simp
        from "4.IH"(2) [OF True r1 Inl False this "4.prems"(2)]
        show ?thesis using True r1m Inl False by simp
      next
        case True
        have "r = Inl e" using "4.prems"(1) \<open>fs_is_dir fs (src @ [x])\<close> r1 Inl True by simp
        then show ?thesis using \<open>fs_is_dir fs (src @ [x])\<close> r1m Inl True by simp
      qed
    next
      case (Inr p)
      obtain fs1 e1 where p: "p = (fs1, e1)" by fastforce
      have "copy_entries n pats src dst xs fs1 (errs @ e1) = Some r"
        using "4.prems"(1) True r1 Inr p by simp
      from "4.IH"(3) [OF True r1 Inr p [symmetric] this "4.prems"(2)]
      show ?thesis using True r1m Inr p by simp
    qed
  next
    case False
    show ?thesis
    proof (cases "map_of (fs_files fs) (src @ [x])")
      case None
      let ?e = "[(path_str (src @ [x]), path_str (dst @ [x]), FileNotFoundError (path_str (src @ [x])))]"
      have "copy_entries n pats src dst xs fs (errs @ ?e) = Some r" using "4.prems"(1) False None by simp
      from "4.IH"(4) [OF False None this "4.prems"(2)] show ?thesis using False None by simp
    next
      case (Some c)
      show ?thesis
      proof (cases "fs_write_file fs (dst @ [x]) c")
        case (Inl e)
        show ?thesis
        proof (cases "is_unmodelled e")
          case u: False
          have "copy_entries n pats src dst xs fs (errs @ [(path_str (src @ [x]), path_str (dst @ [x]), e)]) = Some r"
            using "4.prems"(1) False Some Inl u by simp
          from "4.IH"(5) [OF False Some Inl u this "4.prems"(2)] show ?thesis using False Some Inl u by simp
        next
          case u: True
          have "r = Inl e" using "4.prems"(1) False Some Inl u by simp
          then show ?thesis using False Some Inl u by simp
        qed
      next
        case (Inr fs1)
        have "copy_entries n pats src dst xs fs1 errs = Some r" using "4.prems"(1) False Some Inr by simp
        from "4.IH"(6) [OF False Some Inr this "4.prems"(2)] show ?thesis using False Some Inr by simp
      qed
    qed
  qed
qed simp_all

text \<open>A copy that returns with some fuel returns the same with any larger fuel.\<close>

lemma copytree_fuel_mono:
  assumes c: "copytree n pats src dst fs = Some r" and nm: "n \<le> m"
  shows "copytree m pats src dst fs = Some r"
proof -
  obtain r0 where r0: "copy_dir n pats src dst fs = Some r0" using c by (auto simp: copytree_def)
  have "copy_dir m pats src dst fs = Some r0" by (rule copy_dir_fuel_mono(1) [OF r0 nm])
  then show ?thesis using c r0 by (simp add: copytree_def)
qed

text \<open>The copy refines \<open>copy_image\<close>: the destination holds exactly the kept part of the source, and nothing else changes but the parent of the destination.\<close>

lemma copytree_refines:
  assumes t: "fs_tree fs" and sd: "fs_is_dir fs src" and ne: "\<not> fs_exists fs dst"
    and pa: "fs_is_dir fs (butlast dst)" and b: "butlast dst \<noteq> []" and od: "list_all entry_name_ok (tl dst)"
    and d1: "\<not> prefix src dst" and tk: "map_res fm_tokens pats = Inr tss"
  shows "\<exists>fs'. copytree (copy_fuel fs) pats src dst fs = Some (fs', Inr dst) \<and> copy_image pats src dst fs fs' \<and>
           fs_agree (\<lambda>k. \<not> prefix dst k \<and> k \<noteq> butlast dst) fs fs'"
proof -
  obtain ns where ns: "map_of (fs_dirs fs) (butlast dst) = Some ns" using pa by (auto simp: fs_is_dir_def)
  have "copy_dir (copy_fuel fs) pats src dst fs \<noteq> None"
    by (rule copy_some(1) [OF t od d1]) (auto simp: copy_fuel_def dest: copy_fuel_bound)
  then obtain res where r: "copy_dir (copy_fuel fs) pats src dst fs = Some res" by blast
  from copy_spec(1) [OF r t sd ne ns b od d1 tk] obtain fs' where "res = Inr (fs', [])"
    "copy_image pats src dst fs fs'" "fs_agree (\<lambda>k. \<not> prefix dst k \<and> k \<noteq> butlast dst) fs fs'" by blast
  then show ?thesis using r by (simp add: copytree_def)
qed


subsection \<open>What the copy and the clone keep\<close>

lemma copy_exists:
  "copy_dir n pats src dst fs = Some (Inr (fs', errs)) \<Longrightarrow> fs_exists fs k \<Longrightarrow> fs_exists fs' k"
  "copy_entries n pats src dst xs fs errs = Some (Inr (fs', errs')) \<Longrightarrow> fs_exists fs k \<Longrightarrow> fs_exists fs' k"
proof (induction n pats src dst fs and n pats src dst xs fs errs arbitrary: fs' errs and fs' errs' rule: copy_dir_copy_entries.induct)
  case (2 n pats src dst fs)
  then show ?case by (auto split: option.splits sum.splits dest: fs_makedirs_exists)
next
  case (4 n pats src dst x xs fs errs)
  show ?case
  proof (cases "fs_is_dir fs (src @ [x])")
    case True
    show ?thesis
    proof (cases "copy_dir n pats (src @ [x]) (dst @ [x]) fs")
      case (Some r)
      show ?thesis
      proof (cases r)
        case (Inl e)
        then show ?thesis using "4.prems" True Some "4.IH"(2) by (auto split: if_splits)
      next
        case (Inr p)
        obtain fs1 e1 where p: "p = (fs1, e1)" by fastforce
        have "fs_exists fs1 k" using "4.IH"(1) [OF True] Some Inr p "4.prems"(2) by blast
        then show ?thesis using "4.prems"(1) True Some Inr p "4.IH"(3) [OF True Some Inr p [symmetric]] by simp
      qed
    qed (use "4.prems" True in simp)
  next
    case False
    show ?thesis
    proof (cases "map_of (fs_files fs) (src @ [x])")
      case None
      then show ?thesis using "4.prems" False "4.IH"(4) by auto
    next
      case (Some c)
      show ?thesis
      proof (cases "fs_write_file fs (dst @ [x]) c")
        case (Inl e)
        then show ?thesis using "4.prems" False Some "4.IH"(5) by (auto split: if_splits)
      next
        case (Inr fs1)
        have "fs_exists fs1 k" using fs_write_file_exists [OF Inr "4.prems"(2)] .
        then show ?thesis using "4.prems"(1) False Some Inr "4.IH"(6) [OF False Some Inr] by simp
      qed
    qed
  qed
qed simp_all

lemma copytree_Inr:
  "copytree n pats src dst fs = Some (fs', Inr d) \<Longrightarrow> copy_dir n pats src dst fs = Some (Inr (fs', [])) \<and> d = dst"
proof (cases "copy_dir n pats src dst fs")
  case (Some r)
  then show "copytree n pats src dst fs = Some (fs', Inr d) \<Longrightarrow> ?thesis"
    by (cases r) (auto simp: copytree_def split: if_splits)
qed (simp add: copytree_def)

lemma copytree_exists:
  "copytree n pats src dst fs = Some (fs', Inr d) \<Longrightarrow> fs_exists fs k \<Longrightarrow> fs_exists fs' k"
  using copytree_Inr copy_exists(1) by blast

lemma is_absolute_path_div: "is_absolute p \<Longrightarrow> is_absolute (path_div p s)"
  by (cases p) (auto simp: path_div_def path_parts_def path_root_def is_absolute_def is_root_part_def split: if_splits)

lemma fs_graft_root: "fs_is_dir t [''/''] \<Longrightarrow> fs_is_dir (fs_graft fs dst t) dst"
proof -
  assume "fs_is_dir t [''/'']"
  then obtain ns where "([''/''], ns) \<in> set (fs_dirs t)" by (auto simp: fs_is_dir_def dest: map_of_SomeD)
  then have "(dst, ns) \<in> set (fs_dirs (fs_graft fs dst t))"
    by (force simp: fs_graft_def graft_key_def)
  then have "dst \<in> fst ` set (fs_dirs (fs_graft fs dst t))" by (rule rev_image_eqI) simp
  then show ?thesis by (simp add: fs_is_dir_def map_of_eq_None_iff)
qed

lemma download_from_gh_main_Inr:
  "download_from_gh_main env fs d ow nm br = (fs', Inr url) \<Longrightarrow>
     \<exists>t. map_of (env_remotes env) (gh_url ow nm, br) = Some t \<and> url = gh_url ow nm \<and>
         (\<exists>fs1. (if fs_is_dir fs d then Inr fs else fs_makedirs fs d) = Inr fs1 \<and> fs' = fs_graft fs1 d t)"
  by (auto simp: download_from_gh_main_def Let_def split: option.splits if_splits sum.splits)


subsection \<open>The download pipeline and the cache\<close>

lemma download_Inr:
  assumes "download env fs r dst cc = Some ((fs', r'), Inr s)"
  shows "\<exists>x fs1 fs2 r2 src pats. (if cc then clear_download_cache env fs else (fs, Inr fs)) = (x, Inr fs1) \<and>
           download_origin env fs1 r = (fs2, r2, Inr (s, src)) \<and> read_gitignore fs2 src = Inr pats \<and>
           copytree (copy_fuel fs2) pats src dst fs2 = Some (fs', Inr dst) \<and>
           r' = r2\<lparr>status := (status r2)\<lparr>download_source := Some s\<rparr>\<rparr>"
proof -
  obtain x y where c: "(if cc then clear_download_cache env fs else (fs, Inr fs)) = (x, y)" by fastforce
  obtain fs1 where y: "y = Inr fs1" using assms c by (cases y) (auto simp: download_def)
  obtain fs2 r2 org where org: "download_origin env fs1 r = (fs2, r2, org)" by (cases "download_origin env fs1 r") auto
  obtain s0 src where org': "org = Inr (s0, src)" using assms c y org by (cases org) (auto simp: download_def)
  obtain pats where g: "read_gitignore fs2 src = Inr pats"
    using assms c y org org' by (cases "read_gitignore fs2 src") (auto simp: download_def)
  obtain fs3 res where ct: "copytree (copy_fuel fs2) pats src dst fs2 = Some (fs3, res)"
    using assms c y org org' g by (cases "copytree (copy_fuel fs2) pats src dst fs2") (auto simp: download_def)
  obtain d where res: "res = Inr d" using assms c y org org' g ct by (cases res) (auto simp: download_def)
  have eq: "fs3 = fs'" "s0 = s" "r' = r2\<lparr>status := (status r2)\<lparr>download_source := Some s\<rparr>\<rparr>"
    using assms c y org org' g ct res by (auto simp: download_def)
  have "d = dst" using copytree_Inr [OF ct [unfolded res eq(1)]] by simp
  then show ?thesis using c y org org' g ct res eq by blast
qed

lemma download_origin_cached:
  assumes "local_basepath r = None" "is_absolute (env_tempdir env)"
    and "fs_exists fs (path_div (DOWNLOAD_CACHE_DIR env) (name r))"
  shows "download_origin env fs r =
           (fs, r\<lparr>status := (status r)\<lparr>using_cache := True\<rparr>\<rparr>,
            Inr (path_str (path_div (DOWNLOAD_CACHE_DIR env) (name r)), path_div (DOWNLOAD_CACHE_DIR env) (name r)))"
proof -
  have "is_absolute (path_div (DOWNLOAD_CACHE_DIR env) (name r))"
    using assms(2) by (simp add: DOWNLOAD_CACHE_DIR_def is_absolute_path_div)
  then show ?thesis using assms by (simp add: download_origin_def Let_def path_absolute_def)
qed

text \<open>C23: After a successful download of a repository without a local base path, the next download of any repository of the same name finds it in DOWNLOAD_CACHE_DIR, does not clone again, sets status.using_cache and copies from the cached directory.\<close>

theorem download_then_cache_hit:
  assumes d: "download env fs r dst cc = Some ((fs', r'), Inr s)" and lb: "local_basepath r = None"
    and abs: "is_absolute (env_tempdir env)" and roots: "\<forall>(k, t) \<in> set (env_remotes env). fs_is_dir t [''/'']"
    and r2: "name r2 = name r" "local_basepath r2 = None"
  shows "download_origin env fs' r2 =
           (fs', r2\<lparr>status := (status r2)\<lparr>using_cache := True\<rparr>\<rparr>,
            Inr (path_str (path_div (DOWNLOAD_CACHE_DIR env) (name r)), path_div (DOWNLOAD_CACHE_DIR env) (name r)))"
proof -
  let ?c = "path_div (DOWNLOAD_CACHE_DIR env) (name r)"
  from download_Inr [OF d] obtain x fs1 fs2 r3 src pats where
    ds: "download_origin env fs1 r = (fs2, r3, Inr (s, src))"
    and ct: "copytree (copy_fuel fs2) pats src dst fs2 = Some (fs', Inr dst)" by blast
  have ca: "is_absolute ?c" using abs by (simp add: DOWNLOAD_CACHE_DIR_def is_absolute_path_div)
  have "fs_exists fs2 ?c"
  proof (cases "fs_exists fs1 ?c")
    case True
    then show ?thesis using ds lb ca by (simp add: download_origin_def Let_def path_absolute_def)
  next
    case False
    then obtain url where g: "download_from_gh_main env fs1 ?c (owner r) (name r) (branch r) = (fs2, Inr url)"
      using ds lb ca by (auto simp: download_origin_def Let_def path_absolute_def split: prod.splits sum.splits)
    from download_from_gh_main_Inr [OF g] obtain t fs3 where
      t: "map_of (env_remotes env) (gh_url (owner r) (name r), branch r) = Some t" and fs2: "fs2 = fs_graft fs3 ?c t"
      by blast
    have "fs_is_dir t [''/'']" using roots map_of_SomeD [OF t] by fastforce
    then show ?thesis using fs_graft_root [of t fs3 ?c] fs2 by (simp add: fs_exists_def fs_is_dir_def)
  qed
  then have "fs_exists fs' ?c" using copytree_exists [OF ct] by blast
  then show ?thesis using download_origin_cached [OF r2(2) abs] r2(1) by simp
qed


subsection \<open>Errors, configuration and the tree invariant of \<open>download\<close>\<close>

lemma path_div_entry: "entry_name_ok n \<Longrightarrow> path_div p n = p @ [n]"
proof -
  assume ok: "entry_name_ok n"
  then have ns: "\<not> startswith ''/'' n" by (cases n) (auto simp: entry_name_ok_def)
  have "split_char CHR ''/'' n = [n]" using ok by (simp add: entry_name_ok_def split_char_notin)
  then show ?thesis using ok ns by (simp add: path_div_relative path_parts_no_root entry_name_ok_def)
qed

lemma DOWNLOAD_CACHE_DIR_eq: "DOWNLOAD_CACHE_DIR env = env_tempdir env @ [''repo_downloads'']"
  by (simp add: DOWNLOAD_CACHE_DIR_def path_div_entry entry_name_ok_def)

text \<open>C24: When the repository has no local base path and is not cached, and git cannot fetch its URL and branch, Repo.download raises CalledProcessError for the command git clone --depth 1 --branch <branch> <url> <cache dir>, leaving the file system and the repository unchanged.\<close>

theorem download_clone_error:
  assumes "local_basepath r = None" "is_absolute (env_tempdir env)"
    and "\<not> fs_exists fs (path_div (DOWNLOAD_CACHE_DIR env) (name r))"
    and "map_of (env_remotes env) (gh_url (owner r) (name r), branch r) = None"
  shows "download env fs r dst False =
           Some ((fs, r), Inl (CalledProcessError (''git clone --depth 1 --branch '' @ branch r @ '' '' @
             gh_url (owner r) (name r) @ '' '' @ path_str (path_div (DOWNLOAD_CACHE_DIR env) (name r)))))"
proof -
  have "is_absolute (path_div (DOWNLOAD_CACHE_DIR env) (name r))"
    using assms(2) by (simp add: DOWNLOAD_CACHE_DIR_def is_absolute_path_div)
  then show ?thesis using assms
    by (simp add: download_def download_origin_def download_from_gh_main_def path_absolute_def Let_def)
qed

text \<open>C26: A repository with a local base path is downloaded the same way whatever the remote repositories are: the local checkout path never reaches git.\<close>

theorem download_local_ignores_remotes:
  "local_basepath r = Some lb \<Longrightarrow>
     download (env\<lparr>env_remotes := rs\<rparr>) fs r dst cc = download env fs r dst cc"
  by (simp add: download_def download_origin_def clear_download_cache_def DOWNLOAD_CACHE_DIR_def Let_def)

lemma fs_mkdir_Inr_dir: "fs_mkdir fs p = Inr fs' \<Longrightarrow> map_of (fs_dirs fs') p = Some []"
  by (auto simp: fs_mkdir_def split: if_splits)

text \<open>C25: With clear_cache, a download without a local base path always clones afresh and returns the GitHub URL, yet status.using_cache keeps whatever value an earlier download left in it.\<close>

theorem download_clear_cache_keeps_using_cache:
  assumes t: "fs_tree fs" and ok: "entry_name_ok (name r)" and lb: "local_basepath r = None"
    and abs: "is_absolute (env_tempdir env)"
    and d: "download env fs r dst True = Some ((fs', r'), Inr s)"
  shows "s = gh_url (owner r) (name r) \<and> using_cache (status r') = using_cache (status r)"
proof -
  let ?cd = "DOWNLOAD_CACHE_DIR env"
  from download_Inr [OF d] obtain x fs1 fs2 r2 src pats where
    c: "clear_download_cache env fs = (x, Inr fs1)" and o: "download_origin env fs1 r = (fs2, r2, Inr (s, src))"
    and r': "r' = r2\<lparr>status := (status r2)\<lparr>download_source := Some s\<rparr>\<rparr>" by auto
  have m: "fs_mkdir (fs_rmtree fs ?cd) ?cd = Inr fs1" using c by (auto simp: clear_download_cache_def Let_def)
  have t1: "fs_tree fs1"
    using fs_mkdir_tree [OF fs_rmtree_tree [OF t] _ m] by (simp add: DOWNLOAD_CACHE_DIR_eq entry_name_ok_def)
  have e: "map_of (fs_dirs fs1) ?cd = Some []" using fs_mkdir_Inr_dir [OF m] .
  have ca: "path_div ?cd (name r) = ?cd @ [name r]" using path_div_entry [OF ok] .
  have "\<not> fs_exists fs1 (?cd @ [name r])" using fs_tree_child_listed [OF t1 e, of "name r" "[]"] by auto
  then have nc: "\<not> fs_exists fs1 (path_div ?cd (name r))" by (simp add: ca)
  have "is_absolute (path_div ?cd (name r))" using abs by (simp add: DOWNLOAD_CACHE_DIR_def is_absolute_path_div)
  then obtain url where g: "download_from_gh_main env fs1 (path_div ?cd (name r)) (owner r) (name r) (branch r) = (fs2, Inr url)"
    and rs: "r2 = r" "s = url"
    using o lb nc by (auto simp: download_origin_def path_absolute_def Let_def split: prod.splits sum.splits)
  have "url = gh_url (owner r) (name r)" using download_from_gh_main_Inr [OF g] by blast
  then show ?thesis using rs r' by simp
qed

lemma fs_makedirs_dir: "fs_makedirs fs p = Inr fs' \<Longrightarrow> fs_is_dir fs' p"
proof -
  assume m: "fs_makedirs fs p = Inr fs'"
  then obtain fs1 where "fs_mkdir fs1 p = Inr fs'"
    by (subst (asm) fs_makedirs.simps) (auto simp: Let_def split: if_splits sum.splits py_error.splits)
  then show ?thesis by (simp add: fs_is_dir_def fs_mkdir_Inr_dir)
qed

lemma download_from_gh_main_tree:
  assumes t: "fs_tree fs" and rm: "\<forall>(k, tr) \<in> set (env_remotes env). fs_tree tr \<and> fs_is_dir tr [''/'']"
    and od: "list_all entry_name_ok (tl d)" and g: "download_from_gh_main env fs d ow nm br = (fs', res)"
  shows "fs_tree fs'"
proof (cases res)
  case (Inl e)
  then show ?thesis using g t by (auto simp: download_from_gh_main_def Let_def split: option.splits if_splits sum.splits)
next
  case (Inr url)
  from download_from_gh_main_Inr [OF g [unfolded Inr]] obtain tr fs1 where
    tr: "map_of (env_remotes env) (gh_url ow nm, br) = Some tr"
    and m: "(if fs_is_dir fs d then Inr fs else fs_makedirs fs d) = Inr fs1" and fs': "fs' = fs_graft fs1 d tr" by blast
  have trt: "fs_tree tr" "fs_is_dir tr [''/'']" using rm map_of_SomeD [OF tr] by fastforce+
  have "fs_tree fs1 \<and> fs_is_dir fs1 d"
    using m fs_makedirs_tree [OF t od] fs_makedirs_dir t by (auto split: if_splits)
  then show ?thesis using fs_graft_tree [OF _ trt] fs' by blast
qed

lemma copytree_tree:
  assumes "fs_tree fs" "list_all entry_name_ok (tl dst)" "copytree n pats src dst fs = Some (fs', res)"
  shows "fs_tree fs'"
proof (cases "copy_dir n pats src dst fs")
  case (Some r)
  show ?thesis
  proof (cases r)
    case (Inl e)
    then show ?thesis using assms Some by (simp add: copytree_def)
  next
    case (Inr p)
    obtain fs1 e1 where p: "p = (fs1, e1)" by fastforce
    then have "fs' = fs1" using assms(3) Some Inr by (auto simp: copytree_def split: if_splits)
    then show ?thesis using copy_tree(1) [OF Some [unfolded Inr p] assms(1,2)] by blast
  qed
qed (use assms in \<open>simp add: copytree_def\<close>)

lemma download_origin_tree:
  assumes t: "fs_tree fs" and rm: "\<forall>(k, tr) \<in> set (env_remotes env). fs_tree tr \<and> fs_is_dir tr [''/'']"
    and ot: "list_all entry_name_ok (tl (env_tempdir env))" and ok: "entry_name_ok (name r)"
    and o: "download_origin env fs r = (fs', r', res)"
  shows "fs_tree fs'"
proof -
  have rd: "entry_name_ok ''repo_downloads''" by (simp add: entry_name_ok_def)
  have l1: "list_all entry_name_ok (tl (env_tempdir env @ [''repo_downloads'']))"
    by (rule list_all_tl_snoc [where P = entry_name_ok, OF ot rd])
  have "list_all entry_name_ok (tl ((env_tempdir env @ [''repo_downloads'']) @ [name r]))"
    by (rule list_all_tl_snoc [where P = entry_name_ok, OF l1 ok])
  then have "list_all entry_name_ok (tl (path_div (DOWNLOAD_CACHE_DIR env) (name r)))"
    by (simp add: DOWNLOAD_CACHE_DIR_eq path_div_entry [OF ok])
  note g = download_from_gh_main_tree [OF t rm this]
  show ?thesis
  proof (cases "local_basepath r")
    case None
    show ?thesis
    proof (cases "fs_exists fs (path_absolute (env_cwd env) (path_div (DOWNLOAD_CACHE_DIR env) (name r)))")
      case True
      then show ?thesis using o None t by (simp add: download_origin_def Let_def)
    next
      case False
      obtain fs2 res2 where gh: "download_from_gh_main env fs (path_div (DOWNLOAD_CACHE_DIR env) (name r)) (owner r) (name r) (branch r) = (fs2, res2)"
        by fastforce
      then have "fs' = fs2" using o None False by (cases res2) (simp_all add: download_origin_def Let_def)
      then show ?thesis using g [OF gh] by simp
    qed
  next
    case (Some lb)
    then show ?thesis using o t by (simp add: download_origin_def Let_def)
  qed
qed

lemma clear_stage_tree:
  assumes t: "fs_tree fs" and c: "(if cc then clear_download_cache env fs else (fs, Inr fs)) = (x, Inr fs1)"
  shows "fs_tree fs1"
  using c t fs_mkdir_tree [OF fs_rmtree_tree [OF t], of "DOWNLOAD_CACHE_DIR env"]
  by (auto simp: clear_download_cache_def Let_def DOWNLOAD_CACHE_DIR_eq entry_name_ok_def split: if_splits)

lemma download_origin_src:
  assumes o: "download_origin env fs r = (fs2, r2, Inr (s, src))" and abs: "is_absolute (env_tempdir env)"
  shows "src = (case local_basepath r of
                  Some lb \<Rightarrow> path_absolute (env_cwd env) (path_div lb (name r))
                | None \<Rightarrow> path_div (DOWNLOAD_CACHE_DIR env) (name r))"
proof -
  have "is_absolute (path_div (DOWNLOAD_CACHE_DIR env) (name r))"
    using abs by (simp add: DOWNLOAD_CACHE_DIR_def is_absolute_path_div)
  then show ?thesis using o
    by (auto simp: download_origin_def Let_def path_absolute_def split: option.splits if_splits prod.splits sum.splits)
qed

text \<open>\<open>Repo.download\<close> keeps the tree invariant on every branch.\<close>

lemma download_preserves_tree:
  assumes t: "fs_tree fs" and rm: "\<forall>(k, tr) \<in> set (env_remotes env). fs_tree tr \<and> fs_is_dir tr [''/'']"
    and ot: "list_all entry_name_ok (tl (env_tempdir env))" and ok: "entry_name_ok (name r)"
    and od: "list_all entry_name_ok (tl dst)"
    and d: "download env fs r dst cc = Some ((fs', r'), res)"
  shows "fs_tree fs'"
proof -
  obtain x y where c: "(if cc then clear_download_cache env fs else (fs, Inr fs)) = (x, y)" by fastforce
  have tx: "fs_tree x" using c t fs_rmtree_tree [OF t] by (auto simp: clear_download_cache_def Let_def split: if_splits)
  show ?thesis
  proof (cases y)
    case (Inl e)
    then show ?thesis using d c tx by (simp add: download_def)
  next
    case (Inr fs1)
    have t1: "fs_tree fs1"
      using c Inr t fs_mkdir_tree [OF fs_rmtree_tree [OF t], of "DOWNLOAD_CACHE_DIR env"]
      by (auto simp: clear_download_cache_def Let_def DOWNLOAD_CACHE_DIR_eq entry_name_ok_def split: if_splits)
    obtain fs2 r2 org where org: "download_origin env fs1 r = (fs2, r2, org)" by (cases "download_origin env fs1 r") auto
    have t2: "fs_tree fs2" using download_origin_tree [OF t1 rm ot ok org] .
    show ?thesis
    proof (cases org)
      case (Inl e)
      then show ?thesis using d c Inr org t2 by (simp add: download_def)
    next
      case (Inr p)
      obtain s0 src where p: "p = (s0, src)" by fastforce
      show ?thesis
      proof (cases "read_gitignore fs2 src")
        case (Inl e)
        then show ?thesis using d c \<open>y = Inr fs1\<close> org Inr p t2 by (simp add: download_def)
      next
        case (Inr pats)
        obtain fs3 res3 where ct: "copytree (copy_fuel fs2) pats src dst fs2 = Some (fs3, res3)"
          using d c \<open>y = Inr fs1\<close> org \<open>org = Inr p\<close> p Inr
          by (cases "copytree (copy_fuel fs2) pats src dst fs2") (auto simp: download_def)
        have "fs3 = fs'" using d c \<open>y = Inr fs1\<close> org \<open>org = Inr p\<close> p Inr ct
          by (auto simp: download_def split: sum.splits)
        then show ?thesis using copytree_tree [OF t2 od ct] by simp
      qed
    qed
  qed
qed

text \<open>C22: Repo.download returns (a result or an exception) on every well-formed file system, for every clear_cache flag and every well-formed set of remote trees, whenever the destination is not inside the directory it copies from (the local checkout, or the cached clone).\<close>

theorem download_terminates:
  assumes t: "fs_tree fs" and rm: "\<forall>(k, tr) \<in> set (env_remotes env). fs_tree tr \<and> fs_is_dir tr [''/'']"
    and ot: "list_all entry_name_ok (tl (env_tempdir env))" and abs: "is_absolute (env_tempdir env)"
    and ok: "entry_name_ok (name r)" and od: "list_all entry_name_ok (tl dst)"
    and np: "\<not> prefix (case local_basepath r of
                          Some lb \<Rightarrow> path_absolute (env_cwd env) (path_div lb (name r))
                        | None \<Rightarrow> path_div (DOWNLOAD_CACHE_DIR env) (name r)) dst"
  shows "download env fs r dst cc \<noteq> None"
proof -
  obtain x y where c: "(if cc then clear_download_cache env fs else (fs, Inr fs)) = (x, y)" by fastforce
  show ?thesis
  proof (cases y)
    case (Inl e)
    then show ?thesis using c by (simp add: download_def)
  next
    case (Inr fs1)
    have t1: "fs_tree fs1" using clear_stage_tree [OF t] c Inr by simp
    obtain fs2 r2 org where org: "download_origin env fs1 r = (fs2, r2, org)" by (cases "download_origin env fs1 r") auto
    have t2: "fs_tree fs2" using download_origin_tree [OF t1 rm ot ok org] .
    show ?thesis
    proof (cases org)
      case (Inl e)
      then show ?thesis using c Inr org by (simp add: download_def)
    next
      case (Inr p)
      obtain s0 src where p: "p = (s0, src)" by fastforce
      have "\<not> prefix src dst" using download_origin_src [OF org [unfolded Inr p] abs] np by simp
      note ct = copytree_terminates [OF t2 od this]
      show ?thesis
      proof (cases "read_gitignore fs2 src")
        case (Inr pats)
        from ct [of pats] obtain res where "copytree (copy_fuel fs2) pats src dst fs2 = Some res" by blast
        then show ?thesis using c \<open>y = Inr fs1\<close> org \<open>org = Inr p\<close> p Inr by (simp add: download_def)
      qed (use c \<open>y = Inr fs1\<close> org \<open>org = Inr p\<close> p in \<open>simp add: download_def\<close>)
    qed
  qed
qed

text \<open>C21: Repo.download of a repository with a local base path, on a well-formed file system, copies the checkout <local_basepath>/<name> to a missing destination whose parent exists and which is not inside the checkout: it returns the checkout path, records it as status.download_source, and the destination then holds exactly the files and directories of the checkout whose relative path has no name matched by a line of the checkout's .gitignore, each directory listing its kept entries in order, with nothing else changed but the destination's parent.\<close>

theorem download_local_copy:
  assumes t: "fs_tree fs" and lb: "local_basepath r = Some lb"
    and src: "src = path_absolute (env_cwd env) (path_div lb (name r))"
    and sd: "fs_is_dir fs src" and ne: "\<not> fs_exists fs dst"
    and pa: "fs_is_dir fs (butlast dst)" and b: "butlast dst \<noteq> []" and od: "list_all entry_name_ok (tl dst)"
    and d1: "\<not> prefix src dst"
    and g: "read_gitignore fs src = Inr pats" and tk: "map_res fm_tokens pats = Inr tss"
  shows "\<exists>fs'. download env fs r dst False =
           Some ((fs', r\<lparr>status := (status r)\<lparr>download_source := Some (path_str src)\<rparr>\<rparr>), Inr (path_str src)) \<and>
           copy_image pats src dst fs fs' \<and> fs_agree (\<lambda>k. \<not> prefix dst k \<and> k \<noteq> butlast dst) fs fs'"
proof -
  have o: "download_origin env fs r = (fs, r, Inr (path_str src, src))"
    using lb src by (simp add: download_origin_def Let_def)
  from copytree_refines [OF t sd ne pa b od d1 tk] obtain fs' where
    c: "copytree (copy_fuel fs) pats src dst fs = Some (fs', Inr dst)"
    and i: "copy_image pats src dst fs fs'" "fs_agree (\<lambda>k. \<not> prefix dst k \<and> k \<noteq> butlast dst) fs fs'" by blast
  show ?thesis using o g c i by (intro exI [of _ fs']) (simp add: download_def)
qed

subsection \<open>Reading \<open>.gitignore\<close>\<close>


lemma read_gitignore_file:
  "map_of (fs_files fs) (path_div src ''.gitignore'') = Some txt \<Longrightarrow> read_gitignore fs src = Inr (gitignore_files txt)"
  by (simp add: read_gitignore_def read_text_def fs_exists_def)



text \<open>C27: For a .gitignore file in the copy source, the names Repo.download ignores among entry names without a slash are exactly those matched by a line of the file that is not empty, not a comment and does not end in a slash: a directory line such as build/ ignores nothing.\<close>

theorem gitignore_dir_entries_inert:
  assumes f: "map_of (fs_files fs) (path_div src ''.gitignore'') = Some txt"
    and ns: "\<forall>x\<in>set names. CHR ''/'' \<notin> set x"
  shows "\<exists>pats. read_gitignore fs src = Inr pats \<and>
           (\<forall>ign. ignore_patterns pats names = Inr ign \<longrightarrow>
              set ign = {x \<in> set names. \<exists>l\<in>set (splitlines txt).
                           l \<noteq> [] \<and> \<not> startswith ''#'' l \<and> last l \<noteq> CHR ''/'' \<and> fnmatch x l = Inr True})"
proof (intro exI conjI allI impI)
  show "read_gitignore fs src = Inr (gitignore_files txt)" by (rule read_gitignore_file [OF f])
next
  fix ign assume i: "ignore_patterns (gitignore_files txt) names = Inr ign"
  have slash: "fnmatch x l \<noteq> Inr True" if "x \<in> set names" "l \<noteq> []" "last l = CHR ''/''" for x l
    using fnmatch_trailing_slash [OF that(2,3)] ns that(1) by blast
  show "set ign = {x \<in> set names. \<exists>l\<in>set (splitlines txt).
                     l \<noteq> [] \<and> \<not> startswith ''#'' l \<and> last l \<noteq> CHR ''/'' \<and> fnmatch x l = Inr True}"
    unfolding ignore_patterns_iff [OF i] gitignore_files_def using slash by auto
qed


theorem gitignore_dir_entries_inert_witness:
  "read_gitignore core_remote_tree [''/''] = Inr [''*.pyc'', ''build/''] \<and>
   ''build'' \<notin> set (projr (ignore_patterns [''*.pyc'', ''build/''] [''docs'', ''.gitignore'', ''build'']))"
proof -
  let ?txt = "''*.pyc\<newline>#comment\<newline>build/\<newline>''"
  let ?ns = "[''docs'', ''.gitignore'', ''build'']"
  have f: "map_of (fs_files core_remote_tree) (path_div [''/''] ''.gitignore'') = Some ?txt" by code_simp
  have ns: "\<forall>x\<in>set ?ns. CHR ''/'' \<notin> set x" by simp
  from gitignore_dir_entries_inert [OF f ns] obtain pats where
    g: "read_gitignore core_remote_tree [''/''] = Inr pats" and
    i: "\<forall>ign. ignore_patterns pats ?ns = Inr ign \<longrightarrow>
          set ign = {x \<in> set ?ns. \<exists>l\<in>set (splitlines ?txt).
                       l \<noteq> [] \<and> \<not> startswith ''#'' l \<and> last l \<noteq> CHR ''/'' \<and> fnmatch x l = Inr True}" by blast
  have "read_gitignore core_remote_tree [''/''] = Inr [''*.pyc'', ''build/'']" by code_simp
  then have p: "pats = [''*.pyc'', ''build/'']" using g by simp
  have ip: "ignore_patterns [''*.pyc'', ''build/''] ?ns = Inr (projr (ignore_patterns [''*.pyc'', ''build/''] ?ns))" by code_simp
  have nb: "\<forall>l\<in>set (splitlines ?txt). l \<noteq> [] \<and> \<not> startswith ''#'' l \<and> last l \<noteq> CHR ''/'' \<longrightarrow>
               fnmatch ''build'' l \<noteq> Inr True" by code_simp
  have s: "set (projr (ignore_patterns [''*.pyc'', ''build/''] ?ns)) =
           {x \<in> set ?ns. \<exists>l\<in>set (splitlines ?txt).
              l \<noteq> [] \<and> \<not> startswith ''#'' l \<and> last l \<noteq> CHR ''/'' \<and> fnmatch x l = Inr True}"
    using i ip unfolding p by blast
  have "''build'' \<notin> set (projr (ignore_patterns [''*.pyc'', ''build/''] ?ns))"
    unfolding s using nb by blast
  with g p show ?thesis by simp
qed

subsection \<open>The example world\<close>

lemma fixture_download_Inr:
  "fixture_download r cc \<noteq> None \<and> snd (the (fixture_download r cc)) = Inr s \<Longrightarrow>
     fixture_download r cc = Some ((fst (fst (the (fixture_download r cc))), snd (fst (the (fixture_download r cc)))), Inr s)"
  by (cases "fixture_download r cc") auto

theorem download_then_cache_hit_witness:
  "download_origin download_fixture_env (fst (fst (the (fixture_download (mk_repo ''Pulp Core'' ''core'' None None) False))))
      (mk_repo ''Pulp Core'' ''core'' None None) =
   (fst (fst (the (fixture_download (mk_repo ''Pulp Core'' ''core'' None None) False))),
    (mk_repo ''Pulp Core'' ''core'' None None)\<lparr>status := default_status\<lparr>using_cache := True\<rparr>\<rparr>,
    Inr (''/tmp/repo_downloads/core'', [''/'', ''tmp'', ''repo_downloads'', ''core'']))"
proof -
  have "fixture_download (mk_repo ''Pulp Core'' ''core'' None None) False \<noteq> None \<and>
        snd (the (fixture_download (mk_repo ''Pulp Core'' ''core'' None None) False)) = Inr (gh_url ''pulp'' ''core'')"
    by code_simp
  note d = fixture_download_Inr [OF this]
  have lb: "local_basepath (mk_repo ''Pulp Core'' ''core'' None None) = None" by (simp add: mk_repo_def)
  have abs: "is_absolute (env_tempdir download_fixture_env)" by code_simp
  have roots: "\<forall>(k, t) \<in> set (env_remotes download_fixture_env). fs_is_dir t [''/'']" by code_simp
  have c: "path_div (DOWNLOAD_CACHE_DIR download_fixture_env) ''core'' = [''/'', ''tmp'', ''repo_downloads'', ''core'']"
    by code_simp
  have s: "path_str [''/'', ''tmp'', ''repo_downloads'', ''core''] = ''/tmp/repo_downloads/core''" by code_simp
  from download_then_cache_hit [OF d lb abs roots refl lb] show ?thesis
    by (simp add: c s mk_repo_def)
qed

theorem download_clone_error_witness:
  "download (download_fixture_env\<lparr>env_remotes := []\<rparr>) download_fixture_fs (mk_repo ''Pulp Core'' ''core'' None None)
      [''/'', ''w'', ''core''] False =
   Some ((download_fixture_fs, mk_repo ''Pulp Core'' ''core'' None None),
         Inl (CalledProcessError ''git clone --depth 1 --branch main https://github.com/pulp/core.git /tmp/repo_downloads/core''))"
proof -
  have lb: "local_basepath (mk_repo ''Pulp Core'' ''core'' None None) = None" by (simp add: mk_repo_def)
  have abs: "is_absolute (env_tempdir (download_fixture_env\<lparr>env_remotes := []\<rparr>))" by code_simp
  have ne: "\<not> fs_exists download_fixture_fs
              (path_div (DOWNLOAD_CACHE_DIR (download_fixture_env\<lparr>env_remotes := []\<rparr>)) (name (mk_repo ''Pulp Core'' ''core'' None None)))"
    by code_simp
  have m: "map_of (env_remotes (download_fixture_env\<lparr>env_remotes := []\<rparr>))
             (gh_url (owner (mk_repo ''Pulp Core'' ''core'' None None)) (name (mk_repo ''Pulp Core'' ''core'' None None)),
              branch (mk_repo ''Pulp Core'' ''core'' None None)) = None" by simp
  have c: "path_str (path_div (DOWNLOAD_CACHE_DIR (download_fixture_env\<lparr>env_remotes := []\<rparr>)) ''core'') = ''/tmp/repo_downloads/core''"
    by code_simp
  have u: "gh_url ''pulp'' ''core'' = ''https://github.com/pulp/core.git''" by code_simp
  from download_clone_error [OF lb abs ne m] show ?thesis by (simp add: c u mk_repo_def)
qed

theorem download_local_ignores_remotes_witness:
  "download (download_fixture_env\<lparr>env_remotes := []\<rparr>) download_fixture_fs (mk_repo ''Rpm'' ''rpm'' (Some [''/'', ''w'']) None)
      [''/'', ''w'', ''out''] False =
   download download_fixture_env download_fixture_fs (mk_repo ''Rpm'' ''rpm'' (Some [''/'', ''w'']) None) [''/'', ''w'', ''out''] False"
  by (rule download_local_ignores_remotes) (simp add: mk_repo_def)

theorem download_clear_cache_keeps_using_cache_witness:
  "snd (the (fixture_download ((mk_repo ''Pulp Core'' ''core'' None None)\<lparr>status := default_status\<lparr>using_cache := True\<rparr>\<rparr>) True)) =
     Inr (gh_url ''pulp'' ''core'') \<and>
   using_cache (status (snd (fst (the (fixture_download ((mk_repo ''Pulp Core'' ''core'' None None)\<lparr>status := default_status\<lparr>using_cache := True\<rparr>\<rparr>) True))))) = True"
proof -
  let ?r = "(mk_repo ''Pulp Core'' ''core'' None None)\<lparr>status := default_status\<lparr>using_cache := True\<rparr>\<rparr>"
  have e: "fixture_download ?r True \<noteq> None \<and> snd (the (fixture_download ?r True)) = Inr (gh_url ''pulp'' ''core'')"
    by code_simp
  note d = fixture_download_Inr [OF e]
  have t: "fs_tree download_fixture_fs" by code_simp
  have ok: "entry_name_ok (name ?r)" by code_simp
  have lb: "local_basepath ?r = None" by (simp add: mk_repo_def)
  have abs: "is_absolute (env_tempdir download_fixture_env)" by code_simp
  from download_clear_cache_keeps_using_cache [OF t ok lb abs d]
  have "using_cache (status (snd (fst (the (fixture_download ?r True))))) = using_cache (status ?r)" by (rule conjunct2)
  moreover have "using_cache (status ?r) = True" by simp
  ultimately show ?thesis using e by simp
qed

theorem download_terminates_witness:
  "fixture_download (mk_repo ''Pulp Core'' ''core'' None None) True \<noteq> None"
proof -
  have t: "fs_tree download_fixture_fs" by code_simp
  have rm: "\<forall>(k, tr) \<in> set (env_remotes download_fixture_env). fs_tree tr \<and> fs_is_dir tr [''/'']" by code_simp
  have ot: "list_all entry_name_ok (tl (env_tempdir download_fixture_env))" by code_simp
  have abs: "is_absolute (env_tempdir download_fixture_env)" by code_simp
  have ok: "entry_name_ok (name (mk_repo ''Pulp Core'' ''core'' None None))" by code_simp
  have od: "list_all entry_name_ok (tl [''/'', ''w'', ''core''])" by code_simp
  have np: "\<not> prefix (case local_basepath (mk_repo ''Pulp Core'' ''core'' None None) of
                  Some lb \<Rightarrow> path_absolute (env_cwd download_fixture_env) (path_div lb (name (mk_repo ''Pulp Core'' ''core'' None None)))
                | None \<Rightarrow> path_div (DOWNLOAD_CACHE_DIR download_fixture_env) (name (mk_repo ''Pulp Core'' ''core'' None None)))
              [''/'', ''w'', ''core'']" by code_simp
  show ?thesis by (rule download_terminates [OF t rm ot abs ok od np])
qed

theorem download_local_copy_witness:
  "\<exists>fs'. download download_fixture_env local_checkout_fs (mk_repo ''Pulp Core'' ''core'' (Some [''/'', ''src'']) None)
           [''/'', ''w'', ''core''] False =
         Some ((fs', (mk_repo ''Pulp Core'' ''core'' (Some [''/'', ''src'']) None)\<lparr>status := default_status\<lparr>download_source := Some ''/src/core''\<rparr>\<rparr>),
               Inr ''/src/core'') \<and>
         copy_image [''*.pyc''] [''/'', ''src'', ''core''] [''/'', ''w'', ''core''] local_checkout_fs fs'"
proof -
  let ?r = "mk_repo ''Pulp Core'' ''core'' (Some [''/'', ''src'']) None"
  have src: "[''/'', ''src'', ''core''] = path_absolute (env_cwd download_fixture_env) (path_div [''/'', ''src''] (name ?r))"
    by code_simp
  have h: "fs_tree local_checkout_fs" "fs_is_dir local_checkout_fs [''/'', ''src'', ''core'']"
    "\<not> fs_exists local_checkout_fs [''/'', ''w'', ''core'']" "fs_is_dir local_checkout_fs (butlast [''/'', ''w'', ''core''])"
    "butlast [''/'', ''w'', ''core''] \<noteq> []" "list_all entry_name_ok (tl [''/'', ''w'', ''core''])"
    "\<not> prefix [''/'', ''src'', ''core''] [''/'', ''w'', ''core'']"
    "read_gitignore local_checkout_fs [''/'', ''src'', ''core''] = Inr [''*.pyc'']"
    "map_res fm_tokens [''*.pyc''] = Inr (projr (map_res fm_tokens [''*.pyc'']))"
    by code_simp+
  have lb: "local_basepath ?r = Some [''/'', ''src'']" by (simp add: mk_repo_def)
  have ps: "path_str [''/'', ''src'', ''core''] = ''/src/core''" "status ?r = default_status" by (code_simp, simp add: mk_repo_def)
  from download_local_copy [OF h(1) lb src h(2-9)] show ?thesis unfolding ps by blast
qed

end
