(* ===== verification/RepoConfig.thy ===== *)
theory RepoConfig
  imports Repository
begin

text \<open>
  ConfigLoading: \<open>Repos.from_yaml\<close> of \<open>src/pulp_docs/repository.py\<close>
  (lines 216-248). \<open>yaml.load(f, Loader=yaml.SafeLoader)\<close> is the parameter
  \<open>load\<close>: the document it builds from the text of the file, or the error it
  raises. A document is a value of the datatype \<open>yaml\<close>, holding what
  SafeLoader builds for a repolist: None, booleans, integers, strings, lists,
  and mappings with string keys in document order. Floats, dates and
  non-string keys are left out. Subscripting a value with a string
  (\<open>ysubscript\<close>) or with 0 (\<open>yindex0\<close>), iterating over it (\<open>yiter\<close>) and
  the call \<open>Repo(**entry, type=...)\<close> (\<open>repo_kwargs\<close>, \<open>repo_call\<close>) raise
  TypeError, KeyError and IndexError where CPython does. An argument value
  the record \<open>repo\<close> cannot hold is \<open>Unmodelled\<close>: a title that is not a
  string, a \<open>str\<close> where a \<open>Path\<close> is expected, or a status mapping. The body of
  \<open>from_yaml\<close> is \<open>load_repolist\<close>. It takes the constructor as a parameter,
  because the older copy in \<open>plugin_repos.py\<close> runs the same body with its
  own \<open>Repo\<close> (see the Legacy theory).
\<close>

datatype yaml = YNull | YBool bool | YInt int | YStr string | YList "yaml list" | YMap "(string \<times> yaml) list"

fun yaml_type :: "yaml \<Rightarrow> string" where
  "yaml_type YNull = ''NoneType''"
| "yaml_type (YBool b) = ''bool''"
| "yaml_type (YInt i) = ''int''"
| "yaml_type (YStr s) = ''str''"
| "yaml_type (YList ys) = ''list''"
| "yaml_type (YMap kvs) = ''dict''"

definition py_quote :: "string \<Rightarrow> string" where
  "py_quote s = CHR 0x27 # s @ [CHR 0x27]"

text \<open>The dict SafeLoader builds from a mapping: a repeated key keeps its
  first position and takes its last value.\<close>

definition yaml_dict :: "(string \<times> yaml) list \<Rightarrow> (string \<times> yaml) list" where
  "yaml_dict kvs = dict_extend [] kvs"

definition not_subscriptable :: "yaml \<Rightarrow> py_error" where
  "not_subscriptable y = TypeError (py_quote (yaml_type y) @ '' object is not subscriptable'')"

text \<open>\<open>x[k]\<close> for a string \<open>k\<close>.\<close>

fun ysubscript :: "yaml \<Rightarrow> string \<Rightarrow> yaml result" where
  "ysubscript (YMap kvs) k = dict_get (yaml_dict kvs) k"
| "ysubscript (YList ys) k = Inl (TypeError ''list indices must be integers or slices, not str'')"
| "ysubscript (YStr s) k = Inl (TypeError (''string indices must be integers, not '' @ py_quote ''str''))"
| "ysubscript y k = Inl (not_subscriptable y)"

text \<open>\<open>x[0]\<close>: a dict has no key 0, since its keys are strings.\<close>

fun yindex0 :: "yaml \<Rightarrow> yaml result" where
  "yindex0 (YList []) = Inl (IndexError ''list index out of range'')"
| "yindex0 (YList (y # ys)) = Inr y"
| "yindex0 (YMap kvs) = Inl (KeyError ''0'')"
| "yindex0 (YStr []) = Inl (IndexError ''string index out of range'')"
| "yindex0 (YStr (c # s)) = Inr (YStr [c])"
| "yindex0 y = Inl (not_subscriptable y)"

text \<open>\<open>for x in y\<close>: a dict yields its keys and a string its characters.\<close>

fun yiter :: "yaml \<Rightarrow> yaml list result" where
  "yiter (YList ys) = Inr ys"
| "yiter (YMap kvs) = Inr (map (\<lambda>(k, v). YStr k) (yaml_dict kvs))"
| "yiter (YStr s) = Inr (map (\<lambda>c. YStr [c]) s)"
| "yiter y = Inl (TypeError (py_quote (yaml_type y) @ '' object is not iterable''))"

subsection \<open>\<open>Repo(**entry, type=...)\<close>\<close>

text \<open>The parameters of the generated \<open>Repo.__init__\<close>, in order.\<close>

definition REPO_PARAMS :: "string list" where
  "REPO_PARAMS = [''title'', ''name'', ''owner'', ''branch'', ''local_basepath'', ''status'', ''type'']"

definition missing_args_msg :: "string list \<Rightarrow> string" where
  "missing_args_msg ms =
     (case ms of
        [m] \<Rightarrow> ''Repo.__init__() missing 1 required positional argument: '' @ py_quote m
      | _ \<Rightarrow> ''Repo.__init__() missing 2 required positional arguments: '' @ py_quote (hd ms) @ '' and '' @
             py_quote (last ms))"

definition str_arg :: "(string \<times> yaml) list \<Rightarrow> string \<Rightarrow> string \<Rightarrow> string result" where
  "str_arg d k dflt =
     (case map_of d k of
        None \<Rightarrow> Inr dflt
      | Some (YStr s) \<Rightarrow> Inr s
      | Some v \<Rightarrow> Inl (Unmodelled (k @ '' given as '' @ yaml_type v)))"

definition basepath_arg :: "(string \<times> yaml) list \<Rightarrow> path option result" where
  "basepath_arg d =
     (case map_of d ''local_basepath'' of
        None \<Rightarrow> Inr None
      | Some YNull \<Rightarrow> Inr None
      | Some v \<Rightarrow> Inl (Unmodelled (''local_basepath given as '' @ yaml_type v)))"

type_synonym repo_args = "string \<times> string \<times> string \<times> string \<times> path option"

text \<open>The call raises TypeError, in CPython's order, when the entry is not a
  mapping or also holds \<open>type\<close> (both while the keyword arguments are
  built). It then raises for the first key that is not a parameter, and
  finally for the missing required arguments \<open>title\<close> and \<open>name\<close>.\<close>

definition repo_kwargs :: "yaml \<Rightarrow> repo_args result" where
  "repo_kwargs y =
     (case y of
        YMap kvs \<Rightarrow>
          (let d = yaml_dict kvs; ks = map fst d in
           if ''type'' \<in> set ks then
             Inl (TypeError (''Repo() got multiple values for keyword argument '' @ py_quote ''type''))
           else
             (case find (\<lambda>k. k \<notin> set REPO_PARAMS) ks of
                Some k \<Rightarrow> Inl (TypeError (''Repo.__init__() got an unexpected keyword argument '' @ py_quote k))
              | None \<Rightarrow>
                  (let missing = filter (\<lambda>p. p \<notin> set ks) [''title'', ''name''] in
                   if missing \<noteq> [] then Inl (TypeError (missing_args_msg missing))
                   else if ''status'' \<in> set ks then Inl (Unmodelled ''status given as dict'')
                   else
                     sbind (str_arg d ''title'' []) (\<lambda>ti.
                     sbind (str_arg d ''name'' []) (\<lambda>n.
                     sbind (str_arg d ''owner'' ''pulp'') (\<lambda>ow.
                     sbind (str_arg d ''branch'' ''main'') (\<lambda>br.
                     sbind (basepath_arg d) (\<lambda>lb. Inr (ti, n, ow, br, lb)))))))))
      | _ \<Rightarrow> Inl (TypeError (''Repo() argument after ** must be a mapping, not '' @ yaml_type y)))"

definition repo_call :: "yaml \<Rightarrow> string \<Rightarrow> repo result" where
  "repo_call y ty =
     sbind (repo_kwargs y) (\<lambda>(ti, n, ow, br, lb).
       Inr \<lparr>title = ti, name = n, owner = ow, branch = br, local_basepath = lb,
            status = default_status, repo_type = Some ty\<rparr>)"

subsection \<open>\<open>Repos.from_yaml\<close>\<close>

definition load_repolist ::
  "(yaml \<Rightarrow> string \<Rightarrow> 'r result) \<Rightarrow> fsys \<Rightarrow> path \<Rightarrow> (string \<Rightarrow> yaml result) \<Rightarrow> string \<Rightarrow>
     ('r \<times> 'r list \<times> 'r list) result" where
  "load_repolist mk fs cwd load p =
     (let file = path_absolute cwd (path_parts p) in
      if \<not> fs_exists fs file then Inl (ValueError (''File does not exist: '' @ p))
      else
        sbind (read_text fs file) (\<lambda>txt.
        sbind (load txt) (\<lambda>data.
        sbind (ysubscript data ''repos'') (\<lambda>repos.
        sbind (ysubscript repos ''core'') (\<lambda>c.
        sbind (yindex0 c) (\<lambda>c0.
        sbind (mk c0 ''core'') (\<lambda>core_repo.
        sbind (ysubscript repos ''content'') (\<lambda>cs.
        sbind (yiter cs) (\<lambda>cl.
        sbind (map_res (\<lambda>e. mk e ''content'') cl) (\<lambda>content_repos.
        sbind (ysubscript repos ''other'') (\<lambda>os.
        sbind (yiter os) (\<lambda>ol.
        sbind (map_res (\<lambda>e. mk e ''other'') ol) (\<lambda>other_repos.
          Inr (core_repo, content_repos, other_repos))))))))))))))"

definition from_yaml :: "fsys \<Rightarrow> path \<Rightarrow> (string \<Rightarrow> yaml result) \<Rightarrow> string \<Rightarrow> repos result" where
  "from_yaml fs cwd load p =
     sbind (load_repolist repo_call fs cwd load p) (\<lambda>(c, cs, os).
       Inr \<lparr>core_repo = c, content_repos = cs, other_repos = os\<rparr>)"

subsection \<open>What a repolist entry means\<close>

text \<open>The entries the record \<open>repo\<close> represents: a mapping with a string
  title and name, possibly a string owner and branch and a null
  \<open>local_basepath\<close>. What \<open>Repo(**entry, type=...)\<close> builds from them is
  \<open>entry_repo\<close>. CPython also accepts other values (it does not check the
  annotations); the model leaves those \<open>Unmodelled\<close>.\<close>

fun is_ystr :: "yaml \<Rightarrow> bool" where
  "is_ystr (YStr s) = True"
| "is_ystr y = False"

fun ystr :: "yaml \<Rightarrow> string" where
  "ystr (YStr s) = s"
| "ystr y = []"

definition entry_field_ok :: "string \<times> yaml \<Rightarrow> bool" where
  "entry_field_ok kv =
     (case kv of
        (k, v) \<Rightarrow> (if k = ''local_basepath'' then v = YNull
                   else k \<in> set [''title'', ''name'', ''owner'', ''branch''] \<and> is_ystr v))"

definition repo_entry_ok :: "yaml \<Rightarrow> bool" where
  "repo_entry_ok y =
     (case y of
        YMap kvs \<Rightarrow>
          list_all entry_field_ok (yaml_dict kvs) \<and>
          ''title'' \<in> set (map fst (yaml_dict kvs)) \<and> ''name'' \<in> set (map fst (yaml_dict kvs))
      | _ \<Rightarrow> False)"

definition entry_repo :: "yaml \<Rightarrow> string \<Rightarrow> repo" where
  "entry_repo y ty =
     (let d = (case y of YMap kvs \<Rightarrow> yaml_dict kvs | _ \<Rightarrow> []);
          get = (\<lambda>k dflt. case map_of d k of Some v \<Rightarrow> ystr v | None \<Rightarrow> dflt)
      in \<lparr>title = get ''title'' [], name = get ''name'' [], owner = get ''owner'' ''pulp'',
          branch = get ''branch'' ''main'', local_basepath = None, status = default_status,
          repo_type = Some ty\<rparr>)"

text \<open>A repolist written out in the documented format, and the repositories
  such a file can describe: each tagged with its position, with a fresh
  status and no local base path.\<close>

definition repo_yaml :: "repo \<Rightarrow> yaml" where
  "repo_yaml r =
     YMap [(''title'', YStr (title r)), (''name'', YStr (name r)), (''owner'', YStr (owner r)),
           (''branch'', YStr (branch r))]"

definition repos_yaml :: "repos \<Rightarrow> yaml" where
  "repos_yaml rs =
     YMap [(''repos'', YMap [(''core'', YList [repo_yaml (core_repo rs)]),
                            (''content'', YList (map repo_yaml (content_repos rs))),
                            (''other'', YList (map repo_yaml (other_repos rs)))])]"

definition yaml_loaded :: "repos \<Rightarrow> bool" where
  "yaml_loaded rs \<longleftrightarrow>
     repo_type (core_repo rs) = Some ''core'' \<and>
     list_all (\<lambda>r. repo_type r = Some ''content'') (content_repos rs) \<and>
     list_all (\<lambda>r. repo_type r = Some ''other'') (other_repos rs) \<and>
     list_all (\<lambda>r. status r = default_status \<and> local_basepath r = None) (repos_all rs)"

text \<open>A repository set a repolist can describe.\<close>

definition example_repos :: repos where
  "example_repos =
     \<lparr>core_repo = mk_repo ''Pulp Core'' ''pulpcore'' None (Some ''core''),
      content_repos = [(mk_repo ''Rpm Packages'' ''pulp_rpm'' None (Some ''content''))\<lparr>branch := ''3.0''\<rparr>],
      other_repos = [mk_repo ''OCI env'' ''oci_env'' None (Some ''other'')]\<rparr>"

text \<open>The example of the docstring of \<open>from_yaml\<close>, as SafeLoader reads it
  (an empty value is null), in a file \<open>repolist.yml\<close> of the work
  directory \<open>/w\<close>.\<close>

definition docstring_repolist :: yaml where
  "docstring_repolist =
     YMap [(''repos'', YMap [(''core'', YMap [(''name'', YNull), (''title'', YNull)]),
                            (''content'', YList [YMap [(''name'', YStr ''pulp_rpm''), (''title'', YStr ''Rpm Package'')],
                                                 YMap [(''name'', YStr ''pulp_maven''), (''title'', YStr ''Maven'')]])])]"

definition repolist_fs :: fsys where
  "repolist_fs = \<lparr>fs_dirs = [([''/''], [''w'']), ([''/'', ''w''], [''repolist.yml''])],
                  fs_files = [([''/'', ''w'', ''repolist.yml''], ''repos: ...'')]\<rparr>"

subsection \<open>The constructor call accepts exactly the well-formed entries\<close>

lemma distinct_dict_extend: "distinct (map fst d) \<Longrightarrow> distinct (map fst (dict_extend d kvs))"
  by (induction d kvs rule: dict_extend.induct) simp_all

lemma distinct_yaml_dict: "distinct (map fst (yaml_dict kvs))"
  by (simp add: yaml_dict_def distinct_dict_extend)

lemma yaml_dict_lookup: "(k, v) \<in> set (yaml_dict kvs) \<Longrightarrow> map_of (yaml_dict kvs) k = Some v"
  by (rule map_of_is_SomeI [OF distinct_yaml_dict])

lemma str_arg_Inr:
  "str_arg d k dflt = Inr s \<longleftrightarrow> (case map_of d k of None \<Rightarrow> s = dflt | Some v \<Rightarrow> is_ystr v \<and> s = ystr v)"
  by (cases "map_of d k") (auto simp: str_arg_def elim!: is_ystr.elims split: yaml.splits)

lemma basepath_arg_Inr:
  "basepath_arg d = Inr lb \<longleftrightarrow> lb = None \<and> (map_of d ''local_basepath'' = None \<or> map_of d ''local_basepath'' = Some YNull)"
  by (cases "map_of d ''local_basepath''") (auto simp: basepath_arg_def split: yaml.splits)

lemma str_arg_ok:
  "(\<forall>v. map_of d k = Some v \<longrightarrow> is_ystr v) \<Longrightarrow>
     str_arg d k dflt = Inr (case map_of d k of Some v \<Rightarrow> ystr v | None \<Rightarrow> dflt)"
  by (cases "map_of d k") (simp_all add: str_arg_Inr)

lemma repo_kwargs_ok:
  assumes "repo_entry_ok y"
  shows "\<exists>kvs. y = YMap kvs \<and>
    repo_kwargs y = Inr (title (entry_repo y ''''), name (entry_repo y ''''), owner (entry_repo y ''''),
                         branch (entry_repo y ''''), None)"
proof -
  obtain kvs where y: "y = YMap kvs" using assms by (cases y) (simp_all add: repo_entry_ok_def)
  let ?d = "yaml_dict kvs"
  have fo: "entry_field_ok (k, v)" if "(k, v) \<in> set ?d" for k v
    using assms that by (simp add: y repo_entry_ok_def list_all_iff)
  have keys: "k \<in> set [''title'', ''name'', ''owner'', ''branch'', ''local_basepath'']" if "k \<in> set (map fst ?d)" for k
    using that fo by (force simp: entry_field_ok_def split: if_splits)
  have tn: "''title'' \<in> set (map fst ?d)" "''name'' \<in> set (map fst ?d)"
    using assms by (simp_all add: y repo_entry_ok_def)
  have str: "\<forall>v. map_of ?d k = Some v \<longrightarrow> is_ystr v" if "k \<noteq> ''local_basepath''" for k
    using that fo by (auto dest!: map_of_SomeD simp: entry_field_ok_def)
  have lb: "map_of ?d ''local_basepath'' = None \<or> map_of ?d ''local_basepath'' = Some YNull"
    using fo by (cases "map_of ?d ''local_basepath''") (auto dest!: map_of_SomeD simp: entry_field_ok_def)
  have nt: "''type'' \<notin> set (map fst ?d)" and ns: "''status'' \<notin> set (map fst ?d)"
    using keys by auto
  have nf: "find (\<lambda>k. k \<notin> set REPO_PARAMS) (map fst ?d) = None"
    using keys by (auto simp: find_None_iff REPO_PARAMS_def)
  have bp: "basepath_arg ?d = Inr None" using lb by (simp add: basepath_arg_Inr)
  show ?thesis
    using nt ns nf tn bp
    by (simp add: y repo_kwargs_def Let_def entry_repo_def str_arg_ok [OF str] del: sbind_eq_Inr)
qed

lemma repo_kwargs_Inr_ok:
  assumes k: "repo_kwargs y = Inr a"
  shows "repo_entry_ok y"
proof -
  obtain kvs where y: "y = YMap kvs" using k by (cases y) (simp_all add: repo_kwargs_def)
  let ?d = "yaml_dict kvs"
  let ?ks = "map fst ?d"
  have nt: "''type'' \<notin> set ?ks"
  proof
    assume "''type'' \<in> set ?ks"
    then show False using k by (simp add: y repo_kwargs_def Let_def)
  qed
  then have nf: "find (\<lambda>k. k \<notin> set REPO_PARAMS) ?ks = None"
    using k by (auto simp: y repo_kwargs_def Let_def split: option.splits)
  then have inp: "k \<in> set REPO_PARAMS" if "k \<in> set ?ks" for k
    using that by (auto simp: find_None_iff)
  have tn: "''title'' \<in> set ?ks \<and> ''name'' \<in> set ?ks"
    using k nt nf by (auto simp: y repo_kwargs_def Let_def filter_empty_conv split: if_splits)
  have ns: "''status'' \<notin> set ?ks"
  proof
    assume "''status'' \<in> set ?ks"
    then show False using k nt nf tn by (simp add: y repo_kwargs_def Let_def)
  qed
  obtain ti n ow br lb where
    args: "str_arg ?d ''title'' [] = Inr ti" "str_arg ?d ''name'' [] = Inr n"
      "str_arg ?d ''owner'' ''pulp'' = Inr ow" "str_arg ?d ''branch'' ''main'' = Inr br" "basepath_arg ?d = Inr lb"
    using k nt nf tn ns by (auto simp: y repo_kwargs_def Let_def filter_empty_conv)
  have "entry_field_ok (k, v)" if kv: "(k, v) \<in> set ?d" for k v
  proof -
    have m: "map_of ?d k = Some v" using kv by (rule yaml_dict_lookup)
    have kin: "k \<in> set REPO_PARAMS" using kv inp by force
    have "k \<noteq> ''type''" "k \<noteq> ''status''" using kv nt ns by force+
    then have "k = ''title'' \<or> k = ''name'' \<or> k = ''owner'' \<or> k = ''branch'' \<or> k = ''local_basepath''"
      using kin by (simp add: REPO_PARAMS_def)
    then show ?thesis
    proof (elim disjE)
      assume "k = ''title''" then show ?thesis using args(1) m by (simp add: str_arg_Inr entry_field_ok_def)
    next
      assume "k = ''name''" then show ?thesis using args(2) m by (simp add: str_arg_Inr entry_field_ok_def)
    next
      assume "k = ''owner''" then show ?thesis using args(3) m by (simp add: str_arg_Inr entry_field_ok_def)
    next
      assume "k = ''branch''" then show ?thesis using args(4) m by (simp add: str_arg_Inr entry_field_ok_def)
    next
      assume "k = ''local_basepath''" then show ?thesis using args(5) m by (simp add: basepath_arg_Inr entry_field_ok_def)
    qed
  qed
  then show ?thesis using tn by (auto simp: y repo_entry_ok_def list_all_iff)
qed

lemma repo_call_iff: "repo_call y ty = Inr r \<longleftrightarrow> repo_entry_ok y \<and> r = entry_repo y ty"
proof
  assume c: "repo_call y ty = Inr r"
  then obtain a where a: "repo_kwargs y = Inr a" by (auto simp: repo_call_def)
  then have ok: "repo_entry_ok y" by (rule repo_kwargs_Inr_ok)
  then obtain kvs where "y = YMap kvs" and
    "repo_kwargs y = Inr (title (entry_repo y ''''), name (entry_repo y ''''), owner (entry_repo y ''''),
                          branch (entry_repo y ''''), None)"
    using repo_kwargs_ok by blast
  then show "repo_entry_ok y \<and> r = entry_repo y ty"
    using c ok by (auto simp: repo_call_def entry_repo_def Let_def)
next
  assume "repo_entry_ok y \<and> r = entry_repo y ty"
  then show "repo_call y ty = Inr r"
    using repo_kwargs_ok [of y] by (auto simp: repo_call_def entry_repo_def Let_def)
qed

lemma str_arg_no_type_error: "str_arg d k dflt \<noteq> Inl (TypeError m)"
  by (simp add: str_arg_def split: option.splits yaml.splits)

lemma basepath_arg_no_type_error: "basepath_arg d \<noteq> Inl (TypeError m)"
  by (simp add: basepath_arg_def split: option.splits yaml.splits)

lemma repo_kwargs_type_error:
  "(\<exists>m. repo_kwargs y = Inl (TypeError m)) \<longleftrightarrow>
     (case y of
        YMap kvs \<Rightarrow> ''type'' \<in> set (map fst (yaml_dict kvs)) \<or> \<not> set (map fst (yaml_dict kvs)) \<subseteq> set REPO_PARAMS \<or>
                    ''title'' \<notin> set (map fst (yaml_dict kvs)) \<or> ''name'' \<notin> set (map fst (yaml_dict kvs))
      | _ \<Rightarrow> True)"
proof (cases y)
  case (YMap kvs)
  let ?ks = "map fst (yaml_dict kvs)"
  have f: "find (\<lambda>k. k \<notin> set REPO_PARAMS) ?ks = None \<longleftrightarrow> set ?ks \<subseteq> set REPO_PARAMS"
    by (auto simp: find_None_iff)
  have f2: "find (\<lambda>k. k \<notin> set REPO_PARAMS) ?ks = Some k \<Longrightarrow> k \<in> set ?ks \<and> k \<notin> set REPO_PARAMS" for k
    by (auto simp: find_Some_iff)
  have chain: "sbind (str_arg d ''title'' []) (\<lambda>ti. sbind (str_arg d ''name'' []) (\<lambda>n.
                 sbind (str_arg d ''owner'' ''pulp'') (\<lambda>ow. sbind (str_arg d ''branch'' ''main'') (\<lambda>br.
                 sbind (basepath_arg d) (\<lambda>lb. Inr (ti, n, ow, br, lb)))))) \<noteq> Inl (TypeError m)" for d m
    using str_arg_no_type_error basepath_arg_no_type_error
    by (auto simp: sbind_def split: sum.splits)
  show ?thesis using YMap chain
    by (auto simp: repo_kwargs_def Let_def f split: option.splits dest!: f2) (metis fst_conv image_eqI subsetD)+
qed (simp_all add: repo_kwargs_def)

text \<open>C35: Repo(**entry, type=t) raises TypeError exactly when CPython does: the entry is not a mapping, or it has a type key, a key that is not a field of Repo, or no title or no name; and on a mapping with string title and name, optionally a string owner and branch and a null local_basepath, it builds the repository with those fields, the defaults pulp and main, a fresh status and type t.\<close>

theorem repo_call_correct:
  "(repo_entry_ok y \<longrightarrow> repo_call y ty = Inr (entry_repo y ty)) \<and>
   ((\<exists>m. repo_call y ty = Inl (TypeError m)) \<longleftrightarrow>
      (case y of
         YMap kvs \<Rightarrow> ''type'' \<in> set (map fst (yaml_dict kvs)) \<or> \<not> set (map fst (yaml_dict kvs)) \<subseteq> set REPO_PARAMS \<or>
                     ''title'' \<notin> set (map fst (yaml_dict kvs)) \<or> ''name'' \<notin> set (map fst (yaml_dict kvs))
       | _ \<Rightarrow> True))"
proof
  show "repo_entry_ok y \<longrightarrow> repo_call y ty = Inr (entry_repo y ty)" by (simp add: repo_call_iff)
  have "(\<exists>m. repo_call y ty = Inl (TypeError m)) \<longleftrightarrow> (\<exists>m. repo_kwargs y = Inl (TypeError m))"
    by (auto simp: repo_call_def sbind_def split: sum.splits)
  then show "(\<exists>m. repo_call y ty = Inl (TypeError m)) \<longleftrightarrow>
      (case y of
         YMap kvs \<Rightarrow> ''type'' \<in> set (map fst (yaml_dict kvs)) \<or> \<not> set (map fst (yaml_dict kvs)) \<subseteq> set REPO_PARAMS \<or>
                     ''title'' \<notin> set (map fst (yaml_dict kvs)) \<or> ''name'' \<notin> set (map fst (yaml_dict kvs))
       | _ \<Rightarrow> True)"
    by (simp only: repo_kwargs_type_error)
qed

theorem repo_call_correct_witness:
  "repo_call (YMap [(''name'', YStr ''pulp_rpm''), (''title'', YStr ''Rpm''), (''branch'', YStr ''3.0'')]) ''content'' =
     Inr ((mk_repo ''Rpm'' ''pulp_rpm'' None (Some ''content''))\<lparr>branch := ''3.0''\<rparr>) \<and>
   (\<exists>m. repo_call (YMap [(''name'', YStr ''pulp_rpm''), (''url'', YStr ''x'')]) ''content'' = Inl (TypeError m))"
proof -
  have "repo_entry_ok (YMap [(''name'', YStr ''pulp_rpm''), (''title'', YStr ''Rpm''), (''branch'', YStr ''3.0'')])"
    by code_simp
  moreover have "entry_repo (YMap [(''name'', YStr ''pulp_rpm''), (''title'', YStr ''Rpm''), (''branch'', YStr ''3.0'')])
                   ''content'' = (mk_repo ''Rpm'' ''pulp_rpm'' None (Some ''content''))\<lparr>branch := ''3.0''\<rparr>"
    by code_simp
  moreover have "\<not> set (map fst (yaml_dict [(''name'', YStr ''pulp_rpm''), (''url'', YStr ''x'')])) \<subseteq> set REPO_PARAMS"
    by code_simp
  ultimately show ?thesis
    using repo_call_correct [of "YMap [(''name'', YStr ''pulp_rpm''), (''title'', YStr ''Rpm''), (''branch'', YStr ''3.0'')]" "''content''"]
          repo_call_correct [of "YMap [(''name'', YStr ''pulp_rpm''), (''url'', YStr ''x'')]" "''content''"]
    by simp
qed

subsection \<open>Loading a repolist\<close>

lemma list_all2_right: "list_all2 P xs ys \<Longrightarrow> y \<in> set ys \<Longrightarrow> \<exists>x. P x y"
  by (induction xs ys rule: list_all2_induct) auto

lemma load_repolist_elems:
  assumes "load_repolist mk fs cwd load p = Inr (c, cs, os)"
  shows "(\<exists>e. mk e ''core'' = Inr c) \<and> (\<forall>r\<in>set cs. \<exists>e. mk e ''content'' = Inr r) \<and>
         (\<forall>r\<in>set os. \<exists>e. mk e ''other'' = Inr r)"
  using assms
  by (auto simp: load_repolist_def Let_def map_res_Inr_iff split: if_splits dest: list_all2_right)

lemma repo_call_fields:
  "repo_call y ty = Inr r \<Longrightarrow> repo_type r = Some ty \<and> status r = default_status \<and> local_basepath r = None"
  by (simp add: repo_call_iff entry_repo_def Let_def)

text \<open>C37: Every repository set Repos.from_yaml returns has its primary repository typed core and its content and other repositories typed content and other.\<close>

theorem from_yaml_loaded:
  assumes "from_yaml fs cwd load p = Inr rs"
  shows "repo_type (core_repo rs) = Some ''core'' \<and>
         list_all (\<lambda>r. repo_type r = Some ''content'') (content_repos rs) \<and>
         list_all (\<lambda>r. repo_type r = Some ''other'') (other_repos rs)"
proof -
  obtain c cs os where l: "load_repolist repo_call fs cwd load p = Inr (c, cs, os)"
    and rs: "rs = \<lparr>core_repo = c, content_repos = cs, other_repos = os\<rparr>"
    using assms by (auto simp: from_yaml_def)
  note e = load_repolist_elems [OF l]
  show ?thesis
    using e repo_call_fields by (fastforce simp: rs list_all_iff)
qed

lemma repo_call_repo_yaml:
  assumes "repo_type r = Some ty" "status r = default_status" "local_basepath r = None"
  shows "repo_call (repo_yaml r) ty = Inr r"
proof -
  have "repo_entry_ok (repo_yaml r)"
    by (simp add: repo_entry_ok_def repo_yaml_def yaml_dict_def entry_field_ok_def)
  moreover have "r = entry_repo (repo_yaml r) ty"
    using assms by (cases r) (simp add: entry_repo_def repo_yaml_def yaml_dict_def)
  ultimately show ?thesis by (simp add: repo_call_iff)
qed

text \<open>C36: A repository set written out as a repolist (repos: core, content, other, each entry with title, name, owner and branch) and read back with Repos.from_yaml gives the same set, when its repositories carry their position as type, a fresh status and no local base path.\<close>

theorem from_yaml_roundtrip:
  assumes f: "map_of (fs_files fs) (path_absolute cwd (path_parts p)) = Some txt"
    and l: "load txt = Inr (repos_yaml rs)" and y: "yaml_loaded rs"
  shows "from_yaml fs cwd load p = Inr rs"
proof -
  have all: "status r = default_status \<and> local_basepath r = None" if "r \<in> set (repos_all rs)" for r
    using y that by (simp add: yaml_loaded_def list_all_iff)
  have c: "repo_call (repo_yaml (core_repo rs)) ''core'' = Inr (core_repo rs)"
    using y all [of "core_repo rs"] by (intro repo_call_repo_yaml) (simp_all add: yaml_loaded_def repos_all_def)
  have cs: "map_res (\<lambda>e. repo_call e ''content'') (map repo_yaml (content_repos rs)) = Inr (content_repos rs)"
  proof -
    have "\<forall>r\<in>set (content_repos rs). repo_call (repo_yaml r) ''content'' = Inr r"
      using y all by (auto simp: yaml_loaded_def repos_all_def list_all_iff intro!: repo_call_repo_yaml)
    then show ?thesis by (simp add: map_res_map_arg map_res_Inr_conv [where g = id, simplified])
  qed
  have os: "map_res (\<lambda>e. repo_call e ''other'') (map repo_yaml (other_repos rs)) = Inr (other_repos rs)"
  proof -
    have "\<forall>r\<in>set (other_repos rs). repo_call (repo_yaml r) ''other'' = Inr r"
      using y all by (auto simp: yaml_loaded_def repos_all_def list_all_iff intro!: repo_call_repo_yaml)
    then show ?thesis by (simp add: map_res_map_arg map_res_Inr_conv [where g = id, simplified])
  qed
  have r: "read_text fs (path_absolute cwd (path_parts p)) = Inr txt" using f by (simp add: read_text_def)
  have ex: "fs_exists fs (path_absolute cwd (path_parts p))" using f by (simp add: fs_exists_def)
  show ?thesis
    using ex r l c cs os
    by (simp add: from_yaml_def load_repolist_def repos_yaml_def yaml_dict_def dict_get_def del: sbind_eq_Inr)
qed

text \<open>C38: When the core entry of the repolist is a mapping, as in the docstring example of Repos.from_yaml, loading raises KeyError: 0 from repos["core"][0].\<close>

theorem from_yaml_core_mapping:
  assumes "map_of (fs_files fs) (path_absolute cwd (path_parts p)) = Some txt" "load txt = Inr data"
    and "ysubscript data ''repos'' = Inr repos" "ysubscript repos ''core'' = Inr (YMap kvs)"
  shows "from_yaml fs cwd load p = Inl (KeyError ''0'')"
  using assms by (simp add: from_yaml_def load_repolist_def read_text_def fs_exists_def)

subsection \<open>Examples\<close>

theorem from_yaml_loaded_witness:
  "\<exists>rs. from_yaml repolist_fs [''/'', ''w''] (\<lambda>_. Inr (repos_yaml example_repos)) ''repolist.yml'' = Inr rs \<and>
        repo_type (core_repo rs) = Some ''core'' \<and>
        list_all (\<lambda>r. repo_type r = Some ''content'') (content_repos rs) \<and>
        list_all (\<lambda>r. repo_type r = Some ''other'') (other_repos rs)"
proof -
  have "from_yaml repolist_fs [''/'', ''w''] (\<lambda>_. Inr (repos_yaml example_repos)) ''repolist.yml'' = Inr example_repos"
    by code_simp
  with from_yaml_loaded [OF this] show ?thesis by blast
qed

theorem from_yaml_roundtrip_witness:
  "from_yaml repolist_fs [''/'', ''w''] (\<lambda>_. Inr (repos_yaml example_repos)) ''repolist.yml'' = Inr example_repos"
proof -
  have f: "map_of (fs_files repolist_fs) (path_absolute [''/'', ''w''] (path_parts ''repolist.yml'')) = Some ''repos: ...''"
    by code_simp
  have y: "yaml_loaded example_repos" by code_simp
  show ?thesis by (rule from_yaml_roundtrip [OF f refl y])
qed

theorem from_yaml_core_mapping_witness:
  "from_yaml repolist_fs [''/'', ''w''] (\<lambda>_. Inr docstring_repolist) ''repolist.yml'' = Inl (KeyError ''0'')"
proof -
  have f: "map_of (fs_files repolist_fs) (path_absolute [''/'', ''w''] (path_parts ''repolist.yml'')) = Some ''repos: ...''"
    by code_simp
  have r: "ysubscript docstring_repolist ''repos'' =
             Inr (YMap [(''core'', YMap [(''name'', YNull), (''title'', YNull)]),
                        (''content'', YList [YMap [(''name'', YStr ''pulp_rpm''), (''title'', YStr ''Rpm Package'')],
                                             YMap [(''name'', YStr ''pulp_maven''), (''title'', YStr ''Maven'')]])])"
    by code_simp
  have c: "ysubscript (YMap [(''core'', YMap [(''name'', YNull), (''title'', YNull)]),
                        (''content'', YList [YMap [(''name'', YStr ''pulp_rpm''), (''title'', YStr ''Rpm Package'')],
                                             YMap [(''name'', YStr ''pulp_maven''), (''title'', YStr ''Maven'')]])]) ''core'' =
             Inr (YMap [(''name'', YNull), (''title'', YNull)])"
    by code_simp
  show ?thesis by (rule from_yaml_core_mapping [OF f refl r c])
qed

end
