(* ===== verification/Release.thy ===== *)
theory Release
  imports Download RepoConfig
begin

text \<open>
  \<open>download_from_gh_latest\<close> of \<open>src/pulp_docs/repository.py\<close> (lines
  158-188): fetch the latest release's metadata from the GitHub API, fetch
  its tarball, extract it into a \<open>tempfile.TemporaryDirectory\<close>, and
  \<open>shutil.move\<close> the directory named by the first word of the first member's
  name to the destination. The network is the environment \<open>gh_env\<close>. It
  gives, for each URL, the JSON document \<open>response.json()\<close> returns, as a
  \<open>yaml\<close> value (JSON values are YAML values), and the members of a tarball,
  in archive order, each with the exception the call raises when there is
  one. The random name \<open>mkdtemp\<close> chooses is a parameter. Extraction follows
  \<open>TarFile.extractall(filter="data")\<close>: a leading slash is stripped, a name
  escaping the directory raises, missing parent directories are made, a
  directory member may already exist and a file member overwrites a file.
  Links and names with a \<open>..\<close> part that stays inside are left out
  (\<open>Unmodelled\<close>). \<open>gh_move\<close> follows \<open>shutil.move\<close> for a directory or a
  file source, including its fall-back to \<open>copytree\<close> when \<open>os.rename\<close>
  fails, which creates the missing parents of the destination. The
  temporary directory is removed on every path out of the \<open>with\<close> block.
\<close>

datatype tar_member = TarDir string | TarFile string string

record gh_env =
  gh_json :: "(string \<times> yaml result) list"
  gh_tarballs :: "(string \<times> tar_member list result) list"

definition GH_LATEST_TEMPLATE :: string where
  "GH_LATEST_TEMPLATE = ''https://api.github.com/repos/{}/{}/releases/latest''"

text \<open>\<open>httpx.get(url).json()\<close> and \<open>tarfile.open(fileobj=BytesIO(httpx.get(url,
  follow_redirects=True).content))\<close>. A URL the environment does not know
  cannot be reached.\<close>

definition http_get_json :: "gh_env \<Rightarrow> string \<Rightarrow> yaml result" where
  "http_get_json gh url =
     (case map_of (gh_json gh) url of None \<Rightarrow> Inl (HTTPError (''ConnectError: '' @ url)) | Some r \<Rightarrow> r)"

definition http_get_tar :: "gh_env \<Rightarrow> string \<Rightarrow> tar_member list result" where
  "http_get_tar gh url =
     (case map_of (gh_tarballs gh) url of None \<Rightarrow> Inl (HTTPError (''ConnectError: '' @ url)) | Some r \<Rightarrow> r)"

subsection \<open>\<open>TarFile.extractall(tmpdir, filter="data")\<close>\<close>

fun tar_member_name :: "tar_member \<Rightarrow> string" where
  "tar_member_name (TarDir n) = n"
| "tar_member_name (TarFile n c) = n"

text \<open>The depth below the destination after each part, or \<open>None\<close> once a
  \<open>..\<close> part leaves it.\<close>

fun escapes :: "nat \<Rightarrow> string list \<Rightarrow> bool" where
  "escapes d [] = False"
| "escapes d (x # xs) =
     (if x = ''..'' then (d = 0 \<or> escapes (d - 1) xs) else escapes (Suc d) xs)"

text \<open>The data filter: leading slashes are stripped; a name that resolves
  outside the destination raises \<open>OutsideDestinationError\<close>.\<close>

definition tar_target :: "path \<Rightarrow> string \<Rightarrow> path result" where
  "tar_target tmp n =
     (let rel = path_parts (dropWhile (\<lambda>c. c = CHR ''/'') n) in
      if escapes 0 rel then Inl (TarError (''OutsideDestinationError: '' @ n))
      else if ''..'' \<in> set rel then Inl (Unmodelled ''.. inside a member name'')
      else Inr (tmp @ rel))"

definition tar_extract_member :: "fsys \<Rightarrow> path \<Rightarrow> tar_member \<Rightarrow> fsys result" where
  "tar_extract_member fs tmp m =
     sbind (tar_target tmp (tar_member_name m)) (\<lambda>p.
       (let up = butlast p in
        sbind (if up \<noteq> [] \<and> \<not> fs_exists fs up then fs_makedirs fs up else Inr fs) (\<lambda>fs1.
          case m of
            TarDir n \<Rightarrow> (if fs_is_dir fs1 p then Inr fs1 else fs_mkdir fs1 p)
          | TarFile n c \<Rightarrow> fs_write_file fs1 p c)))"

text \<open>The members in archive order; the first exception stops the
  extraction (\<open>errorlevel=1\<close>).\<close>

fun tar_extract :: "fsys \<Rightarrow> path \<Rightarrow> tar_member list \<Rightarrow> fsys \<times> py_error option" where
  "tar_extract fs tmp [] = (fs, None)"
| "tar_extract fs tmp (m # ms) =
     (case tar_extract_member fs tmp m of
        Inl e \<Rightarrow> (fs, Some e)
      | Inr fs' \<Rightarrow> tar_extract fs' tmp ms)"

text \<open>\<open>tar.getmembers()[0].name.split()[0]\<close>\<close>

definition first_member_word :: "tar_member list \<Rightarrow> string result" where
  "first_member_word ms =
     (case ms of
        [] \<Rightarrow> Inl (IndexError ''list index out of range'')
      | m # _ \<Rightarrow> (case py_split_ws (tar_member_name m) of
                    [] \<Rightarrow> Inl (IndexError ''list index out of range'')
                  | w # _ \<Rightarrow> Inr w))"

subsection \<open>\<open>shutil.move(src, dst)\<close>\<close>

text \<open>The subtree below \<open>src\<close> as a file system rooted at \<open>/\<close>, and the
  removal of a single file (\<open>os.unlink\<close>).\<close>

definition fs_subtree :: "fsys \<Rightarrow> path \<Rightarrow> fsys" where
  "fs_subtree fs src =
     \<lparr>fs_dirs = map (\<lambda>(q, v). (''/'' # drop (length src) q, v)) (filter (\<lambda>(q, v). prefix src q) (fs_dirs fs)),
      fs_files = map (\<lambda>(q, v). (''/'' # drop (length src) q, v)) (filter (\<lambda>(q, v). prefix src q) (fs_files fs))\<rparr>"

definition fs_remove_file :: "fsys \<Rightarrow> path \<Rightarrow> fsys" where
  "fs_remove_file fs p =
     \<lparr>fs_dirs = dir_remove_entry (butlast p) (last p) (fs_dirs fs),
      fs_files = filter (\<lambda>(q, v). q \<noteq> p) (fs_files fs)\<rparr>"

text \<open>The move to the final name \<open>real\<close>: \<open>os.rename\<close>, or, when that
  fails, \<open>copytree\<close> (which makes the missing parents) and \<open>rmtree\<close> for a
  directory and \<open>copy2\<close> and \<open>unlink\<close> for a file.\<close>

definition move_to :: "fsys \<Rightarrow> path \<Rightarrow> path \<Rightarrow> path \<Rightarrow> fsys result" where
  "move_to fs src dst real =
     (if fs_is_dir fs src then
        (if prefix src dst then
           Inl (ShutilMoveError (''Cannot move a directory '' @ py_quote (path_str src) @ '' into itself '' @
                                 py_quote (path_str dst) @ ''.''))
         else if fs_exists fs real then Inl (FileExistsError (path_str real))
         else sbind (fs_makedirs fs real) (\<lambda>fs1. Inr (fs_rmtree (fs_graft fs1 real (fs_subtree fs src)) src)))
      else
        (case map_of (fs_files fs) src of
           None \<Rightarrow> Inl (FileNotFoundError (path_str src))
         | Some c \<Rightarrow> sbind (fs_write_file fs real c) (\<lambda>fs1. Inr (fs_remove_file fs1 src))))"

text \<open>Moving onto an existing directory moves into it, under the source's
  base name.\<close>

definition gh_move :: "fsys \<Rightarrow> path \<Rightarrow> path \<Rightarrow> fsys result" where
  "gh_move fs src dst =
     (if fs_is_dir fs dst then
        (if src = dst then Inr fs
         else
           (let real = dst @ [last src] in
            if fs_exists fs real then
              Inl (ShutilMoveError (''Destination path '' @ py_quote (path_str real) @ '' already exists''))
            else move_to fs src dst real))
      else move_to fs src dst dst)"

subsection \<open>\<open>download_from_gh_latest\<close>\<close>

definition download_from_gh_latest ::
  "gh_env \<Rightarrow> dl_env \<Rightarrow> fsys \<Rightarrow> string \<Rightarrow> path \<Rightarrow> string \<Rightarrow> string \<Rightarrow> fsys \<times> string result" where
  "download_from_gh_latest gh env fs tmp_name dest_dir ow nm =
     (case sbind (py_format GH_LATEST_TEMPLATE [ow, nm] []) (\<lambda>link.
             sbind (http_get_json gh link) (\<lambda>data. ysubscript data ''tarball_url'')) of
        Inl e \<Rightarrow> (fs, Inl e)
      | Inr (YStr url) \<Rightarrow>
          (case http_get_tar gh url of
             Inl e \<Rightarrow> (fs, Inl e)
           | Inr members \<Rightarrow>
               (let tmpdir = env_tempdir env @ [tmp_name] in
                if fs_exists fs tmpdir then (fs, Inl (Unmodelled ''mkdtemp retries a name in use''))
                else
                  (case fs_mkdir fs tmpdir of
                     Inl e \<Rightarrow> (fs, Inl e)
                   | Inr fs1 \<Rightarrow>
                       (case tar_extract fs1 tmpdir members of
                          (fs2, Some e) \<Rightarrow> (fs_rmtree fs2 tmpdir, Inl e)
                        | (fs2, None) \<Rightarrow>
                            (case sbind (first_member_word members) (\<lambda>w.
                                    gh_move fs2 (path_absolute (env_cwd env) (path_div tmpdir w))
                                      (path_absolute (env_cwd env) dest_dir)) of
                               Inl e \<Rightarrow> (fs_rmtree fs2 tmpdir, Inl e)
                             | Inr fs3 \<Rightarrow> (fs_rmtree fs3 tmpdir, Inr url))))))
      | Inr v \<Rightarrow> (fs, Inl (Unmodelled (''tarball_url given as '' @ yaml_type v))))"

text \<open>What a successful extraction leaves at a path: the content of the
  last file member whose data-filter target is that path (a later member
  overwrites an earlier one).\<close>

fun tar_file_at :: "path \<Rightarrow> tar_member list \<Rightarrow> path \<Rightarrow> string option" where
  "tar_file_at tmp [] p = None"
| "tar_file_at tmp (m # ms) p =
     (case tar_file_at tmp ms p of
        Some c \<Rightarrow> Some c
      | None \<Rightarrow> (case m of TarFile n c \<Rightarrow> (if tar_target tmp n = Inr p then Some c else None) | TarDir n \<Rightarrow> None))"

text \<open>Example: the release of \<open>pulp/core\<close> whose tarball holds a top
  directory \<open>pulp-core-1a2b/\<close> with a \<open>docs\<close> directory and a file, and
  a release of \<open>pulp/broken\<close> whose third member climbs out of the
  extraction directory.\<close>

definition release_fixture :: gh_env where
  "release_fixture =
     \<lparr>gh_json = [(''https://api.github.com/repos/pulp/core/releases/latest'',
                  Inr (YMap [(''tag_name'', YStr ''3.50.0''),
                             (''tarball_url'', YStr ''https://api.github.com/repos/pulp/core/tarball/3.50.0'')])),
                 (''https://api.github.com/repos/pulp/broken/releases/latest'',
                  Inr (YMap [(''tarball_url'', YStr ''https://api.github.com/repos/pulp/broken/tarball/0.1'')]))],
      gh_tarballs = [(''https://api.github.com/repos/pulp/core/tarball/3.50.0'',
                      Inr [TarDir ''pulp-core-1a2b/'', TarDir ''pulp-core-1a2b/docs/'',
                           TarFile ''pulp-core-1a2b/docs/index.md'' ''# Pulp'',
                           TarFile ''pulp-core-1a2b/README.md'' ''readme'']),
                     (''https://api.github.com/repos/pulp/broken/tarball/0.1'',
                      Inr [TarDir ''pulp-broken-9f/'', TarFile ''pulp-broken-9f/index.md'' ''x'',
                           TarFile ''../escape.md'' ''y''])]\<rparr>"

subsection \<open>Failures leave the file system unchanged\<close>

lemma fs_makedirs_step:
  "fs_makedirs fs p = Inr fs' \<Longrightarrow>
     \<exists>fs1. (if butlast p \<noteq> [] \<and> \<not> fs_exists fs (butlast p) then
               (case fs_makedirs fs (butlast p) of Inl (FileExistsError _) \<Rightarrow> Inr fs | r \<Rightarrow> r)
             else Inr fs) = Inr fs1 \<and> fs_mkdir fs1 p = Inr fs'"
  by (subst (asm) fs_makedirs.simps) (auto simp: Let_def)

lemma prefix_butlast_below: "prefix a p \<Longrightarrow> p \<noteq> a \<Longrightarrow> prefix a (butlast p)"
  by (auto simp: prefix_def butlast_append)

lemma fs_mkdir_below:
  "fs_mkdir fs p = Inr fs' \<Longrightarrow> prefix a p \<Longrightarrow> p \<noteq> a \<Longrightarrow> fs_agree (\<lambda>k. \<not> prefix a k) fs fs'"
  using prefix_butlast_below [of a p]
  by (auto simp: fs_mkdir_def fs_agree_def map_of_dir_add_entry split: if_splits option.splits)

lemma fs_write_file_below:
  "fs_write_file fs p c = Inr fs' \<Longrightarrow> prefix a p \<Longrightarrow> p \<noteq> a \<Longrightarrow> fs_agree (\<lambda>k. \<not> prefix a k) fs fs'"
  using prefix_butlast_below [of a p]
  by (auto simp: fs_write_file_def fs_agree_def map_of_dir_add_entry split: if_splits option.splits)

lemma fs_makedirs_below:
  "fs_makedirs fs p = Inr fs' \<Longrightarrow> fs_exists fs a \<Longrightarrow> prefix a p \<Longrightarrow> fs_agree (\<lambda>k. \<not> prefix a k) fs fs'"
proof (induction fs p arbitrary: fs' rule: fs_makedirs.induct)
  case (1 fs p)
  obtain fs1 where m1: "(if butlast p \<noteq> [] \<and> \<not> fs_exists fs (butlast p) then
               (case fs_makedirs fs (butlast p) of Inl (FileExistsError _) \<Rightarrow> Inr fs | r \<Rightarrow> r)
             else Inr fs) = Inr fs1" and m2: "fs_mkdir fs1 p = Inr fs'"
    using fs_makedirs_step [OF "1.prems"(1)] by blast
  have pa: "p \<noteq> a" using fs_makedirs_Inr [OF "1.prems"(1)] "1.prems"(2) by blast
  then have "prefix a (butlast p)" using "1.prems"(3) by (rule_tac prefix_butlast_below) simp_all
  then have "fs_agree (\<lambda>k. \<not> prefix a k) fs fs1"
    using m1 "1.IH" "1.prems"(2) by (auto split: if_splits sum.splits py_error.splits)
  then show ?case using fs_mkdir_below [OF m2 "1.prems"(3) pa] by (rule fs_agree_trans)
qed

lemma fs_mkdir_dir_mono: "fs_mkdir fs p = Inr fs' \<Longrightarrow> fs_is_dir fs k \<Longrightarrow> fs_is_dir fs' k"
  by (auto simp: fs_mkdir_def fs_is_dir_def map_of_dir_add_entry split: if_splits option.splits)

lemma fs_write_file_dir_mono: "fs_write_file fs p c = Inr fs' \<Longrightarrow> fs_is_dir fs k \<Longrightarrow> fs_is_dir fs' k"
  by (auto simp: fs_write_file_def fs_is_dir_def map_of_dir_add_entry split: if_splits option.splits)

lemma fs_makedirs_dir_mono: "fs_makedirs fs p = Inr fs' \<Longrightarrow> fs_is_dir fs k \<Longrightarrow> fs_is_dir fs' k"
proof (induction fs p arbitrary: fs' rule: fs_makedirs.induct)
  case (1 fs p)
  obtain fs1 where m1: "(if butlast p \<noteq> [] \<and> \<not> fs_exists fs (butlast p) then
               (case fs_makedirs fs (butlast p) of Inl (FileExistsError _) \<Rightarrow> Inr fs | r \<Rightarrow> r)
             else Inr fs) = Inr fs1" and m2: "fs_mkdir fs1 p = Inr fs'"
    using fs_makedirs_step [OF "1.prems"(1)] by blast
  have "fs_is_dir fs1 k"
    using m1 "1.IH" "1.prems"(2) by (auto split: if_splits sum.splits py_error.splits)
  then show ?case by (rule fs_mkdir_dir_mono [OF m2])
qed

lemma tar_target_Inr: "tar_target tmp n = Inr p \<Longrightarrow> \<exists>rel. p = tmp @ rel"
  by (auto simp: tar_target_def Let_def split: if_splits)

lemma tar_extract_member_below:
  assumes x: "tar_extract_member fs tmp m = Inr fs'" and d: "fs_is_dir fs tmp" and b: "fs_exists fs (butlast tmp)"
  shows "fs_agree (\<lambda>k. \<not> prefix tmp k) fs fs' \<and> fs_is_dir fs' tmp \<and> fs_exists fs' (butlast tmp)"
proof -
  obtain p where tp: "tar_target tmp (tar_member_name m) = Inr p"
    using x by (cases "tar_target tmp (tar_member_name m)") (auto simp: tar_extract_member_def)
  obtain rel where p: "p = tmp @ rel" using tar_target_Inr [OF tp] by blast
  obtain fs1 where m1: "(if butlast p \<noteq> [] \<and> \<not> fs_exists fs (butlast p) then fs_makedirs fs (butlast p) else Inr fs) = Inr fs1"
    and m2: "(case m of TarDir n \<Rightarrow> (if fs_is_dir fs1 p then Inr fs1 else fs_mkdir fs1 p)
                      | TarFile n c \<Rightarrow> fs_write_file fs1 p c) = Inr fs'"
    using x tp by (auto simp: tar_extract_member_def Let_def)
  have e: "fs_exists fs tmp" using d by (simp add: fs_is_dir_def fs_exists_def)
  show ?thesis
  proof (cases "rel = []")
    case True
    then have "fs1 = fs" using m1 b by (simp add: p)
    moreover have "fs' = fs1" using m2 d \<open>fs1 = fs\<close> True
      by (cases m) (auto simp: p fs_write_file_def split: if_splits)
    ultimately show ?thesis using d b by simp
  next
    case False
    have pt: "prefix tmp p" "p \<noteq> tmp" using False by (simp_all add: p)
    have a1: "fs_agree (\<lambda>k. \<not> prefix tmp k) fs fs1 \<and> fs_is_dir fs1 tmp \<and> fs_exists fs1 (butlast tmp)"
    proof (cases "butlast p \<noteq> [] \<and> \<not> fs_exists fs (butlast p)")
      case True
      then have mk: "fs_makedirs fs (butlast p) = Inr fs1" using m1 by simp
      have "prefix tmp (butlast p)" using pt by (rule prefix_butlast_below)
      then show ?thesis
        using fs_makedirs_below [OF mk e] fs_makedirs_dir_mono [OF mk d] fs_makedirs_exists [OF mk b] by simp
    next
      case False
      then have "fs1 = fs" using m1 by (simp only: if_False) simp
      then show ?thesis using d b by simp
    qed
    have a2: "fs_agree (\<lambda>k. \<not> prefix tmp k) fs1 fs' \<and> fs_is_dir fs' tmp \<and> fs_exists fs' (butlast tmp)"
    proof (cases m)
      case (TarDir n)
      show ?thesis
      proof (cases "fs_is_dir fs1 p")
        case True
        then show ?thesis using m2 a1 TarDir by simp
      next
        case False
        then have mk: "fs_mkdir fs1 p = Inr fs'" using m2 TarDir by simp
        show ?thesis using fs_mkdir_below [OF mk pt] fs_mkdir_dir_mono [OF mk] fs_mkdir_exists [OF mk] a1 by simp
      qed
    next
      case (TarFile n c)
      then have w: "fs_write_file fs1 p c = Inr fs'" using m2 by simp
      show ?thesis using fs_write_file_below [OF w pt] fs_write_file_dir_mono [OF w] fs_write_file_exists [OF w] a1
        by simp
    qed
    show ?thesis using a1 a2 fs_agree_trans by blast
  qed
qed

lemma tar_extract_below:
  "tar_extract fs tmp ms = (fs', eo) \<Longrightarrow> fs_is_dir fs tmp \<Longrightarrow> fs_exists fs (butlast tmp) \<Longrightarrow>
     fs_agree (\<lambda>k. \<not> prefix tmp k) fs fs' \<and> fs_is_dir fs' tmp"
proof (induction ms arbitrary: fs)
  case Nil
  then show ?case by simp
next
  case (Cons m ms)
  show ?case
  proof (cases "tar_extract_member fs tmp m")
    case (Inl e)
    then show ?thesis using Cons.prems by simp
  next
    case (Inr fs1)
    note s = tar_extract_member_below [OF Inr Cons.prems(2,3)]
    have "tar_extract fs1 tmp ms = (fs', eo)" using Cons.prems(1) Inr by simp
    note ih = Cons.IH [OF this] 
    show ?thesis using s ih fs_agree_trans by blast
  qed
qed

lemma under_missing:
  assumes t: "fs_tree fs" and ne: "\<not> fs_exists fs p" and pne: "p \<noteq> []" and k: "prefix p k"
  shows "map_of (fs_dirs fs) k = None \<and> map_of (fs_files fs) k = None"
proof (cases "k = p")
  case True
  then show ?thesis using ne by (simp add: fs_exists_def)
next
  case False
  from k obtain zs where zs: "k = p @ zs" by (auto simp: prefix_def)
  with False obtain x r where "k = p @ x # r" by (cases zs) auto
  then have "\<not> fs_exists fs k" using fs_tree_below_missing [OF t ne pne] by simp
  then show ?thesis by (simp add: fs_exists_def)
qed

lemma tmp_cleanup:
  assumes t: "fs_tree fs" and ne: "\<not> fs_exists fs tmp" and m: "fs_mkdir fs tmp = Inr fs1"
    and a: "fs_agree (\<lambda>k. \<not> prefix tmp k) fs1 fs2" and d: "fs_is_dir fs2 tmp"
  shows "fs_agree (\<lambda>_. True) fs (fs_rmtree fs2 tmp)"
proof -
  have b: "butlast tmp \<noteq> []" and l: "last tmp \<noteq> ''..''" and pd: "fs_is_dir fs (butlast tmp)"
    using m by (auto simp: fs_mkdir_def split: if_splits)
  obtain ns where pa: "map_of (fs_dirs fs) (butlast tmp) = Some ns" using pd by (auto simp: fs_is_dir_def)
  have tne: "tmp \<noteq> []" using b by auto
  have nin: "last tmp \<notin> set ns"
    using fs_tree_listed [OF t pa, of "last tmp"] ne by (auto simp: append_butlast_last_id [OF tne])
  obtain fs1' where m': "fs_mkdir fs tmp = Inr fs1'"
    and d1: "map_of (fs_dirs fs1') = (map_of (fs_dirs fs))(butlast tmp \<mapsto> ns @ [last tmp], tmp \<mapsto> [])"
    and f1: "fs_files fs1' = fs_files fs"
    using fs_mkdir_new [OF t pa b ne l] by blast
  have fs1: "fs1' = fs1" using m m' by simp
  have bt: "\<not> prefix tmp (butlast tmp)"
  proof
    assume "prefix tmp (butlast tmp)"
    then have "length tmp \<le> length (butlast tmp)" by (rule prefix_length_le)
    then have "length tmp \<le> length tmp - 1" by (simp only: length_butlast)
    moreover have "0 < length tmp" using tne by simp
    ultimately show False by linarith
  qed
  have bne: "butlast tmp \<noteq> tmp" using bt by auto
  have bt2: "map_of (fs_dirs fs2) (butlast tmp) = Some (ns @ [last tmp])"
    using fs_agreeD [OF a bt] d1 fs1 bne by simp
  have r: "remove1 (last tmp) (ns @ [last tmp]) = ns" using nin by (simp add: remove1_append)
  show ?thesis
    unfolding fs_agree_def
  proof (intro allI impI conjI)
    fix k
    show "map_of (fs_dirs (fs_rmtree fs2 tmp)) k = map_of (fs_dirs fs) k"
    proof (cases "prefix tmp k")
      case True
      then have "k \<noteq> butlast tmp" using bt by auto
      then show ?thesis using True d under_missing [OF t ne tne True]
        by (simp add: fs_rmtree_def map_of_dir_remove_entry map_of_filter_key bt bt2)
    next
      case False
      then have k2: "map_of (fs_dirs fs2) k = map_of (fs_dirs fs1) k" using fs_agreeD [OF a] by blast
      have kt: "k \<noteq> tmp" using False by auto
      show ?thesis
      proof (cases "k = butlast tmp")
        case True
        then show ?thesis using d r pa by (simp add: fs_rmtree_def map_of_dir_remove_entry map_of_filter_key bt bt2)
      next
        case kb: False
        have "map_of (fs_dirs (fs_rmtree fs2 tmp)) k = map_of (fs_dirs fs2) k"
          using d False kb by (simp add: fs_rmtree_def map_of_dir_remove_entry map_of_filter_key bt bt2)
        also have "\<dots> = map_of (fs_dirs fs) k" using k2 d1 fs1 kt kb by simp
        finally show ?thesis .
      qed
    qed
    show "map_of (fs_files (fs_rmtree fs2 tmp)) k = map_of (fs_files fs) k"
    proof (cases "prefix tmp k")
      case True
      then show ?thesis using d under_missing [OF t ne tne True] by (simp add: fs_rmtree_def map_of_filter_key)
    next
      case False
      then have "map_of (fs_files fs2) k = map_of (fs_files fs1) k" using fs_agreeD [OF a] by blast
      then show ?thesis using False d f1 fs1 by (simp add: fs_rmtree_def map_of_filter_key)
    qed
  qed
qed

lemma extract_cleanup:
  assumes t: "fs_tree fs" and ne: "\<not> fs_exists fs tmp" and m: "fs_mkdir fs tmp = Inr fs1"
    and x: "tar_extract fs1 tmp ms = (fs2, eo)"
  shows "fs_agree (\<lambda>_. True) fs (fs_rmtree fs2 tmp)"
proof -
  have d1: "fs_is_dir fs1 tmp" and b1: "fs_exists fs1 (butlast tmp)"
    using m by (auto simp: fs_mkdir_def fs_is_dir_def fs_exists_def map_of_dir_add_entry split: if_splits option.splits)
  note b = tar_extract_below [OF x d1 b1]
  show ?thesis using tmp_cleanup [OF t ne m] b by blast
qed

text \<open>C29: On a well-formed file system, every exception of download_from_gh_latest (the API or the tarball unreachable, a missing tarball_url, a member escaping the extraction directory, an empty archive, a failing shutil.move) leaves every path of the file system as it was: the temporary directory and everything extracted into it are removed.\<close>

theorem gh_latest_error_unchanged:
  assumes t: "fs_tree fs" and d: "download_from_gh_latest gh env fs tn dest ow nm = (fs', Inl e)"
  shows "fs_agree (\<lambda>_. True) fs fs'"
proof -
  let ?T = "env_tempdir env @ [tn]"
  have c: "\<And>fs1 ms fs2 eo. \<not> fs_exists fs ?T \<Longrightarrow> fs_mkdir fs ?T = Inr fs1 \<Longrightarrow> tar_extract fs1 ?T ms = (fs2, eo) \<Longrightarrow>
             fs_agree (\<lambda>_. True) fs (fs_rmtree fs2 ?T)"
    by (rule extract_cleanup [OF t])
  show ?thesis
    using d c
    by (auto simp: download_from_gh_latest_def Let_def
             split: sum.splits yaml.splits prod.splits option.splits if_splits)
qed

theorem gh_latest_error_unchanged_witness:
  "snd (download_from_gh_latest release_fixture download_fixture_env download_fixture_fs ''tmp5x'' [''/'', ''w'', ''broken''] ''pulp'' ''broken'')
     = Inl (TarError ''OutsideDestinationError: ../escape.md'') \<and>
   fs_agree (\<lambda>_. True) download_fixture_fs
     (fst (download_from_gh_latest release_fixture download_fixture_env download_fixture_fs ''tmp5x'' [''/'', ''w'', ''broken''] ''pulp'' ''broken''))"
proof -
  let ?d = "download_from_gh_latest release_fixture download_fixture_env download_fixture_fs ''tmp5x'' [''/'', ''w'', ''broken''] ''pulp'' ''broken''"
  have t: "fs_tree download_fixture_fs" by code_simp
  have e: "snd ?d = Inl (TarError ''OutsideDestinationError: ../escape.md'')" by code_simp
  have "?d = (fst ?d, Inl (TarError ''OutsideDestinationError: ../escape.md''))" using e by (cases ?d) simp
  with gh_latest_error_unchanged [OF t] e show ?thesis by blast
qed

subsection \<open>A successful download places the archive's tree\<close>

lemma fs_mkdir_files: "fs_mkdir fs p = Inr fs' \<Longrightarrow> fs_files fs' = fs_files fs"
  by (auto simp: fs_mkdir_def split: if_splits)

lemma fs_makedirs_files: "fs_makedirs fs p = Inr fs' \<Longrightarrow> fs_files fs' = fs_files fs"
proof (induction fs p arbitrary: fs' rule: fs_makedirs.induct)
  case (1 fs p)
  obtain fs1 where m1: "(if butlast p \<noteq> [] \<and> \<not> fs_exists fs (butlast p) then
               (case fs_makedirs fs (butlast p) of Inl (FileExistsError _) \<Rightarrow> Inr fs | r \<Rightarrow> r)
             else Inr fs) = Inr fs1" and m2: "fs_mkdir fs1 p = Inr fs'"
    using fs_makedirs_step [OF "1.prems"] by blast
  have "fs_files fs1 = fs_files fs"
    using m1 "1.IH" by (auto split: if_splits sum.splits py_error.splits)
  then show ?case using fs_mkdir_files [OF m2] by simp
qed

lemma fs_write_file_files: "fs_write_file fs p c = Inr fs' \<Longrightarrow> map_of (fs_files fs') = (map_of (fs_files fs))(p \<mapsto> c)"
  by (auto simp: fs_write_file_def split: if_splits)

lemma tar_extract_member_files:
  assumes "tar_extract_member fs tmp m = Inr fs'"
  shows "map_of (fs_files fs') p =
           (case m of TarFile n c \<Rightarrow> (if tar_target tmp n = Inr p then Some c else map_of (fs_files fs) p)
                    | TarDir n \<Rightarrow> map_of (fs_files fs) p)"
proof -
  obtain q where q: "tar_target tmp (tar_member_name m) = Inr q"
    using assms by (cases "tar_target tmp (tar_member_name m)") (auto simp: tar_extract_member_def)
  obtain fs1 where m1: "(if butlast q \<noteq> [] \<and> \<not> fs_exists fs (butlast q) then fs_makedirs fs (butlast q) else Inr fs) = Inr fs1"
    and m2: "(case m of TarDir n \<Rightarrow> (if fs_is_dir fs1 q then Inr fs1 else fs_mkdir fs1 q)
                      | TarFile n c \<Rightarrow> fs_write_file fs1 q c) = Inr fs'"
    using assms q by (cases "if butlast q \<noteq> [] \<and> \<not> fs_exists fs (butlast q) then fs_makedirs fs (butlast q) else Inr fs")
      (auto simp: tar_extract_member_def Let_def)
  have f1: "fs_files fs1 = fs_files fs" using m1 fs_makedirs_files by (auto split: if_splits)
  show ?thesis
  proof (cases m)
    case (TarDir n)
    then show ?thesis using m2 f1 fs_mkdir_files by (auto split: if_splits)
  next
    case (TarFile n c)
    then show ?thesis using m2 f1 q fs_write_file_files [of fs1 q c fs'] by auto
  qed
qed

lemma tar_extract_files:
  "tar_extract fs tmp ms = (fs2, None) \<Longrightarrow>
     map_of (fs_files fs2) p = (case tar_file_at tmp ms p of Some c \<Rightarrow> Some c | None \<Rightarrow> map_of (fs_files fs) p)"
proof (induction ms arbitrary: fs)
  case (Cons m ms)
  obtain fs1 where m: "tar_extract_member fs tmp m = Inr fs1"
    using Cons.prems by (cases "tar_extract_member fs tmp m") auto
  have ih: "map_of (fs_files fs2) p = (case tar_file_at tmp ms p of Some c \<Rightarrow> Some c | None \<Rightarrow> map_of (fs_files fs1) p)"
    using Cons.IH Cons.prems m by simp
  show ?case using ih tar_extract_member_files [OF m, of p]
    by (auto split: option.splits tar_member.splits)
qed simp

lemma tar_extract_member_dir_mono:
  assumes "tar_extract_member fs tmp m = Inr fs'" and "fs_is_dir fs k"
  shows "fs_is_dir fs' k"
proof -
  obtain q where q: "tar_target tmp (tar_member_name m) = Inr q"
    using assms by (cases "tar_target tmp (tar_member_name m)") (auto simp: tar_extract_member_def)
  obtain fs1 where m1: "(if butlast q \<noteq> [] \<and> \<not> fs_exists fs (butlast q) then fs_makedirs fs (butlast q) else Inr fs) = Inr fs1"
    and m2: "(case m of TarDir n \<Rightarrow> (if fs_is_dir fs1 q then Inr fs1 else fs_mkdir fs1 q)
                      | TarFile n c \<Rightarrow> fs_write_file fs1 q c) = Inr fs'"
    using assms q by (cases "if butlast q \<noteq> [] \<and> \<not> fs_exists fs (butlast q) then fs_makedirs fs (butlast q) else Inr fs")
      (auto simp: tar_extract_member_def Let_def)
  have "fs_is_dir fs1 k" using m1 assms(2) fs_makedirs_dir_mono by (auto split: if_splits)
  then show ?thesis using m2 fs_mkdir_dir_mono fs_write_file_dir_mono by (auto split: tar_member.splits if_splits)
qed

lemma tar_extract_dir_mono:
  "tar_extract fs tmp ms = (fs2, eo) \<Longrightarrow> fs_is_dir fs k \<Longrightarrow> fs_is_dir fs2 k"
proof (induction ms arbitrary: fs)
  case (Cons m ms)
  then show ?case using tar_extract_member_dir_mono by (auto split: sum.splits)
qed simp


lemma split_char_snoc: "c \<notin> set s \<Longrightarrow> split_char c (s @ [c]) = [s, []]"
  by (induction s) auto

lemma split_ws_go_nospace:
  "list_all (\<lambda>c. \<not> is_py_space c) s \<Longrightarrow> split_ws_go acc s = (if acc = [] \<and> s = [] then [] else [rev acc @ s])"
  by (induction s arbitrary: acc) auto

lemma slash_not_space: "\<not> is_py_space CHR ''/''"
  by (simp add: is_py_space_def)

lemma first_member_word_dir:
  assumes "\<not> list_ex is_py_space w"
  shows "first_member_word (TarDir (w @ ''/'') # ms) = Inr (w @ ''/'')"
proof -
  have "list_all (\<lambda>c. \<not> is_py_space c) (w @ ''/'')" using assms slash_not_space
    by (simp add: list_all_iff list_ex_iff)
  then show ?thesis by (simp add: first_member_word_def py_split_ws_def split_ws_go_nospace)
qed

lemma path_parts_dir_name: "entry_name_ok w \<Longrightarrow> path_parts (w @ ''/'') = [w]"
proof -
  assume w: "entry_name_ok w"
  then obtain x xs where "w = x # xs" "x \<noteq> CHR ''/''" by (cases w) (auto simp: entry_name_ok_def)
  then have "\<not> startswith ''/'' (w @ ''/'')" by simp
  moreover have "split_char CHR ''/'' (w @ ''/'') = [w, []]" using w by (simp add: entry_name_ok_def split_char_snoc)
  ultimately show ?thesis using w by (simp add: path_parts_def entry_name_ok_def)
qed

lemma path_div_dir_name: "entry_name_ok w \<Longrightarrow> path_div p (w @ ''/'') = p @ [w]"
proof -
  assume w: "entry_name_ok w"
  then obtain x xs where "w = x # xs" "x \<noteq> CHR ''/''" by (cases w) (auto simp: entry_name_ok_def)
  then have "path_root (w @ ''/'') = []" by simp
  then show ?thesis using path_parts_dir_name [OF w] by (simp add: path_div_def)
qed

lemma tar_target_dir_name: "entry_name_ok w \<Longrightarrow> tar_target tmp (w @ ''/'') = Inr (tmp @ [w])"
proof -
  assume w: "entry_name_ok w"
  then obtain x xs where "w = x # xs" "x \<noteq> CHR ''/''" by (cases w) (auto simp: entry_name_ok_def)
  then have "dropWhile (\<lambda>c. c = CHR ''/'') (w @ ''/'') = w @ ''/''" by simp
  then show ?thesis using path_parts_dir_name [OF w] w by (auto simp: tar_target_def entry_name_ok_def)
qed

lemma tar_extract_member_dir:
  assumes q: "tar_target tmp n = Inr q" and m: "tar_extract_member fs tmp (TarDir n) = Inr fs'"
  shows "fs_is_dir fs' q"
proof -
  obtain fs1 where "(if fs_is_dir fs1 q then Inr fs1 else fs_mkdir fs1 q) = Inr fs'"
    using m q by (auto simp: tar_extract_member_def Let_def sbind_def split: sum.splits if_splits)
  then show ?thesis using fs_mkdir_Inr_dir by (auto simp: fs_is_dir_def split: if_splits)
qed

lemma map_of_subtree_key:
  "map_of (map (\<lambda>(q, v). (''/'' # drop (length src) q, v)) (filter (\<lambda>(q, v). prefix src q) xs)) (''/'' # r) =
     map_of xs (src @ r)"
proof (induction xs)
  case (Cons e xs)
  obtain q v where e: "e = (q, v)" by fastforce
  have "(prefix src q \<and> drop (length src) q = r) \<longleftrightarrow> q = src @ r" by (auto simp: prefix_def)
  then show ?case using Cons by (auto simp: e)
qed simp

lemma fs_subtree_files: "map_of (fs_files (fs_subtree fs src)) (''/'' # r) = map_of (fs_files fs) (src @ r)"
  by (simp add: fs_subtree_def map_of_subtree_key)

lemma fs_graft_files_below:
  assumes "\<forall>q\<in>fst ` set (fs_files t). q \<noteq> [] \<and> hd q = ''/''"
  shows "map_of (fs_files (fs_graft fs dst t)) (dst @ r) = map_of (fs_files t) (''/'' # r)"
  using assms by (simp add: fs_graft_def map_of_graft_key map_of_filter_key map_add_def split: option.split)

lemma fs_subtree_rooted: "\<forall>q\<in>fst ` set (fs_files (fs_subtree fs src)). q \<noteq> [] \<and> hd q = ''/''"
  by (auto simp: fs_subtree_def)

lemma fs_rmtree_files:
  "map_of (fs_files (fs_rmtree fs p)) k = (if fs_is_dir fs p \<and> prefix p k then None else map_of (fs_files fs) k)"
  by (simp add: fs_rmtree_def map_of_filter_key)

lemma prefix_apart: "\<not> prefix d t \<Longrightarrow> \<not> prefix t d \<Longrightarrow> \<not> prefix t (d @ x)"
  by (auto simp: prefix_append)


lemma gh_latest_Inr:
  assumes "download_from_gh_latest gh env fs tn dest ow nm = (fs', Inr url)"
  shows "\<exists>members fs1 fs2 wd fs3. http_get_tar gh url = Inr members \<and>
           \<not> fs_exists fs (env_tempdir env @ [tn]) \<and> fs_mkdir fs (env_tempdir env @ [tn]) = Inr fs1 \<and>
           tar_extract fs1 (env_tempdir env @ [tn]) members = (fs2, None) \<and> first_member_word members = Inr wd \<and>
           gh_move fs2 (path_absolute (env_cwd env) (path_div (env_tempdir env @ [tn]) wd))
             (path_absolute (env_cwd env) dest) = Inr fs3 \<and>
           fs' = fs_rmtree fs3 (env_tempdir env @ [tn])"
  using assms
  by (auto simp: download_from_gh_latest_def Let_def sbind_def
           split: sum.splits yaml.splits prod.splits option.splits if_splits)

lemma move_to_dir_files:
  assumes d: "fs_is_dir fs src" and m: "move_to fs src dst real = Inr fs3" and np: "\<not> prefix src (real @ r)"
  shows "map_of (fs_files fs3) (real @ r) = map_of (fs_files fs) (src @ r)"
proof -
  obtain fs1 where m1: "fs_makedirs fs real = Inr fs1"
    and f3: "fs3 = fs_rmtree (fs_graft fs1 real (fs_subtree fs src)) src"
    using d m by (auto simp: move_to_def sbind_def split: if_splits sum.splits)
  show ?thesis
    using np by (simp add: f3 fs_rmtree_files fs_graft_files_below [OF fs_subtree_rooted] fs_subtree_files)
qed


text \<open>C30: When download_from_gh_latest succeeds on a well-formed file system with an archive whose first member is a top directory <w>/ (a plain name without whitespace) and a destination apart from the temporary directory, every file below the tree it places holds what the archive gives the path below <w>/ (the last file member extracted there wins). The tree is placed at dest_dir itself when dest_dir did not exist, and at dest_dir/<w> when it was an existing directory.\<close>

theorem gh_latest_places_tree:
  assumes t: "fs_tree fs" and abs: "is_absolute (env_tempdir env)"
    and d: "download_from_gh_latest gh env fs tn dest ow nm = (fs', Inr url)"
    and g: "http_get_tar gh url = Inr (TarDir (w @ ''/'') # ms)"
    and w: "entry_name_ok w" "\<not> list_ex is_py_space w"
    and sep: "\<not> prefix (path_absolute (env_cwd env) dest) (env_tempdir env @ [tn])"
             "\<not> prefix (env_tempdir env @ [tn]) (path_absolute (env_cwd env) dest)"
  shows "map_of (fs_files fs')
           ((if fs_is_dir fs (path_absolute (env_cwd env) dest) then path_absolute (env_cwd env) dest @ [w]
             else path_absolute (env_cwd env) dest) @ r) =
         tar_file_at (env_tempdir env @ [tn]) (TarDir (w @ ''/'') # ms) (env_tempdir env @ [tn] @ [w] @ r)"
proof -
  let ?T = "env_tempdir env @ [tn]" and ?D = "path_absolute (env_cwd env) dest"
  let ?M = "TarDir (w @ ''/'') # ms"
  let ?R = "if fs_is_dir fs ?D then ?D @ [w] else ?D"
  from gh_latest_Inr [OF d] obtain fs1 fs2 wd fs3 where
    ne: "\<not> fs_exists fs ?T" and m: "fs_mkdir fs ?T = Inr fs1" and x: "tar_extract fs1 ?T ?M = (fs2, None)"
    and fw: "first_member_word ?M = Inr wd"
    and mv: "gh_move fs2 (path_absolute (env_cwd env) (path_div ?T wd)) ?D = Inr fs3"
    and f': "fs' = fs_rmtree fs3 ?T"
    using g by auto
  have wd: "wd = w @ ''/''" using fw first_member_word_dir [OF w(2)] by simp
  have Tabs: "is_absolute ?T" using abs by (simp add: is_absolute_def)
  have "is_absolute (?T @ [w])" using abs by (simp add: is_absolute_def hd_append)
  then have src: "path_absolute (env_cwd env) (path_div ?T wd) = ?T @ [w]"
    by (simp add: wd path_absolute_def path_div_dir_name [OF w(1)])
  \<comment> \<open>the extraction\<close>
  have d1: "fs_is_dir fs1 ?T" and b1: "fs_exists fs1 (butlast ?T)"
    using m by (auto simp: fs_mkdir_def fs_is_dir_def fs_exists_def map_of_dir_add_entry split: if_splits option.splits)
  obtain fs1' where m1: "tar_extract_member fs1 ?T (TarDir (w @ ''/'')) = Inr fs1'" and x': "tar_extract fs1' ?T ms = (fs2, None)"
    using x by (cases "tar_extract_member fs1 ?T (TarDir (w @ ''/''))") auto
  have sd: "fs_is_dir fs2 (?T @ [w])"
    using tar_extract_dir_mono [OF x' tar_extract_member_dir [OF tar_target_dir_name [OF w(1)] m1]] .
  have a1: "fs_agree (\<lambda>k. \<not> prefix k ?T) fs fs1" by (rule fs_mkdir_agree [OF m])
  have a2: "fs_agree (\<lambda>k. \<not> prefix ?T k) fs1 fs2" using tar_extract_below [OF x d1 b1] by blast
  have dD: "fs_is_dir fs2 ?D = fs_is_dir fs ?D"
    using fs_agreeD [OF a1, of ?D] fs_agreeD [OF a2, of ?D] sep by (simp add: fs_is_dir_def)
  \<comment> \<open>the move\<close>
  have nsD: "?T @ [w] \<noteq> ?D" using sep(2) by (metis prefix_def)
  have mv': "move_to fs2 (?T @ [w]) ?D ?R = Inr fs3"
    using mv nsD dD by (auto simp: gh_move_def src Let_def split: if_splits)
  have apart: "\<not> prefix ?T (?R @ r)" using prefix_apart [OF sep] by (auto split: if_splits)
  then have "\<not> prefix (?T @ [w]) (?R @ r)" by (metis prefix_order.trans prefixI)
  from move_to_dir_files [OF sd mv' this]
  have f3: "map_of (fs_files fs3) (?R @ r) = map_of (fs_files fs2) (?T @ [w] @ r)" by simp
  \<comment> \<open>the files below the fresh temporary directory come from the archive\<close>
  have "map_of (fs_files fs1) (?T @ [w] @ r) = None"
    using under_missing [OF t ne _, of "?T @ [w] @ r"] fs_mkdir_files [OF m] by simp
  then have "map_of (fs_files fs2) (?T @ [w] @ r) = tar_file_at ?T ?M (?T @ [w] @ r)"
    using tar_extract_files [OF x, of "?T @ [w] @ r"] by (simp split: option.splits)
  then show ?thesis using f3 apart by (simp add: f' fs_rmtree_files)
qed


theorem gh_latest_places_tree_witness:
  "map_of (fs_files (fst (download_from_gh_latest release_fixture download_fixture_env download_fixture_fs ''tmp5x''
      [''/'', ''w''] ''pulp'' ''core''))) [''/'', ''w'', ''pulp-core-1a2b'', ''docs'', ''index.md''] = Some ''# Pulp'' \<and>
   map_of (fs_files (fst (download_from_gh_latest release_fixture download_fixture_env download_fixture_fs ''tmp5x''
      [''/'', ''w'', ''core''] ''pulp'' ''core''))) [''/'', ''w'', ''core'', ''docs'', ''index.md''] = Some ''# Pulp''"
proof -
  let ?url = "''https://api.github.com/repos/pulp/core/tarball/3.50.0''"
  let ?ms = "[TarDir ''pulp-core-1a2b/docs/'', TarFile ''pulp-core-1a2b/docs/index.md'' ''# Pulp'',
              TarFile ''pulp-core-1a2b/README.md'' ''readme'']"
  have t: "fs_tree download_fixture_fs" by code_simp
  have abs: "is_absolute (env_tempdir download_fixture_env)" by code_simp
  have g: "http_get_tar release_fixture ?url = Inr (TarDir (''pulp-core-1a2b'' @ ''/'') # ?ms)" by code_simp
  have w: "entry_name_ok ''pulp-core-1a2b''" "\<not> list_ex is_py_space ''pulp-core-1a2b''" by code_simp+
  have tf: "tar_file_at (env_tempdir download_fixture_env @ [''tmp5x'']) (TarDir (''pulp-core-1a2b'' @ ''/'') # ?ms)
              (env_tempdir download_fixture_env @ [''tmp5x''] @ [''pulp-core-1a2b''] @ [''docs'', ''index.md'']) = Some ''# Pulp''"
    by code_simp
  have P: "\<And>dest. dest \<in> {[''/'', ''w''], [''/'', ''w'', ''core'']} \<Longrightarrow>
          map_of (fs_files (fst (download_from_gh_latest release_fixture download_fixture_env download_fixture_fs ''tmp5x''
            dest ''pulp'' ''core'')))
           ((if fs_is_dir download_fixture_fs (path_absolute (env_cwd download_fixture_env) dest)
             then path_absolute (env_cwd download_fixture_env) dest @ [''pulp-core-1a2b'']
             else path_absolute (env_cwd download_fixture_env) dest) @ [''docs'', ''index.md'']) = Some ''# Pulp''"
  proof -
    fix dest :: path assume dm: "dest \<in> {[''/'', ''w''], [''/'', ''w'', ''core'']}"
    have r: "snd (download_from_gh_latest release_fixture download_fixture_env download_fixture_fs ''tmp5x'' dest ''pulp'' ''core'') = Inr ?url"
      using dm by (elim insertE emptyE; hypsubst; code_simp)
    have sep: "\<not> prefix (path_absolute (env_cwd download_fixture_env) dest) (env_tempdir download_fixture_env @ [''tmp5x''])"
      "\<not> prefix (env_tempdir download_fixture_env @ [''tmp5x'']) (path_absolute (env_cwd download_fixture_env) dest)"
      using dm by (elim insertE emptyE; hypsubst; code_simp)+
    have d: "download_from_gh_latest release_fixture download_fixture_env download_fixture_fs ''tmp5x'' dest ''pulp'' ''core'' =
               (fst (download_from_gh_latest release_fixture download_fixture_env download_fixture_fs ''tmp5x'' dest ''pulp'' ''core''), Inr ?url)"
      using r by (cases "download_from_gh_latest release_fixture download_fixture_env download_fixture_fs ''tmp5x'' dest ''pulp'' ''core''") simp
    from gh_latest_places_tree [OF t abs d g w sep, of "[''docs'', ''index.md'']"] tf
    show "?thesis dest" by simp
  qed
  have "fs_is_dir download_fixture_fs [''/'', ''w'']" "\<not> fs_is_dir download_fixture_fs [''/'', ''w'', ''core'']"
    by code_simp+
  then show ?thesis
    using P [of "[''/'', ''w'']"] P [of "[''/'', ''w'', ''core'']"]
    by (simp add: path_absolute_def is_absolute_def is_root_part_def)
qed

end
