(* ===== verification/Legacy.thy ===== *)
theory Legacy
  imports Release
begin

text \<open>
  LegacyPluginRepos: \<open>src/pulp_docs/plugin_repos.py\<close>, the older copy of
  \<open>repository.py\<close>. Its \<open>Repo\<close> declares \<open>status: RepoStatus = RepoStatus()\<close>.
  That default is one object, created when the class body runs and shared by
  every repository built without a status. (Python 3.11 and later refuse
  the class; older versions accept it.) So the status is modelled by
  reference: the \<open>RepoStatus\<close> objects live in a heap \<open>status_heap\<close>, a
  repository holds the index of its status, and the shared default is
  \<open>SHARED_STATUS\<close>, the first object of the initial heap \<open>lg_heap0\<close>. Every
  assignment \<open>repo.status.x = v\<close> updates the heap. The other differences
  from \<open>repository.py\<close> are the field names of \<open>Repos\<close> (\<open>core\<close>,
  \<open>content\<close>, \<open>other\<close>) and the fixed ignore patterns of \<open>Repo.download\<close>.
  \<open>download_from_gh_main\<close> (lines 123-141), \<open>download_from_gh_latest\<close>
  (lines 144-174) and \<open>Repo.rest_api_link\<close> are the same code in both
  files; they are written out again here and proved equal to the Download
  and Release definitions. \<open>from_yaml\<close> runs the same body as in
  \<open>repository.py\<close>, \<open>load_repolist\<close> of RepoConfig. \<open>lg_abs\<close> reads a legacy repository
  through the heap as a \<open>repository.py\<close> record, and the refinement lemmas
  are stated with it.
\<close>

type_synonym status_ref = nat
type_synonym status_heap = "repo_status list"

record lg_repo =
  lg_title :: string
  lg_name :: string
  lg_owner :: string
  lg_branch :: string
  lg_local_basepath :: "path option"
  lg_status :: status_ref
  lg_type :: "string option"

record lg_repos =
  lg_core :: lg_repo
  lg_content :: "lg_repo list"
  lg_other :: "lg_repo list"

text \<open>The default \<open>RepoStatus()\<close> of the class body.\<close>

definition SHARED_STATUS :: status_ref where
  "SHARED_STATUS = 0"

definition lg_heap0 :: status_heap where
  "lg_heap0 = [default_status]"

definition lg_mk_repo :: "string \<Rightarrow> string \<Rightarrow> path option \<Rightarrow> string option \<Rightarrow> lg_repo" where
  "lg_mk_repo t n basepath ty =
     \<lparr>lg_title = t, lg_name = n, lg_owner = ''pulp'', lg_branch = ''main'', lg_local_basepath = basepath,
      lg_status = SHARED_STATUS, lg_type = ty\<rparr>"

definition lg_repos_all :: "lg_repos \<Rightarrow> lg_repo list" where
  "lg_repos_all rs = [lg_core rs] @ lg_content rs @ lg_other rs"

text \<open>\<open>repo.status.x = v\<close>: the object the repository refers to is updated.\<close>

definition lg_set_status :: "status_heap \<Rightarrow> lg_repo \<Rightarrow> (repo_status \<Rightarrow> repo_status) \<Rightarrow> status_heap" where
  "lg_set_status h r f = h[lg_status r := f (h ! lg_status r)]"

definition lg_test_fixtures :: "path \<Rightarrow> lg_repos" where
  "lg_test_fixtures cwd =
     \<lparr>lg_core = lg_mk_repo ''Pulp Core'' ''core'' None (Some ''core''),
      lg_content =
        [lg_mk_repo ''Rpm Packages'' ''new_repo1'' (Some (fixture_workdir cwd)) (Some ''content''),
         lg_mk_repo ''Debian Packages'' ''new_repo2'' (Some (fixture_workdir cwd)) (Some ''content''),
         lg_mk_repo ''Maven'' ''new_repo3'' (Some (fixture_workdir cwd)) (Some ''content'')],
      lg_other = []\<rparr>"

subsection \<open>\<open>Repos.from_yaml\<close>\<close>

definition lg_repo_call :: "yaml \<Rightarrow> string \<Rightarrow> lg_repo result" where
  "lg_repo_call y ty =
     sbind (repo_kwargs y) (\<lambda>(ti, n, ow, br, lb).
       Inr \<lparr>lg_title = ti, lg_name = n, lg_owner = ow, lg_branch = br, lg_local_basepath = lb,
            lg_status = SHARED_STATUS, lg_type = Some ty\<rparr>)"

definition lg_from_yaml :: "fsys \<Rightarrow> path \<Rightarrow> (string \<Rightarrow> yaml result) \<Rightarrow> string \<Rightarrow> lg_repos result" where
  "lg_from_yaml fs cwd load p =
     sbind (load_repolist lg_repo_call fs cwd load p) (\<lambda>(c, cs, os).
       Inr \<lparr>lg_core = c, lg_content = cs, lg_other = os\<rparr>)"

subsection \<open>\<open>Repos.update_local_checkouts\<close>\<close>

definition lg_checkout_update ::
  "fsys \<Rightarrow> path \<Rightarrow> status_heap \<Rightarrow> lg_repo \<Rightarrow> status_heap \<times> lg_repo \<times> py_error option" where
  "lg_checkout_update fs parent h r =
     (let checkout_dir = path_div parent (lg_name r) in
      if lg_local_basepath r = None \<and> fs_exists fs checkout_dir then
        (let h1 = lg_set_status h r (\<lambda>s. s\<lparr>use_local_checkout := True\<rparr>);
             r1 = r\<lparr>lg_local_basepath := Some parent\<rparr>
         in case read_text fs (path_div (path_div checkout_dir ''.git'') ''HEAD'') of
              Inl e \<Rightarrow> (h1, r1, Some e)
            | Inr txt \<Rightarrow>
                (let checkout_refs = filter (\<lambda>c. c \<noteq> CHR 0x0A) (drop (length ''ref: '') txt)
                 in (lg_set_status h1 r1 (\<lambda>s. s\<lparr>original_refs := Some (lg_branch r1)\<rparr>),
                     r1\<lparr>lg_branch := checkout_refs\<rparr>, None)))
      else (h, r, None))"

fun lg_checkout_loop ::
  "fsys \<Rightarrow> path \<Rightarrow> status_heap \<Rightarrow> lg_repo list \<Rightarrow> status_heap \<times> lg_repo list \<times> py_error option" where
  "lg_checkout_loop fs parent h [] = (h, [], None)"
| "lg_checkout_loop fs parent h (r # rs) =
     (case lg_checkout_update fs parent h r of
        (h', r', Some e) \<Rightarrow> (h', r' # rs, Some e)
      | (h', r', None) \<Rightarrow> (let (h'', rs', e) = lg_checkout_loop fs parent h' rs in (h'', r' # rs', e)))"

definition lg_update_local_checkouts ::
  "fsys \<Rightarrow> path \<Rightarrow> status_heap \<Rightarrow> lg_repos \<Rightarrow> status_heap \<times> lg_repos \<times> py_error option" where
  "lg_update_local_checkouts fs parent h rs =
     (let (h', xs, e) = lg_checkout_loop fs parent h (lg_repos_all rs);
          n = length (lg_content rs)
      in (h', rs\<lparr>lg_core := hd xs, lg_content := take n (tl xs), lg_other := drop n (tl xs)\<rparr>, e))"

subsection \<open>\<open>Repo.download\<close>\<close>

text \<open>\<open>Repo.rest_api_link\<close>, with the module's own \<open>RESTAPI_TEMPLATE\<close>
  (line 26), which has the value of the one in \<open>repository.py\<close>.\<close>

definition lg_rest_api_link :: "lg_repo \<Rightarrow> string result" where
  "lg_rest_api_link r = py_format RESTAPI_TEMPLATE [lg_name r] []"

text \<open>\<open>download_from_gh_main\<close> and \<open>download_from_gh_latest\<close> of
  \<open>plugin_repos.py\<close>: the module-level functions, written as in
  \<open>repository.py\<close> line for line.\<close>

definition lg_download_from_gh_main ::
  "dl_env \<Rightarrow> fsys \<Rightarrow> path \<Rightarrow> string \<Rightarrow> string \<Rightarrow> string \<Rightarrow> fsys \<times> string result" where
  "lg_download_from_gh_main env fs dest_dir ow nm br =
     (let url = gh_url ow nm;
          err = CalledProcessError (''git clone --depth 1 --branch '' @ br @ '' '' @ url @ '' '' @ path_str dest_dir)
      in case map_of (env_remotes env) (url, br) of
           None \<Rightarrow> (fs, Inl err)
         | Some tree \<Rightarrow>
             (if fs_is_file fs dest_dir \<or> (fs_is_dir fs dest_dir \<and> fs_listdir fs dest_dir \<noteq> Some []) then (fs, Inl err)
              else (case (if fs_is_dir fs dest_dir then Inr fs else fs_makedirs fs dest_dir) of
                      Inl _ \<Rightarrow> (fs, Inl err)
                    | Inr fs1 \<Rightarrow> (fs_graft fs1 dest_dir tree, Inr url))))"

definition lg_download_from_gh_latest ::
  "gh_env \<Rightarrow> dl_env \<Rightarrow> fsys \<Rightarrow> string \<Rightarrow> path \<Rightarrow> string \<Rightarrow> string \<Rightarrow> fsys \<times> string result" where
  "lg_download_from_gh_latest gh env fs tmp_name dest_dir ow nm =
     (case sbind (py_format GH_LATEST_TEMPLATE [ow, nm] []) (\<lambda>link.
             sbind (http_get_json gh link) (\<lambda>data. ysubscript data ''tarball_url'')) of
        Inl e \<Rightarrow> (fs, Inl e)
      | Inr (YStr url) \<Rightarrow>
          (case http_get_tar gh url of
             Inl e \<Rightarrow> (fs, Inl e)
           | Inr members \<Rightarrow>
               (let tmpdir = env_tempdir env @ [tmp_name] in
                if fs_exists fs tmpdir then (fs, Inl (Unmodelled ''mkdtemp retries a name in use''))
                else
                  (case fs_mkdir fs tmpdir of
                     Inl e \<Rightarrow> (fs, Inl e)
                   | Inr fs1 \<Rightarrow>
                       (case tar_extract fs1 tmpdir members of
                          (fs2, Some e) \<Rightarrow> (fs_rmtree fs2 tmpdir, Inl e)
                        | (fs2, None) \<Rightarrow>
                            (case sbind (first_member_word members) (\<lambda>w.
                                    gh_move fs2 (path_absolute (env_cwd env) (path_div tmpdir w))
                                      (path_absolute (env_cwd env) dest_dir)) of
                               Inl e \<Rightarrow> (fs_rmtree fs2 tmpdir, Inl e)
                             | Inr fs3 \<Rightarrow> (fs_rmtree fs3 tmpdir, Inr url))))))
      | Inr v \<Rightarrow> (fs, Inl (Unmodelled (''tarball_url given as '' @ yaml_type v))))"

text \<open>\<open>ignore=shutil.ignore_patterns("tests", "*venv*", "__pycache__")\<close>\<close>

definition LEGACY_IGNORE :: "string list" where
  "LEGACY_IGNORE = [''tests'', ''*venv*'', ''__pycache__'']"

definition lg_download_origin ::
  "dl_env \<Rightarrow> fsys \<Rightarrow> status_heap \<Rightarrow> lg_repo \<Rightarrow> fsys \<times> status_heap \<times> (string \<times> path) result" where
  "lg_download_origin env fs h r =
     (let cached_repo = path_absolute (env_cwd env) (path_div (DOWNLOAD_CACHE_DIR env) (lg_name r)) in
      case lg_local_basepath r of
        Some lb \<Rightarrow>
          (let p = path_absolute (env_cwd env) (path_div lb (lg_name r)) in (fs, h, Inr (path_str p, p)))
      | None \<Rightarrow>
          (if fs_exists fs cached_repo then
             (fs, lg_set_status h r (\<lambda>s. s\<lparr>using_cache := True\<rparr>), Inr (path_str cached_repo, cached_repo))
           else
             (case lg_download_from_gh_main env fs (path_div (DOWNLOAD_CACHE_DIR env) (lg_name r))
                     (lg_owner r) (lg_name r) (lg_branch r) of
                (fs2, Inl e) \<Rightarrow> (fs2, h, Inl e)
              | (fs2, Inr url) \<Rightarrow> (fs2, h, Inr (url, path_div (DOWNLOAD_CACHE_DIR env) (lg_name r))))))"

definition lg_download ::
  "dl_env \<Rightarrow> fsys \<Rightarrow> status_heap \<Rightarrow> lg_repo \<Rightarrow> path \<Rightarrow> bool \<Rightarrow> ((fsys \<times> status_heap) \<times> string result) option" where
  "lg_download env fs h r dest_dir clear_cache =
     (case (if clear_cache then clear_download_cache env fs else (fs, Inr fs)) of
        (fs0, Inl e) \<Rightarrow> Some ((fs0, h), Inl e)
      | (_, Inr fs1) \<Rightarrow>
          (case lg_download_origin env fs1 h r of
             (fs2, h2, Inl e) \<Rightarrow> Some ((fs2, h2), Inl e)
           | (fs2, h2, Inr (download_from, copy_path)) \<Rightarrow>
               map_option
                 (\<lambda>(fs3, res). case res of
                     Inl e \<Rightarrow> ((fs3, h2), Inl e)
                   | Inr _ \<Rightarrow> ((fs3, lg_set_status h2 r (\<lambda>s. s\<lparr>download_source := Some download_from\<rparr>)),
                              Inr download_from))
                 (copytree (copy_fuel fs2) LEGACY_IGNORE copy_path dest_dir fs2)))"

subsection \<open>Reading a legacy repository as a current one\<close>

definition lg_abs :: "status_heap \<Rightarrow> lg_repo \<Rightarrow> repo" where
  "lg_abs h r =
     \<lparr>title = lg_title r, name = lg_name r, owner = lg_owner r, branch = lg_branch r,
      local_basepath = lg_local_basepath r, status = h ! lg_status r, repo_type = lg_type r\<rparr>"

definition lg_abs_repos :: "status_heap \<Rightarrow> lg_repos \<Rightarrow> repos" where
  "lg_abs_repos h rs =
     \<lparr>core_repo = lg_abs h (lg_core rs), content_repos = map (lg_abs h) (lg_content rs),
      other_repos = map (lg_abs h) (lg_other rs)\<rparr>"

text \<open>Every repository has a status object of its own in the heap.\<close>

definition lg_separate :: "status_heap \<Rightarrow> lg_repo list \<Rightarrow> bool" where
  "lg_separate h xs \<longleftrightarrow> distinct (map lg_status xs) \<and> list_all (\<lambda>r. lg_status r < length h) xs"

text \<open>Examples: the fixture repositories each with a status object of its
  own, as \<open>repository.py\<close> builds them, and a repolist naming the
  repository the download example can clone.\<close>

definition lg_own_status_fixtures :: "path \<Rightarrow> lg_repos" where
  "lg_own_status_fixtures cwd =
     \<lparr>lg_core = lg_mk_repo ''Pulp Core'' ''core'' None (Some ''core''),
      lg_content =
        [(lg_mk_repo ''Rpm Packages'' ''new_repo1'' (Some (fixture_workdir cwd)) (Some ''content''))\<lparr>lg_status := 1\<rparr>,
         (lg_mk_repo ''Debian Packages'' ''new_repo2'' (Some (fixture_workdir cwd)) (Some ''content''))\<lparr>lg_status := 2\<rparr>,
         (lg_mk_repo ''Maven'' ''new_repo3'' (Some (fixture_workdir cwd)) (Some ''content''))\<lparr>lg_status := 3\<rparr>],
      lg_other = []\<rparr>"

definition legacy_repolist :: yaml where
  "legacy_repolist =
     repos_yaml \<lparr>core_repo = mk_repo ''Pulp Core'' ''core'' None (Some ''core''),
                 content_repos = [mk_repo ''Rpm Packages'' ''pulp_rpm'' None (Some ''content'')],
                 other_repos = []\<rparr>"

subsection \<open>With a status object per repository, the checkout loop is the current one\<close>

text \<open>The copies in \<open>plugin_repos.py\<close> compute what the functions of
  \<open>repository.py\<close> compute.\<close>

lemma lg_download_from_gh_main_eq: "lg_download_from_gh_main = download_from_gh_main"
  unfolding lg_download_from_gh_main_def download_from_gh_main_def by (intro ext) (rule refl)

lemma lg_download_from_gh_latest_eq: "lg_download_from_gh_latest = download_from_gh_latest"
  unfolding lg_download_from_gh_latest_def download_from_gh_latest_def by (intro ext) (rule refl)

lemma lg_rest_api_link_abs: "lg_rest_api_link r = rest_api_link (lg_abs h r)"
  by (simp add: lg_rest_api_link_def rest_api_link_def lg_abs_def)

lemma lg_abs_frame: "h' ! lg_status x = h ! lg_status x \<Longrightarrow> lg_abs h' x = lg_abs h x"
  by (simp add: lg_abs_def)

lemma lg_set_status_nth:
  "lg_status r < length h \<Longrightarrow> lg_set_status h r f ! i = (if i = lg_status r then f (h ! i) else h ! i)"
  by (simp add: lg_set_status_def nth_list_update)

lemma length_lg_set_status [simp]: "length (lg_set_status h r f) = length h"
  by (simp add: lg_set_status_def)

lemma lg_checkout_update_abs:
  assumes u: "lg_checkout_update fs parent h r = (h', r', e)" and b: "lg_status r < length h"
  shows "checkout_update fs parent (lg_abs h r) = (lg_abs h' r', e) \<and> lg_status r' = lg_status r \<and>
         length h' = length h \<and> (\<forall>i. i \<noteq> lg_status r \<longrightarrow> h' ! i = h ! i)"
proof (cases "lg_local_basepath r = None \<and> fs_exists fs (path_div parent (lg_name r))")
  case True
  then show ?thesis
    using u b
    by (auto simp: lg_checkout_update_def checkout_update_def lg_abs_def lg_set_status_nth Let_def
             split: sum.splits)
next
  case False
  then show ?thesis using u by (auto simp: lg_checkout_update_def checkout_update_def lg_abs_def Let_def)
qed

lemma lg_checkout_loop_abs:
  "lg_checkout_loop fs parent h xs = (h', xs', e) \<Longrightarrow> lg_separate h xs \<Longrightarrow>
     checkout_loop fs parent (map (lg_abs h) xs) = (map (lg_abs h') xs', e) \<and> map lg_status xs' = map lg_status xs \<and>
     length h' = length h \<and> (\<forall>i. i \<notin> set (map lg_status xs) \<longrightarrow> h' ! i = h ! i)"
proof (induction xs arbitrary: h h' xs' e)
  case Nil
  then show ?case by simp
next
  case (Cons r rs)
  obtain h1 r1 e1 where u: "lg_checkout_update fs parent h r = (h1, r1, e1)" by (cases "lg_checkout_update fs parent h r")
  have sep: "distinct (map lg_status (r # rs))" "list_all (\<lambda>x. lg_status x < length h) (r # rs)"
    using Cons.prems(2) by (simp_all add: lg_separate_def)
  note s = lg_checkout_update_abs [OF u] sep(2)
  have rest: "map (lg_abs h1) rs = map (lg_abs h) rs"
  proof (rule map_cong [OF refl])
    fix x assume x: "x \<in> set rs"
    have nr: "lg_status r \<notin> set (map lg_status rs)" using sep(1) by simp
    have "lg_status x \<in> set (map lg_status rs)" using x by simp
    then have "lg_status x \<noteq> lg_status r" using nr by auto
    then show "lg_abs h1 x = lg_abs h x" using s by (intro lg_abs_frame) simp
  qed
  show ?case
  proof (cases e1)
    case (Some x)
    then show ?thesis using Cons.prems(1) u s rest by auto
  next
    case None
    obtain h2 rs2 e2 where l: "lg_checkout_loop fs parent h1 rs = (h2, rs2, e2)"
      by (cases "lg_checkout_loop fs parent h1 rs")
    have sep1: "lg_separate h1 rs" using sep s by (simp add: lg_separate_def)
    note ih = Cons.IH [OF l sep1]
    have "h2 ! lg_status r = h1 ! lg_status r" using ih sep(1) by simp
    then have r1: "lg_abs h2 r1 = lg_abs h1 r1" using s by (intro lg_abs_frame) simp
    have ih': "checkout_loop fs parent (map (lg_abs h) rs) = (map (lg_abs h2) rs2, e2)"
      using ih rest by simp
    have res: "h' = h2" "xs' = r1 # rs2" "e = e2" using Cons.prems(1) u None l by simp_all
    have fr: "h2 ! i = h ! i" if "i \<notin> set (map lg_status (r # rs))" for i
      using that ih s by simp
    show ?thesis using s ih ih' r1 fr None by (simp add: res)
  qed
qed

lemma lg_abs_repos_all: "repos_all (lg_abs_repos h rs) = map (lg_abs h) (lg_repos_all rs)"
  by (simp add: repos_all_def lg_repos_all_def lg_abs_repos_def)

text \<open>C31: When every repository of plugin_repos.py holds a RepoStatus object of its own, its update_local_checkouts, read through the status heap, does exactly what the update_local_checkouts of repository.py does: same repositories, same statuses, same exception.\<close>

theorem lg_update_local_checkouts_refines:
  assumes sep: "lg_separate h (lg_repos_all rs)"
    and u: "lg_update_local_checkouts fs parent h rs = (h', rs', e)"
  shows "update_local_checkouts fs parent (lg_abs_repos h rs) = (lg_abs_repos h' rs', e)"
proof -
  obtain xs where l: "lg_checkout_loop fs parent h (lg_repos_all rs) = (h', xs, e)"
    and rs': "rs' = rs\<lparr>lg_core := hd xs, lg_content := take (length (lg_content rs)) (tl xs),
                        lg_other := drop (length (lg_content rs)) (tl xs)\<rparr>"
    using u by (auto simp: lg_update_local_checkouts_def Let_def split: prod.splits)
  note ih = lg_checkout_loop_abs [OF l sep]
  have ne: "xs \<noteq> []" using ih by (auto simp: lg_repos_all_def)
  show ?thesis
    unfolding update_local_checkouts_def lg_abs_repos_all
    using ih ne by (simp add: rs' lg_abs_repos_def Let_def hd_map map_tl [symmetric] take_map drop_map)
qed

subsection \<open>With the shared default status, one repository's update is every repository's\<close>

lemma lg_checkout_update_flag:
  assumes u: "lg_checkout_update fs parent h r = (h', r', e)" and b: "lg_status r < length h"
  shows "use_local_checkout (h' ! lg_status r) =
           (use_local_checkout (h ! lg_status r) \<or>
            (lg_local_basepath r = None \<and> fs_exists fs (path_div parent (lg_name r))))"
  using u b
  by (auto simp: lg_checkout_update_def lg_set_status_nth Let_def split: if_splits sum.splits)

lemma lg_checkout_loop_shared:
  "lg_checkout_loop fs parent h xs = (h', xs', None) \<Longrightarrow> list_all (\<lambda>r. lg_status r = i) xs \<Longrightarrow> i < length h \<Longrightarrow>
     map lg_status xs' = map lg_status xs \<and> length h' = length h \<and>
     use_local_checkout (h' ! i) =
       (use_local_checkout (h ! i) \<or> (\<exists>r\<in>set xs. lg_local_basepath r = None \<and> fs_exists fs (path_div parent (lg_name r))))"
proof (induction xs arbitrary: h h' xs')
  case Nil
  then show ?case by simp
next
  case (Cons r rs)
  obtain h1 r1 e1 where u: "lg_checkout_update fs parent h r = (h1, r1, e1)" by (cases "lg_checkout_update fs parent h r")
  have ri: "lg_status r = i" using Cons.prems(2) by simp
  note s = lg_checkout_update_abs [OF u] lg_checkout_update_flag [OF u]
  have e1: "e1 = None" using Cons.prems(1) u by (auto split: option.splits prod.splits)
  obtain rs2 where l: "lg_checkout_loop fs parent h1 rs = (h', rs2, None)" and x: "xs' = r1 # rs2"
    using Cons.prems(1) u e1 by (auto split: prod.splits)
  have "i < length h1" using s Cons.prems(3) ri by simp
  note ih = Cons.IH [OF l _ this]
  show ?case using ih s ri Cons.prems(2,3) by (auto simp: x)
qed

lemma lg_repos_all_rebuild:
  "xs \<noteq> [] \<Longrightarrow>
     lg_repos_all (rs\<lparr>lg_core := hd xs, lg_content := take n (tl xs), lg_other := drop n (tl xs)\<rparr>) = xs"
  by (cases xs) (simp_all add: lg_repos_all_def)

text \<open>C32: In plugin_repos.py, when all repositories share the default RepoStatus object (as Repo(...) and from_yaml build them), a run of update_local_checkouts that switches any one repository to its local checkout makes every repository report use_local_checkout, including those with an explicit local_basepath.\<close>

theorem lg_shared_status_checkout:
  assumes sh: "list_all (\<lambda>r. lg_status r = SHARED_STATUS) (lg_repos_all rs)" and b: "SHARED_STATUS < length h"
    and u: "lg_update_local_checkouts fs parent h rs = (h', rs', None)"
  shows "\<forall>r\<in>set (lg_repos_all rs'). use_local_checkout (h' ! lg_status r) =
           (use_local_checkout (h ! SHARED_STATUS) \<or>
            (\<exists>r\<in>set (lg_repos_all rs). lg_local_basepath r = None \<and> fs_exists fs (path_div parent (lg_name r))))"
proof -
  obtain xs where l: "lg_checkout_loop fs parent h (lg_repos_all rs) = (h', xs, None)"
    and rs': "rs' = rs\<lparr>lg_core := hd xs, lg_content := take (length (lg_content rs)) (tl xs),
                        lg_other := drop (length (lg_content rs)) (tl xs)\<rparr>"
    using u by (auto simp: lg_update_local_checkouts_def Let_def split: prod.splits)
  note c = lg_checkout_loop_shared [OF l sh b]
  have ne: "xs \<noteq> []" using c by (auto simp: lg_repos_all_def)
  have all: "lg_repos_all rs' = xs" using ne by (simp add: rs' lg_repos_all_rebuild)
  have "lg_status r = SHARED_STATUS" if "r \<in> set xs" for r
  proof -
    have "lg_status r \<in> set (map lg_status xs)" using that by simp
    then show ?thesis using c sh by (auto simp: list_all_iff)
  qed
  then show ?thesis using c by (simp add: all)
qed

lemma lg_download_origin_length:
  "lg_download_origin env fs h r = (fs', h', res) \<Longrightarrow> length h' = length h"
  by (auto simp: lg_download_origin_def Let_def split: option.splits if_splits prod.splits sum.splits)

lemma lg_download_Inr_status:
  assumes d: "lg_download env fs h r dest cc = Some ((fs', h'), Inr s)" and b: "lg_status r < length h"
  shows "length h' = length h \<and> download_source (h' ! lg_status r) = Some s"
proof -
  obtain x y where c: "(if cc then clear_download_cache env fs else (fs, Inr fs)) = (x, y)" by fastforce
  obtain fs1 where y: "y = Inr fs1" using d c by (cases y) (auto simp: lg_download_def)
  obtain fs2 h2 org where org: "lg_download_origin env fs1 h r = (fs2, h2, org)"
    by (cases "lg_download_origin env fs1 h r") auto
  obtain s0 src where org': "org = Inr (s0, src)" using d c y org by (cases org) (auto simp: lg_download_def)
  obtain fs3 res where ct: "copytree (copy_fuel fs2) LEGACY_IGNORE src dest fs2 = Some (fs3, res)"
    using d c y org org' by (cases "copytree (copy_fuel fs2) LEGACY_IGNORE src dest fs2") (auto simp: lg_download_def)
  obtain v where res: "res = Inr v" using d c y org org' ct by (cases res) (auto simp: lg_download_def)
  have h': "h' = lg_set_status h2 r (\<lambda>st. st\<lparr>download_source := Some s\<rparr>)"
    using d c y org org' ct res by (auto simp: lg_download_def)
  have "length h2 = length h" by (rule lg_download_origin_length [OF org])
  then show ?thesis using b by (simp add: h' lg_set_status_nth)
qed

lemma lg_repo_call_status: "lg_repo_call y t = Inr r \<Longrightarrow> lg_status r = SHARED_STATUS"
  by (auto simp: lg_repo_call_def)

lemma lg_from_yaml_shared:
  assumes "lg_from_yaml fs cwd load p = Inr rs"
  shows "list_all (\<lambda>r. lg_status r = SHARED_STATUS) (lg_repos_all rs)"
proof -
  obtain c cs os where l: "load_repolist lg_repo_call fs cwd load p = Inr (c, cs, os)"
    and rs: "rs = \<lparr>lg_core = c, lg_content = cs, lg_other = os\<rparr>"
    using assms by (auto simp: lg_from_yaml_def)
  note e = load_repolist_elems [OF l]
  show ?thesis using e lg_repo_call_status by (fastforce simp: rs lg_repos_all_def list_all_iff)
qed

text \<open>C33: In plugin_repos.py, after loading a repolist with from_yaml and downloading any one of its repositories, every repository of the list reports that repository's source as its status.download_source.\<close>

theorem lg_download_shared_source:
  assumes y: "lg_from_yaml fs0 cwd load p = Inr rs" and r: "r \<in> set (lg_repos_all rs)"
    and d: "lg_download env fs lg_heap0 r dest cc = Some ((fs', h'), Inr s)"
  shows "\<forall>r'\<in>set (lg_repos_all rs). download_source (h' ! lg_status r') = Some s"
proof -
  have sh: "list_all (\<lambda>r. lg_status r = SHARED_STATUS) (lg_repos_all rs)" by (rule lg_from_yaml_shared [OF y])
  then have "lg_status r = SHARED_STATUS" using r by (simp add: list_all_iff)
  then have "download_source (h' ! SHARED_STATUS) = Some s"
    using lg_download_Inr_status [OF d] by (simp add: lg_heap0_def SHARED_STATUS_def)
  then show ?thesis using sh by (simp add: list_all_iff)
qed

subsection \<open>\<open>from_yaml\<close> of both files\<close>

lemma load_repolist_map:
  assumes "\<And>y t. mk2 y t = map_sum id f (mk1 y t)"
  shows "load_repolist mk2 fs cwd load p =
           map_sum id (\<lambda>(c, cs, os). (f c, map f cs, map f os)) (load_repolist mk1 fs cwd load p)"
  by (simp add: load_repolist_def Let_def assms sbind_map_sum map_sum_sbind map_res_natural)

lemma repo_call_lg: "repo_call y t = map_sum id (lg_abs lg_heap0) (lg_repo_call y t)"
  by (cases "repo_kwargs y")
     (auto simp: repo_call_def lg_repo_call_def lg_abs_def lg_heap0_def SHARED_STATUS_def)

text \<open>The \<open>from_yaml\<close> of \<open>plugin_repos.py\<close>, read through the initial status heap, is the \<open>from_yaml\<close> of \<open>repository.py\<close>.\<close>

lemma lg_from_yaml_refines:
  "map_sum id (lg_abs_repos lg_heap0) (lg_from_yaml fs cwd load p) = from_yaml fs cwd load p"
  by (simp add: from_yaml_def lg_from_yaml_def load_repolist_map [OF repo_call_lg] sbind_map_sum map_sum_sbind
                lg_abs_repos_def split_def)

subsection \<open>Examples\<close>

text \<open>C34: The Repo.download of plugin_repos.py, for a repository with a local base path, copies the checkout to a missing destination whose parent exists and which is not inside it, ignoring exactly the names matched by tests, *venv* or __pycache__ (never the checkout's .gitignore), returns the checkout path and writes it to the status object the repository refers to.\<close>

theorem lg_download_local_copy:
  assumes t: "fs_tree fs" and lb: "lg_local_basepath r = Some lb"
    and src: "src = path_absolute (env_cwd env) (path_div lb (lg_name r))"
    and sd: "fs_is_dir fs src" and ne: "\<not> fs_exists fs dst"
    and pa: "fs_is_dir fs (butlast dst)" and b: "butlast dst \<noteq> []" and od: "list_all entry_name_ok (tl dst)"
    and d1: "\<not> prefix src dst"
  shows "\<exists>fs'. lg_download env fs h r dst False =
           Some ((fs', lg_set_status h r (\<lambda>s. s\<lparr>download_source := Some (path_str src)\<rparr>)), Inr (path_str src)) \<and>
           copy_image [''tests'', ''*venv*'', ''__pycache__''] src dst fs fs' \<and>
           fs_agree (\<lambda>k. \<not> prefix dst k \<and> k \<noteq> butlast dst) fs fs'"
proof -
  have o: "lg_download_origin env fs h r = (fs, h, Inr (path_str src, src))"
    using lb src by (simp add: lg_download_origin_def Let_def)
  have tk: "map_res fm_tokens LEGACY_IGNORE = Inr (projr (map_res fm_tokens LEGACY_IGNORE))"
    by code_simp
  from copytree_refines [OF t sd ne pa b od d1 tk] obtain fs' where
    c: "copytree (copy_fuel fs) LEGACY_IGNORE src dst fs = Some (fs', Inr dst)"
    and i: "copy_image LEGACY_IGNORE src dst fs fs'" "fs_agree (\<lambda>k. \<not> prefix dst k \<and> k \<noteq> butlast dst) fs fs'" by blast
  show ?thesis using o c i by (intro exI [of _ fs']) (simp add: lg_download_def LEGACY_IGNORE_def)
qed

theorem lg_update_local_checkouts_refines_witness:
  "update_local_checkouts (checkout_fixture ''ref: refs/heads/dev\<newline>'') [''/'', ''src'']
      (lg_abs_repos (replicate 4 default_status) (lg_own_status_fixtures [''/'', ''w''])) =
   (lg_abs_repos (fst (lg_update_local_checkouts (checkout_fixture ''ref: refs/heads/dev\<newline>'') [''/'', ''src'']
                        (replicate 4 default_status) (lg_own_status_fixtures [''/'', ''w''])))
                 (fst (snd (lg_update_local_checkouts (checkout_fixture ''ref: refs/heads/dev\<newline>'') [''/'', ''src'']
                        (replicate 4 default_status) (lg_own_status_fixtures [''/'', ''w''])))),
    snd (snd (lg_update_local_checkouts (checkout_fixture ''ref: refs/heads/dev\<newline>'') [''/'', ''src'']
                        (replicate 4 default_status) (lg_own_status_fixtures [''/'', ''w'']))))"
proof -
  have sep: "lg_separate (replicate 4 default_status) (lg_repos_all (lg_own_status_fixtures [''/'', ''w'']))"
    by code_simp
  have u: "lg_update_local_checkouts (checkout_fixture ''ref: refs/heads/dev\<newline>'') [''/'', ''src'']
             (replicate 4 default_status) (lg_own_status_fixtures [''/'', ''w'']) =
           (fst (lg_update_local_checkouts (checkout_fixture ''ref: refs/heads/dev\<newline>'') [''/'', ''src'']
                  (replicate 4 default_status) (lg_own_status_fixtures [''/'', ''w''])),
            fst (snd (lg_update_local_checkouts (checkout_fixture ''ref: refs/heads/dev\<newline>'') [''/'', ''src'']
                  (replicate 4 default_status) (lg_own_status_fixtures [''/'', ''w'']))),
            snd (snd (lg_update_local_checkouts (checkout_fixture ''ref: refs/heads/dev\<newline>'') [''/'', ''src'']
                  (replicate 4 default_status) (lg_own_status_fixtures [''/'', ''w'']))))"
    by simp
  show ?thesis by (rule lg_update_local_checkouts_refines [OF sep u])
qed

theorem lg_shared_status_checkout_witness:
  "list_all (\<lambda>r. use_local_checkout (fst (lg_update_local_checkouts (checkout_fixture ''ref: refs/heads/dev\<newline>'')
                  [''/'', ''src''] lg_heap0 (lg_test_fixtures [''/'', ''w''])) ! lg_status r))
     (lg_repos_all (fst (snd (lg_update_local_checkouts (checkout_fixture ''ref: refs/heads/dev\<newline>'')
                  [''/'', ''src''] lg_heap0 (lg_test_fixtures [''/'', ''w''])))))"
proof -
  have sh: "list_all (\<lambda>r. lg_status r = SHARED_STATUS) (lg_repos_all (lg_test_fixtures [''/'', ''w'']))" by code_simp
  have b: "SHARED_STATUS < length lg_heap0" by code_simp
  have e: "snd (snd (lg_update_local_checkouts (checkout_fixture ''ref: refs/heads/dev\<newline>'')
             [''/'', ''src''] lg_heap0 (lg_test_fixtures [''/'', ''w'']))) = None" by code_simp
  have u: "lg_update_local_checkouts (checkout_fixture ''ref: refs/heads/dev\<newline>'') [''/'', ''src'']
             lg_heap0 (lg_test_fixtures [''/'', ''w'']) =
           (fst (lg_update_local_checkouts (checkout_fixture ''ref: refs/heads/dev\<newline>'') [''/'', ''src'']
                  lg_heap0 (lg_test_fixtures [''/'', ''w''])),
            fst (snd (lg_update_local_checkouts (checkout_fixture ''ref: refs/heads/dev\<newline>'') [''/'', ''src'']
                  lg_heap0 (lg_test_fixtures [''/'', ''w'']))), None)"
    using e by (metis prod.collapse)
  have ex: "\<exists>r\<in>set (lg_repos_all (lg_test_fixtures [''/'', ''w''])).
              lg_local_basepath r = None \<and> fs_exists (checkout_fixture ''ref: refs/heads/dev\<newline>'') (path_div [''/'', ''src''] (lg_name r))"
    by code_simp
  show ?thesis using lg_shared_status_checkout [OF sh b u] ex by (simp add: list_all_iff)
qed

theorem lg_download_shared_source_witness:
  "list_all (\<lambda>r'. download_source (snd (fst (the (lg_download download_fixture_env download_fixture_fs lg_heap0
        (lg_mk_repo ''Pulp Core'' ''core'' None (Some ''core'')) [''/'', ''w'', ''core''] False))) ! lg_status r') =
     Some (gh_url ''pulp'' ''core''))
     (lg_repos_all
        \<lparr>lg_core = lg_mk_repo ''Pulp Core'' ''core'' None (Some ''core''),
         lg_content = [lg_mk_repo ''Rpm Packages'' ''pulp_rpm'' None (Some ''content'')], lg_other = []\<rparr>)"
proof -
  let ?R = "\<lparr>lg_core = lg_mk_repo ''Pulp Core'' ''core'' None (Some ''core''),
             lg_content = [lg_mk_repo ''Rpm Packages'' ''pulp_rpm'' None (Some ''content'')], lg_other = []\<rparr>"
  let ?D = "lg_download download_fixture_env download_fixture_fs lg_heap0
              (lg_mk_repo ''Pulp Core'' ''core'' None (Some ''core'')) [''/'', ''w'', ''core''] False"
  have y: "lg_from_yaml repolist_fs [''/'', ''w''] (\<lambda>_. Inr legacy_repolist) ''repolist.yml'' = Inr ?R"
    by code_simp
  have r: "lg_mk_repo ''Pulp Core'' ''core'' None (Some ''core'') \<in> set (lg_repos_all ?R)"
    by (simp add: lg_repos_all_def)
  have e: "?D \<noteq> None \<and> snd (the ?D) = Inr (gh_url ''pulp'' ''core'')" by code_simp
  then have d: "?D = Some ((fst (fst (the ?D)), snd (fst (the ?D))), Inr (gh_url ''pulp'' ''core''))"
    by (cases ?D) auto
  show ?thesis using lg_download_shared_source [OF y r d] by (simp add: list_all_iff)
qed

theorem lg_download_local_copy_witness:
  "\<exists>fs'. lg_download download_fixture_env local_checkout_fs lg_heap0
           (lg_mk_repo ''Pulp Core'' ''core'' (Some [''/'', ''src'']) None) [''/'', ''w'', ''core''] False =
         Some ((fs', lg_set_status lg_heap0 (lg_mk_repo ''Pulp Core'' ''core'' (Some [''/'', ''src'']) None)
                       (\<lambda>s. s\<lparr>download_source := Some ''/src/core''\<rparr>)), Inr ''/src/core'') \<and>
         copy_image [''tests'', ''*venv*'', ''__pycache__''] [''/'', ''src'', ''core''] [''/'', ''w'', ''core''] local_checkout_fs fs'"
proof -
  let ?r = "lg_mk_repo ''Pulp Core'' ''core'' (Some [''/'', ''src'']) None"
  have src: "[''/'', ''src'', ''core''] = path_absolute (env_cwd download_fixture_env) (path_div [''/'', ''src''] (lg_name ?r))"
    by code_simp
  have h: "fs_tree local_checkout_fs" "fs_is_dir local_checkout_fs [''/'', ''src'', ''core'']"
    "\<not> fs_exists local_checkout_fs [''/'', ''w'', ''core'']" "fs_is_dir local_checkout_fs (butlast [''/'', ''w'', ''core''])"
    "butlast [''/'', ''w'', ''core''] \<noteq> []" "list_all entry_name_ok (tl [''/'', ''w'', ''core''])"
    "\<not> prefix [''/'', ''src'', ''core''] [''/'', ''w'', ''core'']"
    by code_simp+
  have lb: "lg_local_basepath ?r = Some [''/'', ''src'']" by (simp add: lg_mk_repo_def)
  have ps: "path_str [''/'', ''src'', ''core''] = ''/src/core''" by code_simp
  from lg_download_local_copy [OF h(1) lb src h(2-7), of lg_heap0] show ?thesis unfolding ps by blast
qed

end
