(* ===== verification/Spec2Isabelle.thy ===== *)
theory Spec2Isabelle
  imports Navigation Legacy
begin

text \<open>
  \<^bold>\<open>A verified model of the navigation core of pulp-docs.\<close>

  pulp-docs builds the navigation tree of the Pulp documentation site. It
  collects the repositories (\<open>src/pulp_docs/repository.py\<close>) and then walks
  their \<open>docs/\<close> directories (\<open>src/pulp_docs/navigation.py\<close>). It groups the
  markdown files it finds by persona, repository and content type, expanding
  path templates with \<open>str.format\<close> and discovering files with
  \<open>pathlib.Path.glob\<close>. The development is a shallow embedding of that code:
  each Python function is a HOL function of the same name, and each theory
  holds one component.

  \<^item> \<open>Prelude\<close>: Python exceptions as the datatype \<open>py_error\<close> and the
    result type \<open>py_error + 'a\<close> with its bind \<open>sbind\<close>. A \<open>for\<close> loop that may
    raise is \<open>map_res\<close>. The \<open>str\<close> methods the code calls are \<open>startswith\<close>,
    \<open>endswith\<close>, \<open>lower\<close> and \<open>split\<close>. A dict is an association list kept
    in insertion order: assignment is \<open>dict_set\<close>, which overwrites a present key in
    place, and item access is \<open>dict_get\<close>, which raises KeyError. The generic
    lemmas on them live here too.
  \<^item> \<open>Paths\<close>: \<open>pathlib\<close> paths as lists of parts (\<open>/\<close>, \<open>str()\<close>,
    \<open>relative_to\<close>, which raises ValueError), and the file system as the record
    \<open>fsys\<close>. Its directory table gives each directory's entries in the order
    \<open>scandir\<close> returns them.
  \<^item> \<open>Format\<close>: \<open>str.format\<close>, a character-level state machine \<open>fmt_go\<close>
    that follows CPython's \<open>MarkupIterator\<close>. It covers escaped braces,
    automatic and manual field numbering and their mixing (ValueError), missing
    keys (KeyError) and missing positions (IndexError). Attribute or index
    access, conversions and format specifications yield \<open>Unmodelled\<close>. None of
    them occurs in the sources' templates, which is what
    \<open>py_format_render_tpl\<close> shows.
  \<^item> \<open>Discovery\<close>: \<open>AgregationUtils.get_children\<close>, \<open>section_file\<close> and
    \<open>section_children\<close> (navigation.py 202-214 and 331-340).
  \<^item> \<open>Repository\<close>: \<open>RepoStatus\<close>, \<open>Repo\<close> and \<open>Repos\<close> as records, plus
    \<open>Repos.all\<close>, \<open>Repo.rest_api_link\<close> and \<open>Repos.test_fixtures\<close>.
    \<open>Repos.update_local_checkouts\<close> is explicit state passing: the loop
    \<open>checkout_loop\<close> applies the body \<open>checkout_update\<close> to each repository
    and returns the updated repositories with the exception, if any, that
    stopped it.
  \<^item> \<open>FileOps\<close>: the file-system operations the download calls
    (\<open>mkdir\<close>, \<open>os.makedirs\<close>, writing a file, \<open>shutil.rmtree\<close> and
    the tree a \<open>git clone\<close> leaves, \<open>fs_graft\<close>), with the tree invariant
    \<open>fs_tree\<close> (every path's parent is a directory listing it, names are
    distinct and well formed, no path is both a file and a directory). Each
    operation preserves the invariant, and the frame predicate \<open>fs_agree\<close>
    says which paths it leaves alone.
  \<^item> \<open>Fnmatch\<close>: \<open>fnmatch.fnmatch\<close> and \<open>shutil.ignore_patterns\<close>. A pattern
    is compiled to tokens (\<open>*\<close>, \<open>?\<close>, literals and bracket sets) and matched by
    a backtracking matcher, proved equal to a language \<open>fm_lang\<close> defined by
    concatenation.
  \<^item> \<open>Download\<close>: \<open>Repo.download\<close> (repository.py 68-134) and
    \<open>download_from_gh_main\<close> (137-155). The choice of the source
    (\<open>download_origin\<close>: local checkout, cache in \<open>DOWNLOAD_CACHE_DIR\<close>, or
    a clone) comes first, then \<open>read_gitignore\<close> and \<open>shutil.copytree\<close>
    (\<open>copy_dir\<close>/\<open>copy_entries\<close>, with \<open>shutil.Error\<close> collecting the
    failures of single entries). Remote repositories are an input: the
    environment \<open>dl_env\<close> maps a clone URL and branch to the tree a clone
    produces.
  \<^item> \<open>Release\<close>: \<open>download_from_gh_latest\<close> (repository.py 158-188). The
    network is the environment \<open>gh_env\<close>: the JSON document of each API URL
    and the members of each tarball. \<open>tar_extract\<close> follows
    \<open>extractall(filter="data")\<close>, \<open>first_member_word\<close> is
    \<open>getmembers()[0].name.split()[0]\<close>, and \<open>gh_move\<close>/\<open>move_to\<close> are
    \<open>shutil.move\<close>. The temporary directory has a name given as a parameter
    and is removed on every way out of the \<open>with\<close> block.
  \<^item> \<open>RepoConfig\<close>: \<open>Repos.from_yaml\<close> (repository.py 216-248) over the
    document \<open>yaml.load\<close> returns, a value of the datatype \<open>yaml\<close>; the
    parser is a parameter. Subscripting, \<open>[0]\<close>, iteration and the call
    \<open>Repo(**entry, type=...)\<close> raise TypeError, KeyError and IndexError where
    CPython does. The body is \<open>load_repolist\<close>, parametrised by the
    constructor.
  \<^item> \<open>Legacy\<close>: \<open>plugin_repos.py\<close>, an older copy of repository.py that
    navigation.py does not import. Its \<open>Repo\<close> has the default
    \<open>status: RepoStatus = RepoStatus()\<close>, one object shared by every
    repository. So the statuses live in an explicit heap, and repositories
    hold references into it: \<open>update_local_checkouts\<close>, \<open>download\<close> and
    \<open>from_yaml\<close> update the heap, not the repository. Its
    \<open>rest_api_link\<close>, \<open>download_from_gh_main\<close> and
    \<open>download_from_gh_latest\<close> are written out again and proved equal to
    those of repository.py.
  \<^item> \<open>Aggregation\<close>: \<open>AgregationUtils.repo_grouping\<close>. Its flat loop is
    \<open>group_flat\<close>; its content-type loops are \<open>group_expand\<close> and
    \<open>group_content\<close>. The theory also holds \<open>_pop_quickstart_from\<close>
    (\<open>pop_quickstart\<close>) and \<open>repo_reference_grouping\<close> (\<open>ref_loop\<close>), on the
    navigation tree datatype \<open>nav\<close> (a string, a list or a dict).
  \<^item> \<open>Navigation\<close>: \<open>get_navigation\<close>, \<open>grouped_by_persona\<close> (its nested
    functions are \<open>manual_section\<close>, \<open>reference_nav\<close> and \<open>help_section\<close>)
    and \<open>grouped_by_content_type\<close>. They are composed in the order the source
    evaluates them, so the first exception raised is the one the model returns.

  What is proved:
  \<^item> totality and shape of the whole tree: \<open>get_navigation_total\<close> (below),
    \<open>grouped_by_content_type_total\<close> (Navigation) and the \<open>_ok\<close> lemmas of
    each grouping function, under well-formed directory tables and repository
    names that are non-empty and relative;
  \<^item> the functional behaviour of the grouping functions on every branch:
    the flat and the expanding \<open>repo_grouping\<close>, \<open>_pop_quickstart_from\<close>, the
    four reference sections of every repository and the selection of
    repositories by type, with its AttributeError;
  \<^item> file discovery: the result is sorted, has no duplicates, does not
    depend on the listing order (a multiset argument), and a missing directory
    contributes nothing;
  \<^item> template expansion: with the keyword arguments \<open>repo_grouping\<close> passes,
    a template looks up the directory its placeholders name after
    substituting the repository name, admin, user and the content type (via
    a refinement of \<open>str.format\<close> to substitution into an abstract template);
    any other placeholder makes \<open>repo_grouping\<close> raise KeyError;
  \<^item> local checkouts: the loop keeps the repositories, their order and
    every field but status, base path and branch, is idempotent once it has
    succeeded, keeps its partial updates when reading \<open>.git/HEAD\<close> raises,
    and reads the branch as the HEAD file without its first five characters;
  \<^item> the download: from a local checkout, \<open>Repo.download\<close> copies exactly
    the files and directories whose path has no name matched by a line of
    the checkout's \<open>.gitignore\<close> (the refinement lemma \<open>copytree_refines\<close> of
    the copy to the specification \<open>copy_image\<close> carries it); it returns
    whenever the destination is not inside its source; a repository found
    in the cache is copied from there on the next call; a failing clone
    raises CalledProcessError with the command line; a local checkout never
    touches the network; clearing the cache does not reset
    \<open>status.using_cache\<close>; the patterns are read back from a written
    \<open>.gitignore\<close> as written; and a \<open>.gitignore\<close> line naming a directory
    (\<open>build/\<close>) ignores nothing;
  \<^item> the release download: every exception of \<open>download_from_gh_latest\<close>
    leaves the file system as it was. Extraction only writes below the
    temporary directory, and removing that directory undoes it
    (\<open>gh_latest_error_unchanged\<close>). A successful download places, below
    the destination, exactly the files the archive holds under its top
    directory, and places them under \<open>dest_dir/<top>\<close> when \<open>dest_dir\<close>
    already exists (\<open>gh_latest_places_tree\<close>, with \<open>tar_file_at\<close>
    saying what an extraction leaves at a path);
  \<^item> configuration: \<open>Repo(**entry)\<close> raises TypeError exactly where CPython
    does and builds what a well-formed entry says; every loaded repository is
    typed by its position; a repository set written as a repolist is read
    back unchanged; and the docstring's own example raises KeyError 0;
  \<^item> the legacy copy: with one status object per repository, its
    \<open>update_local_checkouts\<close> refines the current one through the abstraction
    \<open>lg_abs\<close> (a simulation over the loop), and its \<open>from_yaml\<close> is the
    current one. Its download copies a local checkout with the fixed ignore
    patterns \<open>tests\<close>, \<open>*venv*\<close> and \<open>__pycache__\<close>. With the shared default,
    one repository switched to a local checkout marks all of them, and one
    download gives all of them its source.

  Every loop of the sources is a structural recursion over a finite list,
  so it needs no fuel and every function is total, with one exception:
  \<open>shutil.copytree\<close>. It recurses into the directories of its source as it
  finds them. When the destination lies inside the source, the copy is itself
  copied again and again. So \<open>copy_dir\<close> takes fuel and returns \<open>None\<close> when
  the fuel runs out. \<open>Repo.download\<close> is given \<open>copy_fuel\<close>: one more than
  the length of the longest directory path of the table. The nesting depth
  of a copy is bounded by the depth of its source, so this fuel is enough
  whenever the destination is not inside the source: \<open>download_terminates\<close>
  shows that \<open>Repo.download\<close> then always returns, and the lemma
  \<open>copytree_fuel_mono\<close> that any larger fuel gives the same result.
  Concrete examples are evaluated with \<open>code_simp\<close>.

  Not modelled:
  \<^item> logging and printing, and the contents git writes beyond the tree of
    the clone; in \<open>download_from_gh_latest\<close>, the bytes of the HTTP
    responses (the environment gives the parsed JSON and the archive
    members), symbolic links in archives, member names with a \<open>..\<close> part
    that stays inside, and \<open>mkdtemp\<close> retrying a name in use
    (\<open>Unmodelled\<close>);
  \<^item> the YAML parser itself (a parameter), and YAML values the
    repository records cannot hold, which are \<open>Unmodelled\<close>;
  \<^item> the module constants and \<open>RepoStatus\<close> of \<open>plugin_repos.py\<close>, which
    have the values of those of repository.py and share their model.

  The divergences between the code and its specification that the model
  shows are stated as theorems. They are the expanding grouping keeping
  repositories with no files, quickstart files of other content types being
  dropped, the primary repository being ignored for Getting Started, and
  QuickStart.MD never being found. Outside the spec's scope, the theorems
  also show defects of the glue code: a directory line of \<open>.gitignore\<close>
  ignores nothing, clearing the cache leaves \<open>using_cache\<close> set, the
  example in the docstring of \<open>from_yaml\<close> does not load, in
  \<open>plugin_repos.py\<close> every repository shares one status, and
  \<open>download_from_gh_latest\<close> to an existing directory puts the sources
  one level down (\<open>gh_latest_places_tree\<close> in Release).
\<close>

text \<open>C1: get_navigation never raises on a well-formed file system when every repository name is non-empty and relative, and it always returns the six top-level sections Home, User Manual, Admin Manual, Development, Reference and Help in that order.\<close>

theorem get_navigation_total:
  assumes "fs_wf fs" and "\<forall>r\<in>set (repos_all rs). repo_name_ok (name r)"
  shows "\<exists>usage admin dev reference.
           get_navigation fs tmp rs =
             Inr (NList [NDict [(''Home'', NStr ''index.md'')],
                         NDict [(''User Manual'', usage)],
                         NDict [(''Admin Manual'', admin)],
                         NDict [(''Development'', dev)],
                         NDict [(''Reference'', reference)],
                         NDict [(''Help'', help_section)]])"
proof -
  let ?f = "\<lparr>tmpdir = tmp, repos = rs\<rparr>"
  have names: "\<forall>r\<in>set (repos_all (repos ?f)). repo_name_ok (name r)"
    using assms(2) by simp
  have p: "list_all (\<lambda>c. c \<noteq> CHR ''{'' \<and> c \<noteq> CHR ''}'') ''user''"
    "list_all (\<lambda>c. c \<noteq> CHR ''{'' \<and> c \<noteq> CHR ''}'') ''admin''"
    "list_all (\<lambda>c. c \<noteq> CHR ''{'' \<and> c \<noteq> CHR ''}'') ''dev''"
    by simp_all
  obtain u where "manual_section fs ?f ''usage/index.md'' ''user'' = Inr u"
    using manual_section_ok [OF assms(1) names p(1)] by blast
  moreover obtain a where "manual_section fs ?f ''admin/index.md'' ''admin'' = Inr a"
    using manual_section_ok [OF assms(1) names p(2)] by blast
  moreover obtain d where "manual_section fs ?f ''development/index.md'' ''dev'' = Inr d"
    using manual_section_ok [OF assms(1) names p(3)] by blast
  moreover obtain n where "repo_reference_grouping fs ?f = Inr n"
    using repo_reference_grouping_ok [OF assms(1) names] by blast
  ultimately show ?thesis
    by (simp add: get_navigation_def grouped_by_persona_def reference_nav_def)
qed

theorem get_navigation_total_witness:
  "\<exists>usage admin dev reference.
     get_navigation aggregation_fixture [''/'', ''tmp''] (test_fixtures [''/'', ''w'']) =
       Inr (NList [NDict [(''Home'', NStr ''index.md'')], NDict [(''User Manual'', usage)],
                   NDict [(''Admin Manual'', admin)], NDict [(''Development'', dev)],
                   NDict [(''Reference'', reference)], NDict [(''Help'', help_section)]])"
proof -
  have "fs_wf aggregation_fixture" by code_simp
  moreover have "\<forall>r\<in>set (repos_all (test_fixtures [''/'', ''w''])). repo_name_ok (name r)" by code_simp
  ultimately show ?thesis by (rule get_navigation_total)
qed

end
